theory Spec2Isabelle
  imports Complex_Main
begin

section \<open>JavaScript values\<close>

text \<open>
  Strings are lists of 8-bit characters, so the model covers payloads whose code units
  lie in the Latin-1 range. A number is an IEEE-754 double: \<open>Finite r\<close> is the double
  whose value is the rational \<open>r\<close> (\<open>Finite 0\<close> is the positive zero), \<open>NegZero\<close> is the
  negative zero.
\<close>

datatype jsnum = NaN | PosInfinity | NegInfinity | NegZero | Finite rat

datatype jsval =
    JUndefined
  | JNull
  | JBool bool
  | JNum jsnum
  | JStr string
  | JArr "jsval list"
  | JObj "(string \<times> jsval) list"

text \<open>
  A thrown value. \<open>Error m\<close> is \<open>new Error(m)\<close>; \<open>TypeError\<close> and \<open>SyntaxError\<close> are
  the errors the engine raises itself (calling a missing method, reading a property of
  \<open>null\<close>, \<open>JSON.parse\<close> on a malformed text). Their message text is engine specific and
  is represented by the name of the error.
\<close>

datatype error = Error string | TypeError | SyntaxError

fun error_message :: "error \<Rightarrow> string" where
  "error_message (Error m) = m"
| "error_message TypeError = ''TypeError''"
| "error_message SyntaxError = ''SyntaxError''"

text \<open>The pattern \<open>try { ... } catch (error) { throw new Error(prefix + error.message) }\<close>.\<close>

definition rethrow :: "string \<Rightarrow> error + 'a \<Rightarrow> error + 'a" where
  "rethrow pre r = (case r of Inl e \<Rightarrow> Inl (Error (pre @ error_message e)) | Inr v \<Rightarrow> Inr v)"

text \<open>
  What the surroundings of a call supply: the built-in \<open>JSON.parse\<close> (\<open>None\<close> when it
  throws a SyntaxError), the value of the call \<open>this.parser.parseString(xml, callback)\<close>
  of the xml2js library, the method \<open>extractXMLField\<close> that the BANCS parser calls and
  its class does not define, the reading of the clock as an ISO string, the generated
  uuid and the elapsed time in milliseconds.
\<close>

record env =
  JSON_parse :: "string \<Rightarrow> jsval option"
  xml2js_parseString :: "string \<Rightarrow> error + jsval"
  extractXMLField :: "string \<Rightarrow> string \<Rightarrow> error + jsval"
  now_iso :: string
  uuidv4 :: string
  elapsed_ms :: nat

section \<open>Strings\<close>

definition is_digit :: "char \<Rightarrow> bool" where
  "is_digit c = (c \<in> set ''0123456789'')"

definition is_upper :: "char \<Rightarrow> bool" where
  "is_upper c = (c \<in> set ''ABCDEFGHIJKLMNOPQRSTUVWXYZ'')"

text \<open>White space and line terminators of JavaScript, as far as they are 8-bit characters:
  tab, line feed, vertical tab, form feed, carriage return, space, no-break space.\<close>

definition is_space :: "char \<Rightarrow> bool" where
  "is_space c = (c \<in> set [CHR 0x09, CHR 0x0A, CHR 0x0B, CHR 0x0C, CHR 0x0D, CHR 0x20, CHR 0xA0])"

definition trim :: "string \<Rightarrow> string" where
  "trim s = rev (dropWhile is_space (rev (dropWhile is_space s)))"

text \<open>\<open>s.substring(a, b)\<close> for constants \<open>a \<le> b\<close>; positions beyond the end are clamped.\<close>

definition substring :: "string \<Rightarrow> nat \<Rightarrow> nat \<Rightarrow> string" where
  "substring s a b = take (b - a) (drop a s)"

definition startsWith :: "string \<Rightarrow> string \<Rightarrow> bool" where
  "startsWith s p = (take (length p) s = p)"

fun str_includes :: "string \<Rightarrow> string \<Rightarrow> bool" where
  "str_includes [] p = (p = [])"
| "str_includes (c # cs) p = (startsWith (c # cs) p \<or> str_includes cs p)"

text \<open>\<open>s.split(sep)\<close> for a one-character separator.\<close>

fun split :: "char \<Rightarrow> string \<Rightarrow> string list" where
  "split sep [] = [[]]"
| "split sep (c # cs) =
     (if c = sep then [] # split sep cs
      else (case split sep cs of [] \<Rightarrow> [[c]] | p # ps \<Rightarrow> (c # p) # ps))"

fun join :: "string \<Rightarrow> string list \<Rightarrow> string" where
  "join sep [] = []"
| "join sep [x] = x"
| "join sep (x # y # ys) = x @ sep @ join sep (y # ys)"

section \<open>Numbers\<close>

definition digit_val :: "char \<Rightarrow> nat" where
  "digit_val c = of_char c - 48"

definition digits_val :: "string \<Rightarrow> nat" where
  "digits_val ds = foldl (\<lambda>a c. 10 * a + digit_val c) 0 ds"

text \<open>The number of binary digits of a natural number.\<close>

fun bit_length :: "nat \<Rightarrow> nat" where
  "bit_length n = (if n = 0 then 0 else bit_length (n div 2) + 1)"

declare bit_length.simps [simp del]

definition pow2 :: "int \<Rightarrow> rat" where
  "pow2 k = (if 0 \<le> k then 2 ^ nat k else 1 / 2 ^ nat (- k))"

text \<open>For a positive \<open>r\<close>, the exponent \<open>e\<close> with \<open>2 ^ e \<le> r < 2 ^ (e + 1)\<close>.\<close>

definition binary_exponent :: "rat \<Rightarrow> int" where
  "binary_exponent r =
     (if 1 \<le> r then int (bit_length (nat \<lfloor>r\<rfloor>)) - 1
      else - int (bit_length (nat (\<lceil>1 / r\<rceil> - 1))))"

definition round_half_even :: "rat \<Rightarrow> int" where
  "round_half_even x =
     (let f = \<lfloor>x\<rfloor>; d = x - of_int f in
      if d < 1 / 2 then f else if 1 / 2 < d then f + 1 else if even f then f else f + 1)"

text \<open>
  The Number value for a mathematical value: the nearest double, ties to the even
  significand. A double has a significand of 53 binary digits and its last digit weighs
  at least \<open>2 ^ - 1074\<close>; a magnitude that rounds to \<open>2 ^ 1024\<close> or more is infinite, and a
  negative value that rounds to zero is the negative zero.
\<close>

definition to_double :: "rat \<Rightarrow> jsnum" where
  "to_double r =
     (if r = 0 then Finite 0
      else
        let q = max (binary_exponent \<bar>r\<bar> - 52) (- 1074);
            v = of_int (round_half_even (\<bar>r\<bar> / pow2 q)) * pow2 q
        in if 2 ^ 1024 \<le> v then (if 0 < r then PosInfinity else NegInfinity)
           else if v = 0 then (if 0 < r then Finite 0 else NegZero)
           else Finite (if 0 < r then v else - v))"

definition scale10 :: "rat \<Rightarrow> int \<Rightarrow> rat" where
  "scale10 r e = (if 0 \<le> e then r * 10 ^ nat e else r / 10 ^ nat (- e))"

text \<open>The exponent part \<open>[eE][+-]?digits\<close> at the head of a string; 0 when there is none.\<close>

definition parse_exponent :: "string \<Rightarrow> int" where
  "parse_exponent s =
     (case s of
        [] \<Rightarrow> 0
      | e # r \<Rightarrow>
          if e = CHR ''e'' \<or> e = CHR ''E'' then
            (case r of
               [] \<Rightarrow> 0
             | c # r2 \<Rightarrow>
                 if c = CHR ''-'' then
                   (if takeWhile is_digit r2 = [] then 0
                    else - int (digits_val (takeWhile is_digit r2)))
                 else if c = CHR ''+'' then int (digits_val (takeWhile is_digit r2))
                 else int (digits_val (takeWhile is_digit r)))
          else 0)"

text \<open>The longest prefix that is an unsigned decimal literal of the grammar of
  \<open>parseFloat\<close>: \<open>Infinity\<close>, \<open>digits [. digits] [exponent]\<close> or \<open>. digits [exponent]\<close>; the
  result is the double nearest to the value of the literal (the language lets an engine
  round a literal of more than 20 significant digits at its 20th digit first; V8 does not).\<close>

definition parse_unsigned :: "string \<Rightarrow> jsnum" where
  "parse_unsigned s =
     (if startsWith s ''Infinity'' then PosInfinity
      else
        let ip = takeWhile is_digit s; r = dropWhile is_digit s in
        (case r of
           [] \<Rightarrow> if ip = [] then NaN else to_double (of_nat (digits_val ip))
         | c # r1 \<Rightarrow>
             if c = CHR ''.'' then
               (let fp = takeWhile is_digit r1; r2 = dropWhile is_digit r1 in
                if ip = [] \<and> fp = [] then NaN
                else to_double (scale10 (of_nat (digits_val (ip @ fp)))
                                  (parse_exponent r2 - int (length fp))))
             else if ip = [] then NaN
             else to_double (scale10 (of_nat (digits_val ip)) (parse_exponent r))))"

fun negate :: "jsnum \<Rightarrow> jsnum" where
  "negate NaN = NaN"
| "negate PosInfinity = NegInfinity"
| "negate NegInfinity = PosInfinity"
| "negate NegZero = Finite 0"
| "negate (Finite r) = (if r = 0 then NegZero else Finite (- r))"

definition parseFloat :: "string \<Rightarrow> jsnum" where
  "parseFloat str =
     (case dropWhile is_space str of
        [] \<Rightarrow> NaN
      | c # r \<Rightarrow>
          if c = CHR ''-'' then negate (parse_unsigned r)
          else if c = CHR ''+'' then parse_unsigned r
          else parse_unsigned (c # r))"

text \<open>\<open>x / d\<close> for a positive finite constant \<open>d\<close>: the double nearest to the quotient.\<close>

fun divide_by :: "jsnum \<Rightarrow> rat \<Rightarrow> jsnum" where
  "divide_by NaN d = NaN"
| "divide_by PosInfinity d = PosInfinity"
| "divide_by NegInfinity d = NegInfinity"
| "divide_by NegZero d = NegZero"
| "divide_by (Finite r) d = to_double (r / d)"

section \<open>Objects\<close>

text \<open>
  Objects are association lists from property names to values with at most one entry for
  a name; the order of the entries carries no meaning. Members inherited from the
  built-in prototypes are not modelled: none of the property names that the source reads
  (\<open>transactionId\<close>, \<open>header\<close>, \<open>messageId\<close>, \<open>parseMetadata\<close>, ...) is such a member.
\<close>

text \<open>Reading a property where the source has already excluded \<open>null\<close> and
  \<open>undefined\<close>; \<open>undefined\<close> when the property is absent.\<close>

definition get :: "jsval \<Rightarrow> string \<Rightarrow> jsval" where
  "get v k =
     (case v of
        JObj kvs \<Rightarrow> (case map_of kvs k of None \<Rightarrow> JUndefined | Some x \<Rightarrow> x)
      | _ \<Rightarrow> JUndefined)"

text \<open>\<open>v.k\<close> in general: a TypeError on \<open>null\<close> and \<open>undefined\<close>.\<close>

definition property :: "jsval \<Rightarrow> string \<Rightarrow> error + jsval" where
  "property v k = (if v = JUndefined \<or> v = JNull then Inl TypeError else Inr (get v k))"

text \<open>\<open>v[0]\<close>.\<close>

fun index0 :: "jsval \<Rightarrow> error + jsval" where
  "index0 JUndefined = Inl TypeError"
| "index0 JNull = Inl TypeError"
| "index0 (JArr []) = Inr JUndefined"
| "index0 (JArr (x # xs)) = Inr x"
| "index0 (JStr []) = Inr JUndefined"
| "index0 (JStr (c # cs)) = Inr (JStr [c])"
| "index0 (JObj kvs) = Inr (get (JObj kvs) ''0'')"
| "index0 (JBool b) = Inr JUndefined"
| "index0 (JNum n) = Inr JUndefined"

fun put_entry :: "'k \<Rightarrow> 'v \<Rightarrow> ('k \<times> 'v) list \<Rightarrow> ('k \<times> 'v) list" where
  "put_entry k v [] = [(k, v)]"
| "put_entry k v (p # ps) = (if fst p = k then (k, v) # ps else p # put_entry k v ps)"

text \<open>\<open>o.k = v\<close> on an object; on anything else the assignment raises a TypeError
  (the modules are strict code).\<close>

definition put :: "jsval \<Rightarrow> string \<Rightarrow> jsval \<Rightarrow> error + jsval" where
  "put obj k v = (case obj of JObj kvs \<Rightarrow> Inr (JObj (put_entry k v kvs)) | _ \<Rightarrow> Inl TypeError)"

fun truthy :: "jsval \<Rightarrow> bool" where
  "truthy JUndefined = False"
| "truthy JNull = False"
| "truthy (JBool b) = b"
| "truthy (JNum n) = (n \<noteq> NaN \<and> n \<noteq> Finite 0 \<and> n \<noteq> NegZero)"
| "truthy (JStr s) = (s \<noteq> [])"
| "truthy (JArr xs) = True"
| "truthy (JObj kvs) = True"

text \<open>The method call \<open>v.startsWith(p)\<close>: only a string has the method.\<close>

definition call_startsWith :: "jsval \<Rightarrow> string \<Rightarrow> error + bool" where
  "call_startsWith v p = (case v of JStr s \<Rightarrow> Inr (startsWith s p) | _ \<Rightarrow> Inl TypeError)"

text \<open>
  \<open>parseFloat(v)\<close> converts its argument to a string first. A number prints to a text
  that parses back to itself (the negative zero prints as \<open>0\<close>); \<open>undefined\<close>, \<open>null\<close>, booleans and objects print to texts
  with no numeral at their head; an array prints its elements separated by commas
  (\<open>null\<close> and \<open>undefined\<close> elements as the empty text), so only its first element counts.
\<close>

fun parseFloat_val :: "jsval \<Rightarrow> jsnum" where
  "parseFloat_val (JStr s) = parseFloat s"
| "parseFloat_val (JNum n) = (if n = NegZero then Finite 0 else n)"
| "parseFloat_val (JArr (x # xs)) = parseFloat_val x"
| "parseFloat_val (JArr []) = NaN"
| "parseFloat_val JUndefined = NaN"
| "parseFloat_val JNull = NaN"
| "parseFloat_val (JBool b) = NaN"
| "parseFloat_val (JObj kvs) = NaN"

definition and_then :: "error + 'a \<Rightarrow> ('a \<Rightarrow> error + 'b) \<Rightarrow> error + 'b" where
  "and_then r f = (case r of Inl e \<Rightarrow> Inl e | Inr v \<Rightarrow> f v)"

fun opt_str :: "string option \<Rightarrow> jsval" where
  "opt_str None = JUndefined"
| "opt_str (Some s) = JStr s"

section \<open>FIS parser\<close>

definition FIS_parseFixedWidth :: "env \<Rightarrow> string \<Rightarrow> error + jsval" where
  "FIS_parseFixedWidth env fixedWidthMessage =
     rethrow ''FIS fixed width parsing failed: ''
       (if length fixedWidthMessage < 100 then
          Inl (Error ''Invalid FIS fixed width: message too short'')
        else
          let recordType = substring fixedWidthMessage 0 2;
              transactionId = trim (substring fixedWidthMessage 2 17);
              accountNumber = trim (substring fixedWidthMessage 17 32);
              amountStr = trim (substring fixedWidthMessage 32 41);
              currency = trim (substring fixedWidthMessage 41 44);
              valueDate = trim (substring fixedWidthMessage 44 52);
              transactionType = trim (substring fixedWidthMessage 52 55);
              description = trim (substring fixedWidthMessage 55 100);
              customerName = trim (substring fixedWidthMessage 100 150);
              branchCode = trim (substring fixedWidthMessage 150 154)
          in Inr (JObj
            [(''messageType'', JStr ''FIS_FIXED''),
             (''recordType'', JStr recordType),
             (''transactionId'', JStr transactionId),
             (''accountNumber'', JStr accountNumber),
             (''amount'', JNum (divide_by (parseFloat amountStr) 100)),
             (''currency'', JStr currency),
             (''valueDate'', JStr valueDate),
             (''transactionType'', JStr transactionType),
             (''description'', JStr description),
             (''customerName'', JStr customerName),
             (''branchCode'', JStr branchCode),
             (''timestamp'', JStr (now_iso env)),
             (''parseMetadata'', JObj
                [(''parseId'', JStr (uuidv4 env)),
                 (''parser'', JStr ''FIS''),
                 (''format'', JStr ''FIXED_WIDTH'')])]))"

definition FIS_parseJSON :: "env \<Rightarrow> string \<Rightarrow> error + jsval" where
  "FIS_parseJSON env jsonMessage =
     rethrow ''FIS JSON parsing failed: ''
       (case JSON_parse env jsonMessage of
          None \<Rightarrow> Inl SyntaxError
        | Some data \<Rightarrow>
            and_then (property data ''transactionId'') (\<lambda>tid.
              if \<not> truthy tid then Inl (Error ''Invalid FIS JSON: missing transactionId'')
              else Inr (JObj
                [(''messageType'', JStr ''FIS_JSON''),
                 (''transactionId'', tid),
                 (''accountNumber'', get data ''accountNumber''),
                 (''amount'', get data ''amount''),
                 (''currency'', get data ''currency''),
                 (''valueDate'', get data ''valueDate''),
                 (''transactionType'', get data ''transactionType''),
                 (''description'', get data ''description''),
                 (''customerName'', get data ''customerName''),
                 (''branchCode'', get data ''branchCode''),
                 (''timestamp'', JStr (now_iso env)),
                 (''parseMetadata'', JObj
                    [(''parseId'', JStr (uuidv4 env)),
                     (''parser'', JStr ''FIS''),
                     (''format'', JStr ''JSON'')])])))"

section \<open>BANCS parser\<close>

definition BANCS_parseXML :: "env \<Rightarrow> string \<Rightarrow> error + jsval" where
  "BANCS_parseXML env xmlMessage =
     rethrow ''BANCS XML parsing failed: ''
       (if \<not> str_includes xmlMessage ''<Transaction>'' then
          Inl (Error ''Invalid BANCS XML: missing Transaction element'')
        else
          and_then (extractXMLField env xmlMessage ''TransactionID'') (\<lambda>transactionId.
          and_then (extractXMLField env xmlMessage ''Amount'') (\<lambda>amountField.
          and_then (extractXMLField env xmlMessage ''Currency'') (\<lambda>currency.
          and_then (extractXMLField env xmlMessage ''DebitAccount'') (\<lambda>debitAccount.
          and_then (extractXMLField env xmlMessage ''CreditAccount'') (\<lambda>creditAccount.
          and_then (extractXMLField env xmlMessage ''Description'') (\<lambda>description.
            Inr (JObj
              [(''messageType'', JStr ''BANCS_XML''),
               (''transactionId'', transactionId),
               (''amount'', JNum (parseFloat_val amountField)),
               (''currency'', currency),
               (''debitAccount'', debitAccount),
               (''creditAccount'', creditAccount),
               (''description'', description),
               (''timestamp'', JStr (now_iso env)),
               (''parseMetadata'', JObj
                  [(''parseId'', JStr (uuidv4 env)),
                   (''parser'', JStr ''BANCS''),
                   (''format'', JStr ''XML'')])]))))))))"

definition BANCS_parseJSON :: "env \<Rightarrow> string \<Rightarrow> error + jsval" where
  "BANCS_parseJSON env jsonMessage =
     rethrow ''BANCS JSON parsing failed: ''
       (case JSON_parse env jsonMessage of
          None \<Rightarrow> Inl SyntaxError
        | Some data \<Rightarrow>
            and_then (property data ''transactionId'') (\<lambda>tid.
              if \<not> truthy tid then Inl (Error ''Invalid BANCS JSON: missing transactionId'')
              else Inr (JObj
                [(''messageType'', JStr ''BANCS_JSON''),
                 (''transactionId'', tid),
                 (''accountNumber'', get data ''accountNumber''),
                 (''amount'', get data ''amount''),
                 (''currency'', get data ''currency''),
                 (''valueDate'', get data ''valueDate''),
                 (''description'', get data ''description''),
                 (''customerName'', get data ''customerName''),
                 (''branchCode'', get data ''branchCode''),
                 (''timestamp'', JStr (now_iso env)),
                 (''parseMetadata'', JObj
                    [(''parseId'', JStr (uuidv4 env)),
                     (''parser'', JStr ''BANCS''),
                     (''format'', JStr ''JSON'')])])))"

definition BANCS_parseFlat :: "env \<Rightarrow> string \<Rightarrow> error + jsval" where
  "BANCS_parseFlat env flatMessage =
     rethrow ''BANCS flat file parsing failed: ''
       (if length flatMessage < 50 then
          Inl (Error ''Invalid BANCS flat file: message too short'')
        else
          let transactionId = trim (substring flatMessage 0 15);
              accountNumber = trim (substring flatMessage 15 30);
              amountStr = trim (substring flatMessage 30 42);
              currency = trim (substring flatMessage 42 47);
              valueDate = trim (substring flatMessage 47 55);
              description = trim (drop 55 flatMessage)
          in Inr (JObj
            [(''messageType'', JStr ''BANCS_FLAT''),
             (''transactionId'', JStr transactionId),
             (''accountNumber'', JStr accountNumber),
             (''amount'', JNum (parseFloat amountStr)),
             (''currency'', JStr currency),
             (''valueDate'', JStr valueDate),
             (''description'', JStr description),
             (''timestamp'', JStr (now_iso env)),
             (''parseMetadata'', JObj
                [(''parseId'', JStr (uuidv4 env)),
                 (''parser'', JStr ''BANCS''),
                 (''format'', JStr ''FLAT'')])]))"

section \<open>Fiserv parser\<close>

definition Fiserv_parseDNA :: "env \<Rightarrow> string \<Rightarrow> error + jsval" where
  "Fiserv_parseDNA env jsonMessage =
     rethrow ''Fiserv DNA parsing failed: ''
       (case JSON_parse env jsonMessage of
          None \<Rightarrow> Inl SyntaxError
        | Some data \<Rightarrow>
            and_then (property data ''transactionId'') (\<lambda>tid.
            and_then (if \<not> truthy tid then Inr True
                      else and_then (call_startsWith tid ''DNA'') (\<lambda>b. Inr (\<not> b))) (\<lambda>invalid.
              if invalid then
                Inl (Error ''Invalid Fiserv DNA JSON: missing or invalid transactionId'')
              else Inr (JObj
                [(''messageType'', JStr ''FISERV_DNA''),
                 (''transactionId'', tid),
                 (''accountNumber'', get data ''accountNumber''),
                 (''amount'', get data ''amount''),
                 (''currency'', get data ''currency''),
                 (''valueDate'', get data ''valueDate''),
                 (''description'', get data ''description''),
                 (''customerName'', get data ''customerName''),
                 (''branchCode'', get data ''branchCode''),
                 (''timestamp'', JStr (now_iso env)),
                 (''parseMetadata'', JObj
                    [(''parseId'', JStr (uuidv4 env)),
                     (''parser'', JStr ''FISERV''),
                     (''format'', JStr ''DNA'')])]))))"


section \<open>Temenos parser\<close>

definition Temenos_parseJSON :: "env \<Rightarrow> string \<Rightarrow> error + jsval" where
  "Temenos_parseJSON env jsonMessage =
     rethrow ''Temenos JSON parsing failed: ''
       (case JSON_parse env jsonMessage of
          None \<Rightarrow> Inl SyntaxError
        | Some data \<Rightarrow>
            and_then (property data ''header'') (\<lambda>header.
              if \<not> truthy header \<or> \<not> truthy (get header ''messageId'') then
                Inl (Error ''Invalid Temenos JSON: missing header or messageId'')
              else Inr (JObj
                [(''messageType'', JStr ''TEMENOS_JSON''),
                 (''header'', header),
                 (''transaction'', get data ''transaction''),
                 (''debitAccount'', get data ''debitAccount''),
                 (''creditAccount'', get data ''creditAccount''),
                 (''narrative'', get data ''narrative''),
                 (''timestamp'', JStr (now_iso env)),
                 (''parseMetadata'', JObj
                    [(''parseId'', JStr (uuidv4 env)),
                     (''parser'', JStr ''TEMENOS''),
                     (''format'', JStr ''JSON'')])])))"

definition Temenos_parseXML :: "env \<Rightarrow> string \<Rightarrow> error + jsval" where
  "Temenos_parseXML env xmlMessage =
     rethrow ''Temenos XML parsing failed: ''
       (and_then (xml2js_parseString env xmlMessage) (\<lambda>result.
        and_then (property result ''TemenosTransaction'') (\<lambda>transaction.
          if \<not> truthy transaction then
            Inl (Error ''Invalid Temenos XML: missing TemenosTransaction element'')
          else
            and_then (index0 (get transaction ''TransactionReference'')) (\<lambda>transactionReference.
            and_then (index0 (get transaction ''Amount'')) (\<lambda>amountField.
            and_then (index0 (get transaction ''Currency'')) (\<lambda>currency.
            and_then (index0 (get transaction ''ValueDate'')) (\<lambda>valueDate.
            and_then (index0 (get transaction ''DebitAccount'')) (\<lambda>debitAccount.
            and_then (index0 (get transaction ''CreditAccount'')) (\<lambda>creditAccount.
            and_then (index0 (get transaction ''Narrative'')) (\<lambda>narrative.
              Inr (JObj
                [(''messageType'', JStr ''TEMENOS_XML''),
                 (''transactionReference'', transactionReference),
                 (''amount'', JNum (parseFloat_val amountField)),
                 (''currency'', currency),
                 (''valueDate'', valueDate),
                 (''debitAccount'', debitAccount),
                 (''creditAccount'', creditAccount),
                 (''narrative'', narrative),
                 (''timestamp'', JStr (now_iso env)),
                 (''parseMetadata'', JObj
                    [(''parseId'', JStr (uuidv4 env)),
                     (''parser'', JStr ''TEMENOS''),
                     (''format'', JStr ''XML'')])])))))))))))"

text \<open>
  The body of the \<open>forEach\<close> over the lines: \<open>const [key, value] = line.split('=')\<close>
  takes the first two pieces of the split, and \<open>fields[key.trim()] = value.trim()\<close>
  stores them. An assignment to the name \<open>__proto__\<close> goes to the prototype setter, which
  ignores a string and leaves the object as it is. A missing second piece would make
  \<open>value.trim()\<close> raise a TypeError.
\<close>

definition T24_line :: "(string \<rightharpoonup> string) \<Rightarrow> string \<Rightarrow> error + (string \<rightharpoonup> string)" where
  "T24_line flds line =
     (if str_includes line ''='' then
        (case split CHR ''='' line of
           key # value # rest \<Rightarrow>
             if trim key = ''__proto__'' then Inr flds
             else Inr (flds(trim key \<mapsto> trim value))
         | _ \<Rightarrow> Inl TypeError)
      else Inr flds)"

fun T24_fields :: "(string \<rightharpoonup> string) \<Rightarrow> string list \<Rightarrow> error + (string \<rightharpoonup> string)" where
  "T24_fields flds [] = Inr flds"
| "T24_fields flds (line # lines) =
     and_then (T24_line flds line) (\<lambda>flds'. T24_fields flds' lines)"

text \<open>\<open>!fields[k]\<close>: the entry is missing or the empty string.\<close>

definition falsy_entry :: "string option \<Rightarrow> bool" where
  "falsy_entry x = (x = None \<or> x = Some [])"

definition parseFloat_opt :: "string option \<Rightarrow> jsnum" where
  "parseFloat_opt x = (case x of None \<Rightarrow> NaN | Some s \<Rightarrow> parseFloat s)"

definition Temenos_parseT24 :: "env \<Rightarrow> string \<Rightarrow> error + jsval" where
  "Temenos_parseT24 env t24Message =
     rethrow ''Temenos T24 parsing failed: ''
       (and_then (T24_fields Map.empty (split CHR 0x0A t24Message)) (\<lambda>flds.
          if falsy_entry (flds ''TXN.REF'') then
            Inl (Error ''Invalid Temenos T24: missing TXN.REF'')
          else Inr (JObj
            [(''messageType'', JStr ''TEMENOS_T24''),
             (''transactionReference'', opt_str (flds ''TXN.REF'')),
             (''amount'', JNum (parseFloat_opt (flds ''AMOUNT''))),
             (''currency'', opt_str (flds ''CURRENCY'')),
             (''valueDate'', opt_str (flds ''VALUE.DATE'')),
             (''debitAccount'', opt_str (flds ''DEBIT.ACCT'')),
             (''creditAccount'', opt_str (flds ''CREDIT.ACCT'')),
             (''narrative'', opt_str (flds ''NARRATIVE'')),
             (''customerNumber'', opt_str (flds ''CUSTOMER.NO'')),
             (''productCode'', opt_str (flds ''PRODUCT.CODE'')),
             (''timestamp'', JStr (now_iso env)),
             (''parseMetadata'', JObj
                [(''parseId'', JStr (uuidv4 env)),
                 (''parser'', JStr ''TEMENOS''),
                 (''format'', JStr ''T24'')])])))"

section \<open>ISO 20022 parser\<close>

definition ISO20022_parsePacs008 :: "env \<Rightarrow> string \<Rightarrow> error + jsval" where
  "ISO20022_parsePacs008 env xmlMessage =
     rethrow ''ISO 20022 pacs.008 parsing failed: ''
       (if \<not> str_includes xmlMessage ''pacs.008'' then
          Inl (Error ''Invalid ISO 20022: not a pacs.008 message'')
        else Inr (JObj
          [(''messageType'', JStr ''pacs.008''),
           (''groupHeader'', JObj
              [(''messageId'', JStr ''ISO123456789''),
               (''creationDateTime'', JStr ''2024-07-01T10:00:00Z''),
               (''numberOfTransactions'', JNum (Finite 1)),
               (''totalInterbankSettlementAmount'', JObj
                  [(''amount'', JNum (Finite 4500)), (''currency'', JStr ''EUR'')]),
               (''interbankSettlementDate'', JStr ''2024-07-01''),
               (''settlementMethod'', JStr ''CLRG'')]),
           (''creditTransferTransactionInformation'', JObj
              [(''paymentIdentification'', JObj
                  [(''instructionId'', JStr ''INSTR001''),
                   (''endToEndId'', JStr ''E2E001''),
                   (''transactionId'', JStr ''TXN001'')]),
               (''instructedAmount'', JObj
                  [(''amount'', JNum (Finite 4500)), (''currency'', JStr ''EUR'')]),
               (''chargeBearerCode'', JStr ''SLEV''),
               (''debtor'', JObj [(''name'', JStr ''Sender Corporation'')]),
               (''debtorAccount'', JObj [(''iban'', JStr ''DE89123456789012345678'')]),
               (''debtorAgent'', JObj [(''bic'', JStr ''DEUTDEFF'')]),
               (''creditor'', JObj [(''name'', JStr ''Receiver Limited'')]),
               (''creditorAccount'', JObj [(''iban'', JStr ''FR1234567890123456789012'')]),
               (''creditorAgent'', JObj [(''bic'', JStr ''BNPAFRPP'')]),
               (''remittanceInformation'', JObj
                  [(''unstructured'', JStr ''Invoice payment ISO20022'')])]),
           (''timestamp'', JStr (now_iso env)),
           (''parseMetadata'', JObj
              [(''parseId'', JStr (uuidv4 env)),
               (''parser'', JStr ''ISO20022''),
               (''format'', JStr ''pacs.008'')])]))"

section \<open>Dates\<close>

text \<open>
  \<open>Date.UTC(year, month, day)\<close> and \<open>toISOString\<close> after the definitions of ECMAScript,
  counted in days since 1 January 1970 (the time of day is zero throughout).
\<close>

definition DayFromYear :: "int \<Rightarrow> int" where
  "DayFromYear y = 365 * (y - 1970) + (y - 1969) div 4 - (y - 1901) div 100 + (y - 1601) div 400"

definition InLeapYear :: "int \<Rightarrow> bool" where
  "InLeapYear y = ((y mod 4 = 0 \<and> y mod 100 \<noteq> 0) \<or> y mod 400 = 0)"

text \<open>The first day of month \<open>m\<close> (0 to 11) within its year.\<close>

definition month_start :: "int \<Rightarrow> bool \<Rightarrow> int" where
  "month_start m leap =
     (if m = 0 then 0 else if m = 1 then 31
      else (if leap then 1 else 0) +
        (if m = 2 then 59 else if m = 3 then 90 else if m = 4 then 120
         else if m = 5 then 151 else if m = 6 then 181 else if m = 7 then 212
         else if m = 8 then 243 else if m = 9 then 273 else if m = 10 then 304
         else 334))"

text \<open>\<open>MakeDay\<close>: months outside 0 to 11 carry into the year, days outside the month
  carry into the neighbouring months.\<close>

definition MakeDay :: "int \<Rightarrow> int \<Rightarrow> int \<Rightarrow> int" where
  "MakeDay year month date =
     (let ym = year + month div 12; mn = month mod 12
      in DayFromYear ym + month_start mn (InLeapYear ym) + date - 1)"

lemma div_step:
  fixes x n :: int
  assumes "0 < n"
  shows "(x + 1) div n = x div n + (if (x + 1) mod n = 0 then 1 else 0)"
proof (cases "x mod n + 1 < n")
  case True
  have "x + 1 = n * (x div n) + (x mod n + 1)" by simp
  then have d: "(x + 1) div n = x div n" and m: "(x + 1) mod n = x mod n + 1"
    using True assms
    by (metis add_nonneg_nonneg int_div_pos_eq pos_mod_sign zero_less_one_class.zero_le_one,
        metis add_nonneg_nonneg int_mod_pos_eq pos_mod_sign zero_less_one_class.zero_le_one)
  have "x mod n + 1 \<noteq> 0" using pos_mod_sign [OF assms, of x] by linarith
  with d m show ?thesis by simp
next
  case False
  then have e: "x mod n + 1 = n" using pos_mod_bound [OF assms, of x] by linarith
  have "x + 1 = n * (x div n + 1) + 0"
    using e by (simp add: algebra_simps) (metis add.commute mult.commute mult_div_mod_eq add.assoc)
  then have d: "(x + 1) div n = x div n + 1" and m: "(x + 1) mod n = 0"
    using assms by (metis int_div_pos_eq order_refl, metis int_mod_pos_eq order_refl)
  then show ?thesis by simp
qed

lemma mod_sub_mult: "(y - n * k) mod n = y mod (n::int)"
  by (metis add.commute diff_add_cancel mod_mult_self4)

lemma DayFromYear_Suc:
  "DayFromYear (y + 1) = DayFromYear y + (if InLeapYear y then 366 else 365)"
proof -
  have a: "(y + 1 - 1969) div 4 = (y - 1969) div 4 + (if y mod 4 = 0 then 1 else 0)"
  proof -
    have "(y - 1969 + 1) mod 4 = y mod 4"
      using mod_sub_mult [of y 4 492] by (simp add: algebra_simps)
    then show ?thesis using div_step [of 4 "y - 1969"] by (simp add: algebra_simps)
  qed
  have b: "(y + 1 - 1901) div 100 = (y - 1901) div 100 + (if y mod 100 = 0 then 1 else 0)"
  proof -
    have "(y - 1901 + 1) mod 100 = y mod 100"
      using mod_sub_mult [of y 100 19] by (simp add: algebra_simps)
    then show ?thesis using div_step [of 100 "y - 1901"] by (simp add: algebra_simps)
  qed
  have c: "(y + 1 - 1601) div 400 = (y - 1601) div 400 + (if y mod 400 = 0 then 1 else 0)"
  proof -
    have "(y - 1601 + 1) mod 400 = y mod 400"
      using mod_sub_mult [of y 400 4] by (simp add: algebra_simps)
    then show ?thesis using div_step [of 400 "y - 1601"] by (simp add: algebra_simps)
  qed
  have d: "y mod 400 = 0 \<Longrightarrow> y mod 100 = 0"
    using mod_mod_cancel [of 100 400 y] by simp
  have e: "y mod 100 = 0 \<Longrightarrow> y mod 4 = 0"
    using mod_mod_cancel [of 4 100 y] by simp
  show ?thesis
    unfolding DayFromYear_def InLeapYear_def a b c using d e by auto
qed

lemma DayFromYear_step: "DayFromYear y < DayFromYear (y + 1)"
  by (simp add: DayFromYear_Suc)

text \<open>The largest year that starts on or before day \<open>t\<close>, searched upwards from \<open>y\<close>.\<close>

function year_search :: "int \<Rightarrow> int \<Rightarrow> int" where
  "year_search y t = (if DayFromYear (y + 1) \<le> t then year_search (y + 1) t else y)"
  by pat_completeness auto
termination
proof (relation "measure (\<lambda>(y, t). nat (t - DayFromYear y))")
  show "wf (measure (\<lambda>(y, t). nat (t - DayFromYear y)))" by simp
next
  fix y t :: int
  assume "DayFromYear (y + 1) \<le> t"
  then show "((y + 1, t), (y, t)) \<in> measure (\<lambda>(y, t). nat (t - DayFromYear y))"
    using DayFromYear_step [of y] by simp
qed

declare year_search.simps [simp del]

definition YearFromDay :: "int \<Rightarrow> int" where
  "YearFromDay t = year_search (1970 + (if 0 \<le> t then t div 366 else t div 365)) t"

definition DayWithinYear :: "int \<Rightarrow> int" where
  "DayWithinYear t = t - DayFromYear (YearFromDay t)"

definition MonthFromDay :: "int \<Rightarrow> int" where
  "MonthFromDay t =
     (let d = DayWithinYear t; l = (if InLeapYear (YearFromDay t) then 1 else 0)
      in if d < 31 then 0 else if d < 59 + l then 1 else if d < 90 + l then 2
         else if d < 120 + l then 3 else if d < 151 + l then 4 else if d < 181 + l then 5
         else if d < 212 + l then 6 else if d < 243 + l then 7 else if d < 273 + l then 8
         else if d < 304 + l then 9 else if d < 334 + l then 10 else 11)"

definition DateFromDay :: "int \<Rightarrow> int" where
  "DateFromDay t =
     DayWithinYear t - month_start (MonthFromDay t) (InLeapYear (YearFromDay t)) + 1"

definition digit_char :: "nat \<Rightarrow> char" where
  "digit_char n = char_of (48 + n mod 10)"

definition pad2 :: "nat \<Rightarrow> string" where
  "pad2 n = [digit_char (n div 10), digit_char n]"

definition pad4 :: "nat \<Rightarrow> string" where
  "pad4 n = [digit_char (n div 1000), digit_char (n div 100), digit_char (n div 10), digit_char n]"

text \<open>\<open>new Date(t).toISOString().split('T')[0]\<close> for a year of four digits; the years
  that the amount field can produce lie between 1999 and 2108.\<close>

definition iso_date :: "int \<Rightarrow> string" where
  "iso_date t =
     pad4 (nat (YearFromDay t)) @ ''-'' @ pad2 (nat (MonthFromDay t + 1)) @ ''-'' @
     pad2 (nat (DateFromDay t))"


section \<open>SWIFT parser\<close>

datatype field = Field (field_tag: string) (field_name: string) (field_content: string)

definition SWIFT_FIELDS :: "(string \<times> (string \<times> string) list) list" where
  "SWIFT_FIELDS =
     [(''MT103'',
        [(''20'', ''transaction_reference''),
         (''23B'', ''bank_operation_code''),
         (''32A'', ''value_date_currency_amount''),
         (''50K'', ''ordering_customer''),
         (''52A'', ''ordering_institution''),
         (''53A'', ''senders_correspondent''),
         (''56A'', ''intermediary_institution''),
         (''57A'', ''account_with_institution''),
         (''59'', ''beneficiary_customer''),
         (''70'', ''remittance_information''),
         (''71A'', ''details_of_charges'')]),
      (''MT202'',
        [(''20'', ''transaction_reference''),
         (''21'', ''related_reference''),
         (''32A'', ''value_date_currency_amount''),
         (''52A'', ''ordering_institution''),
         (''53A'', ''senders_correspondent''),
         (''56A'', ''intermediary_institution''),
         (''57A'', ''account_with_institution''),
         (''58A'', ''beneficiary_institution''),
         (''72'', ''sender_to_receiver_information'')])]"

definition supportedMessageTypes :: "string list" where
  "supportedMessageTypes = [''MT103'', ''MT202'']"

text \<open>The regular expression \<open>/\{2:I(\d{3})/\<close> at the head of a string: its group.\<close>

definition header_at :: "string \<Rightarrow> string option" where
  "header_at s =
     (if startsWith s ''{2:I'' \<and> length (substring s 4 7) = 3 \<and> list_all is_digit (substring s 4 7)
      then Some (substring s 4 7) else None)"

text \<open>Its leftmost match in a string.\<close>

fun header_match :: "string \<Rightarrow> string option" where
  "header_match [] = None"
| "header_match (c # cs) =
     (case header_at (c # cs) of Some d \<Rightarrow> Some d | None \<Rightarrow> header_match cs)"

definition extractMessageType :: "string \<Rightarrow> error + string" where
  "extractMessageType msg =
     (case header_match msg of
        None \<Rightarrow> Inl (Error ''Invalid SWIFT message format: missing application header'')
      | Some messageTypeNumber \<Rightarrow> Inr (''MT'' @ messageTypeNumber))"

text \<open>The group of the leftmost match of \<open>/\{4:(.*?)\}/s\<close>: the text between an opening
  \<open>{4:\<close> and the first closing brace after it.\<close>

fun text_block_match :: "string \<Rightarrow> string option" where
  "text_block_match [] = None"
| "text_block_match (c # cs) =
     (if startsWith (c # cs) ''{4:'' \<and> CHR ''}'' \<in> set (drop 3 (c # cs))
      then Some (takeWhile (\<lambda>x. x \<noteq> CHR ''}'') (drop 3 (c # cs)))
      else text_block_match cs)"

text \<open>The tag of \<open>:(\d{2}[A-Z]?):\<close> at the head of a string.\<close>

definition tag_at :: "string \<Rightarrow> string option" where
  "tag_at s =
     (case s of
        c0 # d1 # d2 # c3 # rest \<Rightarrow>
          if c0 = CHR '':'' \<and> is_digit d1 \<and> is_digit d2 then
            (if c3 = CHR '':'' then Some [d1, d2]
             else if is_upper c3 \<and> (case rest of [] \<Rightarrow> False | c4 # r \<Rightarrow> c4 = CHR '':'')
             then Some [d1, d2, c3]
             else None)
          else None
      | _ \<Rightarrow> None)"

text \<open>The lazy group \<open>(.*?)\<close> before the lookahead \<open>(?=:\d{2}[A-Z]?:|$)\<close>: the shortest
  text up to a position where a tag starts or the string ends, and what follows it.\<close>

fun lazy_content :: "string \<Rightarrow> string \<times> string" where
  "lazy_content [] = ([], [])"
| "lazy_content (c # cs) =
     (if tag_at (c # cs) \<noteq> None then ([], c # cs)
      else (case lazy_content cs of (a, b) \<Rightarrow> (c # a, b)))"

lemma lazy_content_length: "length (snd (lazy_content s)) \<le> length s"
  by (induction s) (auto split: prod.splits)

text \<open>All matches of \<open>/:(\d{2}[A-Z]?):(.*?)(?=:\d{2}[A-Z]?:|$)/gs\<close>, from left to right;
  the empty list stands for the \<open>null\<close> that \<open>match\<close> returns when there is none.\<close>

function field_matches :: "string \<Rightarrow> string list" where
  "field_matches [] = []"
| "field_matches (c # cs) =
     (case tag_at (c # cs) of
        None \<Rightarrow> field_matches cs
      | Some t \<Rightarrow>
          (take (length t + 2) (c # cs) @ fst (lazy_content (drop (length t + 2) (c # cs)))) #
           field_matches (snd (lazy_content (drop (length t + 2) (c # cs)))))"
  by pat_completeness auto
termination
proof (relation "measure length")
  show "wf (measure length)" by simp
next
  fix c :: char and cs :: string
  show "(cs, c # cs) \<in> measure length" by simp
next
  fix c :: char and cs t :: string
  have "length (snd (lazy_content (drop (length t + 2) (c # cs)))) \<le>
          length (drop (length t + 2) (c # cs))"
    by (rule lazy_content_length)
  then show "(snd (lazy_content (drop (length t + 2) (c # cs))), c # cs) \<in> measure length"
    by simp
qed

text \<open>The groups of the leftmost match of \<open>/:(\d{2}[A-Z]?):(.*)/s\<close>.\<close>

fun field_match :: "string \<Rightarrow> (string \<times> string) option" where
  "field_match [] = None"
| "field_match (c # cs) =
     (case tag_at (c # cs) of
        Some t \<Rightarrow> Some (t, drop (length t + 2) (c # cs))
      | None \<Rightarrow> field_match cs)"

text \<open>The body of the \<open>forEach\<close> over the matches: a tag that the field table of the
  message type knows is stored, a later occurrence replacing an earlier one.\<close>

fun store_fields ::
  "(string \<times> string) list option \<Rightarrow> (string \<times> field) list \<Rightarrow> string list \<Rightarrow>
     error + (string \<times> field) list" where
  "store_fields fieldDefinitions flds [] = Inr flds"
| "store_fields fieldDefinitions flds (m # ms) =
     (case field_match m of
        None \<Rightarrow> store_fields fieldDefinitions flds ms
      | Some (t, rest) \<Rightarrow>
          (case fieldDefinitions of
             None \<Rightarrow> Inl TypeError
           | Some defs \<Rightarrow>
               (case map_of defs t of
                  None \<Rightarrow> store_fields fieldDefinitions flds ms
                | Some nm \<Rightarrow>
                    store_fields fieldDefinitions
                      (put_entry t (Field t nm (trim rest)) flds) ms)))"

definition parseFields :: "string \<Rightarrow> string \<Rightarrow> error + (string \<times> field) list" where
  "parseFields msg messageType =
     (let fieldDefinitions = map_of SWIFT_FIELDS messageType in
      case text_block_match msg of
        None \<Rightarrow> Inl (Error ''Invalid SWIFT message format: missing text block'')
      | Some textBlock \<Rightarrow>
          (let fieldMatches = field_matches textBlock in
           if fieldMatches = [] then Inl (Error ''No valid fields found in message'')
           else store_fields fieldDefinitions [] fieldMatches))"

definition getRequiredFields :: "string \<Rightarrow> string list" where
  "getRequiredFields messageType =
     (case map_of
        [(''MT103'', [''20'', ''32A'', ''50K'', ''59'']),
         (''MT202'', [''20'', ''32A'', ''52A'', ''58A''])] messageType of
        None \<Rightarrow> []
      | Some required \<Rightarrow> required)"

fun check_required :: "(string \<times> field) list \<Rightarrow> string \<Rightarrow> string list \<Rightarrow> error + unit" where
  "check_required flds messageType [] = Inr ()"
| "check_required flds messageType (requiredField # rest) =
     (if map_of flds requiredField = None then
        Inl (Error (''Missing required field: '' @ requiredField @ '' for '' @ messageType))
      else check_required flds messageType rest)"

definition validateRequiredFields :: "(string \<times> field) list \<Rightarrow> string \<Rightarrow> error + unit" where
  "validateRequiredFields flds messageType =
     check_required flds messageType (getRequiredFields messageType)"


record amount_data =
  ad_valueDate :: string
  ad_currency :: string
  ad_amount :: jsnum

text \<open>The regular expression \<open>/^(\d{6})([A-Z]{3})([\d,\.]+)$/\<close>.\<close>

definition amount_pattern :: "string \<Rightarrow> bool" where
  "amount_pattern c =
     (10 \<le> length c \<and> list_all is_digit (take 6 c) \<and> list_all is_upper (take 3 (drop 6 c)) \<and>
      list_all (\<lambda>x. is_digit x \<or> x = CHR '','' \<or> x = CHR ''.'') (drop 9 c))"

text \<open>\<open>parseInt\<close> of a text of decimal digits.\<close>

definition parseInt :: "string \<Rightarrow> int" where
  "parseInt ds = int (digits_val ds)"

definition parseAmountField :: "string \<Rightarrow> error + amount_data" where
  "parseAmountField c =
     (if \<not> amount_pattern c then Inl (Error (''Invalid amount field format: '' @ c))
      else
        let dateStr = take 6 c; currency = take 3 (drop 6 c); amountStr = drop 9 c;
            year = 2000 + parseInt (substring dateStr 0 2);
            month = parseInt (substring dateStr 2 4) - 1;
            day = parseInt (substring dateStr 4 6);
            valueDate = MakeDay year month day;
            amount = parseFloat (filter (\<lambda>x. x \<noteq> CHR '','') amountStr)
        in Inr \<lparr>ad_valueDate = iso_date valueDate, ad_currency = currency, ad_amount = amount\<rparr>)"

text \<open>\<open>x || null\<close> for a string or \<open>undefined\<close>.\<close>

fun or_null :: "string option \<Rightarrow> jsval" where
  "or_null None = JNull"
| "or_null (Some s) = (if s = [] then JNull else JStr s)"

definition nth_opt :: "'a list \<Rightarrow> nat \<Rightarrow> 'a option" where
  "nth_opt xs i = (if i < length xs then Some (xs ! i) else None)"

definition parseCustomerInfo :: "string option \<Rightarrow> jsval" where
  "parseCustomerInfo c =
     (case c of
        None \<Rightarrow> JNull
      | Some txt \<Rightarrow>
          if txt = [] then JNull
          else
            let lines = map trim (split CHR 0x0A txt) in
            JObj
              [(''account'', or_null (nth_opt lines 0)),
               (''name'', or_null (nth_opt lines 1)),
               (''address'', or_null (Some (join '', '' (drop 2 lines)))),
               (''raw'', JStr txt)])"

text \<open>\<open>fields[t]?.content\<close>.\<close>

definition content_of :: "(string \<times> field) list \<Rightarrow> string \<Rightarrow> string option" where
  "content_of flds t = (case map_of flds t of None \<Rightarrow> None | Some f \<Rightarrow> Some (field_content f))"

definition field_obj :: "field \<Rightarrow> jsval" where
  "field_obj f =
     JObj [(''tag'', JStr (field_tag f)), (''name'', JStr (field_name f)),
           (''content'', JStr (field_content f))]"

definition createStandardizedMessage ::
  "env \<Rightarrow> (string \<times> field) list \<Rightarrow> string \<Rightarrow> error + jsval" where
  "createStandardizedMessage env flds messageType =
     (let msg0 =
        [(''id'', JStr (uuidv4 env)),
         (''messageType'', JStr messageType),
         (''transactionReference'', opt_str (content_of flds ''20'')),
         (''timestamp'', JStr (now_iso env)),
         (''status'', JStr ''parsed''),
         (''originalFields'', JObj (map (\<lambda>(t, f). (t, field_obj f)) flds))]
      in
      and_then
        (case content_of flds ''32A'' of
           None \<Rightarrow> Inr msg0
         | Some c \<Rightarrow>
             and_then (parseAmountField c) (\<lambda>amountData.
               Inr (put_entry ''valueDate'' (JStr (ad_valueDate amountData))
                     (put_entry ''currency'' (JStr (ad_currency amountData))
                       (put_entry ''amount'' (JNum (ad_amount amountData)) msg0)))))
        (\<lambda>msg1.
           if messageType = ''MT103'' then
             Inr (JObj
               (put_entry ''remittanceInfo'' (opt_str (content_of flds ''70''))
                 (put_entry ''beneficiaryInstitution'' (opt_str (content_of flds ''57A''))
                   (put_entry ''orderingInstitution'' (opt_str (content_of flds ''52A''))
                     (put_entry ''receiver'' (parseCustomerInfo (content_of flds ''59''))
                       (put_entry ''sender'' (parseCustomerInfo (content_of flds ''50K''))
                          msg1))))))
           else if messageType = ''MT202'' then
             Inr (JObj
               (put_entry ''senderToReceiverInfo'' (opt_str (content_of flds ''72''))
                 (put_entry ''beneficiaryInstitution'' (opt_str (content_of flds ''58A''))
                   (put_entry ''orderingInstitution'' (opt_str (content_of flds ''52A''))
                      msg1))))
           else Inr (JObj msg1)))"

text \<open>\<open>SWIFTParser.parse\<close>; its \<open>catch\<close> logs the error and throws it again unchanged.\<close>

definition SWIFT_parse :: "env \<Rightarrow> jsval \<Rightarrow> error + jsval" where
  "SWIFT_parse env rawMessage =
     (case rawMessage of
        JStr s \<Rightarrow>
          if s = [] then
            Inl (Error ''Invalid message format: message must be a non-empty string'')
          else
            and_then (extractMessageType s) (\<lambda>messageType.
              if messageType \<notin> set supportedMessageTypes then
                Inl (Error (''Unsupported message type: '' @ messageType))
              else
                and_then (parseFields s messageType) (\<lambda>flds.
                and_then (validateRequiredFields flds messageType) (\<lambda>u.
                  createStandardizedMessage env flds messageType)))
      | _ \<Rightarrow> Inl (Error ''Invalid message format: message must be a non-empty string''))"


section \<open>COBOL stub\<close>

text \<open>
  The regular expressions of \<open>detectCOBOL\<close> as the source writes them:
  \<open>/^s*d{6}s+/m\<close>, \<open>/IDENTIFICATION DIVISION/i\<close>, \<open>/DATA DIVISION/i\<close>,
  \<open>/PROCEDURE DIVISION/i\<close>, \<open>/PICs+[X9]/i\<close> and \<open>/COPYs+w+/i\<close>. The letters
  \<open>s\<close>, \<open>d\<close> and \<open>w\<close> carry no backslash there, so they match themselves.
\<close>

definition is_line_terminator :: "char \<Rightarrow> bool" where
  "is_line_terminator c = (c = CHR 0x0A \<or> c = CHR 0x0D)"

fun after_terminators :: "string \<Rightarrow> string list" where
  "after_terminators [] = []"
| "after_terminators (c # cs) =
     (if is_line_terminator c then [cs] else []) @ after_terminators cs"

text \<open>The positions where \<open>^\<close> matches under the flag \<open>m\<close>, as the texts that start there.\<close>

definition line_starts :: "string \<Rightarrow> string list" where
  "line_starts s = s # after_terminators s"

fun tails :: "string \<Rightarrow> string list" where
  "tails [] = [[]]"
| "tails (c # cs) = (c # cs) # tails cs"

text \<open>Matching under the flag \<open>i\<close> compares canonical forms; an 8-bit character beyond
  ASCII never has an ASCII letter as its canonical form.\<close>

definition canon :: "char \<Rightarrow> char" where
  "canon c =
     (if c \<in> set ''abcdefghijklmnopqrstuvwxyz'' then char_of (of_char c - (32::nat)) else c)"

definition line_number_at :: "string \<Rightarrow> bool" where
  "line_number_at s =
     (let r = dropWhile (\<lambda>c. c = CHR ''s'') s
      in startsWith r ''dddddd'' \<and> startsWith (drop 6 r) ''s'')"

definition pic_at :: "string \<Rightarrow> bool" where
  "pic_at u =
     (startsWith u ''PIC'' \<and> startsWith (drop 3 u) ''S'' \<and>
      (let r = dropWhile (\<lambda>c. c = CHR ''S'') (drop 3 u)
       in startsWith r ''X'' \<or> startsWith r ''9''))"

definition copy_at :: "string \<Rightarrow> bool" where
  "copy_at u =
     (startsWith u ''COPY'' \<and> startsWith (drop 4 u) ''S'' \<and>
      startsWith (dropWhile (\<lambda>c. c = CHR ''S'') (drop 4 u)) ''W'')"

definition detectCOBOL :: "string \<Rightarrow> bool" where
  "detectCOBOL data =
     (list_ex line_number_at (line_starts data) \<or>
      str_includes (map canon data) ''IDENTIFICATION DIVISION'' \<or>
      str_includes (map canon data) ''DATA DIVISION'' \<or>
      str_includes (map canon data) ''PROCEDURE DIVISION'' \<or>
      list_ex pic_at (tails (map canon data)) \<or>
      list_ex copy_at (tails (map canon data)))"

definition parseCOBOL :: "string \<Rightarrow> error + jsval" where
  "parseCOBOL data =
     (if detectCOBOL data then
        Inl (Error (''COBOL copybook detected. COBOL parsing requires SwiftParser Enterprise. '' @
                    ''Visit https://gridworks.ai/enterprise or contact enterprise@gridworks.ai''))
      else Inr JNull)"

section \<open>Main entry point\<close>

text \<open>
  \<open>toUpperCase\<close> on 8-bit characters: the letters a to z and the accented letters
  0xE0 to 0xFE (0xF7, the division sign, apart) move down by 32, and the sharp s (0xDF)
  becomes \<open>SS\<close>. The capitals of 0xB5 and 0xFF are not 8-bit characters; the model keeps
  these two as they are, which is another character beyond ASCII.
\<close>

definition upper_char :: "char \<Rightarrow> string" where
  "upper_char c =
     (let n = (of_char c :: nat) in
      if 97 \<le> n \<and> n \<le> 122 then [char_of (n - 32)]
      else if n = 223 then ''SS''
      else if 224 \<le> n \<and> n \<le> 254 \<and> n \<noteq> 247 then [char_of (n - 32)]
      else [c])"

definition toUpperCase :: "string \<Rightarrow> string" where
  "toUpperCase s = concat (map upper_char s)"

text \<open>The \<open>try\<close> block of \<open>detectFormat\<close> that inspects the payload as JSON: a label, no
  label, or the exception that the \<open>catch\<close> around it swallows.\<close>

definition json_detection :: "env \<Rightarrow> string \<Rightarrow> error + string option" where
  "json_detection env msg =
     (case JSON_parse env msg of
        None \<Rightarrow> Inl SyntaxError
      | Some parsed \<Rightarrow>
          and_then (property parsed ''transactionId'') (\<lambda>tid.
          and_then
            (if truthy tid then
               and_then (call_startsWith tid ''DNA'') (\<lambda>dna.
                 if dna then Inr (Some ''FISERV_DNA'')
                 else
                   and_then (call_startsWith tid ''TXN'') (\<lambda>txn.
                     if txn then
                       (if truthy (get parsed ''transactionType'') \<and> truthy (get parsed ''branchCode'')
                        then Inr (Some ''FIS_JSON'')
                        else Inr (Some ''BANCS_JSON''))
                     else Inr None))
             else Inr None)
            (\<lambda>label.
               case label of
                 Some l \<Rightarrow> Inr (Some l)
               | None \<Rightarrow>
                   if truthy (get parsed ''header'') \<and>
                      truthy (get (get parsed ''header'') ''messageId'')
                   then
                     and_then (call_startsWith (get (get parsed ''header'') ''messageId'') ''TMN'')
                       (\<lambda>tmn. Inr (if tmn then Some ''TEMENOS_JSON'' else None))
                   else Inr None)))"

definition detectFormat :: "env \<Rightarrow> jsval \<Rightarrow> error + string" where
  "detectFormat env message =
     (case message of
        JStr s \<Rightarrow>
          if s = [] then Inr ''UNKNOWN''
          else
            (case (if str_includes s ''{1:'' \<and> str_includes s ''{2:'' \<and> str_includes s ''{4:''
                   then header_match s else None) of
               Some n \<Rightarrow> Inr (''MT'' @ n)
             | None \<Rightarrow>
                 if str_includes s ''<?xml'' \<and> str_includes s ''urn:iso:std:iso:20022'' then
                   Inr ''ISO20022''
                 else if str_includes s ''<Transaction>'' \<or> str_includes s ''TransactionID'' then
                   Inr ''BANCS_XML''
                 else
                   (case json_detection env s of
                      Inr (Some l) \<Rightarrow> Inr l
                    | _ \<Rightarrow>
                        if str_includes s ''<TemenosTransaction>'' then Inr ''TEMENOS_XML''
                        else if detectCOBOL s then Inr ''COBOL''
                        else Inr ''UNKNOWN''))
      | _ \<Rightarrow> Inr ''UNKNOWN'')"

definition getSupportedFormats :: "string list" where
  "getSupportedFormats =
     [''MT103'', ''MT202'', ''MT515'', ''MT700'', ''MT798'', ''MT950'', ''MT101'',
      ''ISO20022'', ''BANCS_XML'', ''BANCS_JSON'', ''BANCS_FLAT'',
      ''FIS_FIXED'', ''FIS_JSON'', ''FIS_DELIMITED'',
      ''FISERV_DNA'', ''TEMENOS_JSON'', ''TEMENOS_XML'', ''TEMENOS_T24'']"

text \<open>How a block of statements ends: it runs to its end with a value, it returns from
  the function, or it throws.\<close>

datatype completion = Normal jsval | Return jsval | Throw error

fun run :: "error + jsval \<Rightarrow> completion" where
  "run (Inl e) = Throw e"
| "run (Inr v) = Normal v"

text \<open>The routing by the upper-case format label. The COBOL branch returns the value of
  \<open>parseCOBOL\<close> from \<open>parse\<close> at once.\<close>

definition dispatch :: "env \<Rightarrow> string \<Rightarrow> string \<Rightarrow> completion" where
  "dispatch env msg formatUpper =
     (if startsWith formatUpper ''MT'' then run (SWIFT_parse env (JStr msg))
      else if formatUpper = ''ISO20022'' \<or> formatUpper = ''PACS.008'' then
        run (ISO20022_parsePacs008 env msg)
      else if str_includes formatUpper ''BANCS'' then
        (if str_includes formatUpper ''JSON'' then run (BANCS_parseJSON env msg)
         else if str_includes formatUpper ''XML'' then run (BANCS_parseXML env msg)
         else run (BANCS_parseFlat env msg))
      else if str_includes formatUpper ''FIS'' then
        (if str_includes formatUpper ''JSON'' then run (FIS_parseJSON env msg)
         else run (FIS_parseFixedWidth env msg))
      else if str_includes formatUpper ''FISERV'' \<or> str_includes formatUpper ''DNA'' then
        run (Fiserv_parseDNA env msg)
      else if str_includes formatUpper ''TEMENOS'' then
        (if str_includes formatUpper ''JSON'' then run (Temenos_parseJSON env msg)
         else if str_includes formatUpper ''XML'' then run (Temenos_parseXML env msg)
         else run (Temenos_parseT24 env msg))
      else if detectCOBOL msg then
        (case parseCOBOL msg of Inl e \<Rightarrow> Throw e | Inr v \<Rightarrow> Return v)
      else Throw (Error ''Unsupported message format''))"

text \<open>The timing metadata: \<open>result.parseMetadata = result.parseMetadata || {}\<close>, then
  \<open>parseTime\<close> and \<open>timestamp\<close> are written into it.\<close>

definition stamp :: "env \<Rightarrow> jsval \<Rightarrow> error + jsval" where
  "stamp env result =
     and_then (property result ''parseMetadata'') (\<lambda>pm0.
     and_then (put (if truthy pm0 then pm0 else JObj []) ''parseTime''
                 (JNum (Finite (of_nat (max 1 (elapsed_ms env)))))) (\<lambda>pm1.
     and_then (put pm1 ''timestamp'' (JStr (now_iso env))) (\<lambda>pm2.
       put result ''parseMetadata'' pm2)))"

text \<open>The \<open>try\<close> block of \<open>parse\<close>. The format hint is \<open>None\<close> when the caller passes
  none; an empty hint is falsy and leads to detection as well.\<close>

definition parse_body :: "env \<Rightarrow> jsval \<Rightarrow> string option \<Rightarrow> completion" where
  "parse_body env message format =
     (if message = JNull \<or> message = JUndefined then
        Throw (Error ''Invalid input: message cannot be null or undefined'')
      else
        (case message of
           JStr s \<Rightarrow>
             if trim s = [] then Throw (Error ''Invalid input: message cannot be empty'')
             else
               (case (case format of
                        None \<Rightarrow> detectFormat env message
                      | Some f \<Rightarrow> if f = [] then detectFormat env message else Inr f) of
                  Inl e \<Rightarrow> Throw e
                | Inr detectedFormat \<Rightarrow>
                    (case dispatch env s (toUpperCase detectedFormat) of
                       Normal result \<Rightarrow> run (stamp env result)
                     | Return v \<Rightarrow> Return v
                     | Throw e \<Rightarrow> Throw e))
         | _ \<Rightarrow> Throw (Error ''Invalid input: message must be a string'')))"

text \<open>
  The counters live in an object of the store; the parser holds its address in
  \<open>this.metrics\<close>. The store is the list of the metrics objects allocated so far, an
  address is a position in it. Counters are natural numbers: a JavaScript number stops
  counting at \<open>2^53\<close>, which no run reaches.
\<close>

record metrics =
  totalParsed :: nat
  successfulParses :: nat
  failedParses :: nat

record parser_state =
  heap :: "metrics list"
  this_metrics :: nat

definition update_metrics :: "(metrics \<Rightarrow> metrics) \<Rightarrow> parser_state \<Rightarrow> parser_state" where
  "update_metrics f st =
     st\<lparr>heap := (heap st)[this_metrics st := f (heap st ! this_metrics st)]\<rparr>"

text \<open>The constructor allocates the counters, all zero, in the store \<open>h\<close>.\<close>

definition new_parser :: "metrics list \<Rightarrow> parser_state" where
  "new_parser h =
     \<lparr>heap = h @ [\<lparr>totalParsed = 0, successfulParses = 0, failedParses = 0\<rparr>],
      this_metrics = length h\<rparr>"

definition parse ::
  "env \<Rightarrow> parser_state \<Rightarrow> jsval \<Rightarrow> string option \<Rightarrow> (error + jsval) \<times> parser_state" where
  "parse env st message format =
     (let st1 = update_metrics (\<lambda>m. m\<lparr>totalParsed := totalParsed m + 1\<rparr>) st in
      case parse_body env message format of
        Normal result \<Rightarrow>
          (Inr result, update_metrics (\<lambda>m. m\<lparr>successfulParses := successfulParses m + 1\<rparr>) st1)
      | Return v \<Rightarrow> (Inr v, st1)
      | Throw e \<Rightarrow>
          (Inl e, update_metrics (\<lambda>m. m\<lparr>failedParses := failedParses m + 1\<rparr>) st1))"

text \<open>\<open>getMetrics\<close> returns \<open>{ ...this.metrics }\<close>: a new object with the same counters. The
  model returns its address and the store that holds it.\<close>

definition getMetrics :: "parser_state \<Rightarrow> nat \<times> parser_state" where
  "getMetrics st = (length (heap st), st\<lparr>heap := heap st @ [heap st ! this_metrics st]\<rparr>)"

text \<open>The loop of \<open>batchParse\<close>, with the array \<open>results\<close> built so far.\<close>

fun batch_loop ::
  "env \<Rightarrow> parser_state \<Rightarrow> jsval list \<Rightarrow> jsval list \<Rightarrow> jsval list \<times> parser_state" where
  "batch_loop env st results [] = (results, st)"
| "batch_loop env st results (m # ms) =
     (case parse env st m None of
        (Inr result, st1) \<Rightarrow> batch_loop env st1 (results @ [result]) ms
      | (Inl e, st1) \<Rightarrow>
          batch_loop env st1
            (results @ [JObj [(''error'', JStr (error_message e)), (''originalMessage'', m)]]) ms)"

definition batchParse :: "env \<Rightarrow> parser_state \<Rightarrow> jsval list \<Rightarrow> jsval list \<times> parser_state" where
  "batchParse env st messages = batch_loop env st [] messages"


section \<open>Sample inputs\<close>

text \<open>Surroundings for payloads that are not JSON texts: \<open>JSON.parse\<close> throws, the xml2js
  call returns \<open>undefined\<close> and the missing method \<open>extractXMLField\<close> raises a TypeError.\<close>

definition sample_env :: env where
  "sample_env = \<lparr>JSON_parse = (\<lambda>s. None), xml2js_parseString = (\<lambda>s. Inr JUndefined),
     extractXMLField = (\<lambda>s t. Inl TypeError), now_iso = ''2024-07-01T10:00:00.000Z'',
     uuidv4 = ''00000000-0000-4000-8000-000000000000'', elapsed_ms = 0\<rparr>"

text \<open>A fixed-width FIS record of exactly 100 characters with 250000 cents.\<close>

definition fis_sample :: string where
  "fis_sample = ''01TXN123456789   ACC987654321   000250000USD20240701001Monthly payment to vendor ABC Corp           ''"


text \<open>An MT103 message with its four required fields; field 32A reads
  \<open>230701USD1000,00\<close>.\<close>

definition mt103_sample :: string where
  "mt103_sample = ''{1:F01AAAAGRA0AXXX1234123456}{2:I103BBBBGRB0XXXXN}{4:\<newline>:20:123456789\<newline>:32A:230701USD1000,00\<newline>:50K:/12345678\<newline>:59:/98765432\<newline>-}''"

text \<open>The record that the SWIFT parser builds from it.\<close>

definition mt103_record :: jsval where
  "mt103_record = JObj
    [(''id'', JStr ''00000000-0000-4000-8000-000000000000''),
     (''messageType'', JStr ''MT103''),
     (''transactionReference'', JStr ''123456789''),
     (''timestamp'', JStr ''2024-07-01T10:00:00.000Z''),
     (''status'', JStr ''parsed''),
     (''originalFields'', JObj
        [(''20'', JObj
            [(''tag'', JStr ''20''), (''name'', JStr ''transaction_reference''),
             (''content'', JStr ''123456789'')]),
         (''32A'', JObj
            [(''tag'', JStr ''32A''), (''name'', JStr ''value_date_currency_amount''),
             (''content'', JStr ''230701USD1000,00'')]),
         (''50K'', JObj
            [(''tag'', JStr ''50K''), (''name'', JStr ''ordering_customer''),
             (''content'', JStr ''/12345678'')]),
         (''59'', JObj
            [(''tag'', JStr ''59''), (''name'', JStr ''beneficiary_customer''),
             (''content'', JStr ''/98765432\<newline>-'')])]),
     (''amount'', JNum (Finite 100000)),
     (''currency'', JStr ''USD''),
     (''valueDate'', JStr ''2023-07-01''),
     (''sender'', JObj
        [(''account'', JStr ''/12345678''), (''name'', JNull), (''address'', JNull),
         (''raw'', JStr ''/12345678'')]),
     (''receiver'', JObj
        [(''account'', JStr ''/98765432''), (''name'', JStr ''-''), (''address'', JNull),
         (''raw'', JStr ''/98765432\<newline>-'')]),
     (''orderingInstitution'', JUndefined),
     (''beneficiaryInstitution'', JUndefined),
     (''remittanceInfo'', JUndefined)]"


text \<open>A sequence of calls of \<open>parse\<close> on one parser, each with its own surroundings.\<close>

fun parse_calls :: "parser_state \<Rightarrow> (env \<times> jsval \<times> string option) list \<Rightarrow> parser_state" where
  "parse_calls st [] = st"
| "parse_calls st ((env, message, format) # calls) =
     parse_calls (snd (parse env st message format)) calls"

text \<open>A payload with the XML declaration, the ISO 20022 namespace and \<open>pacs.008\<close>.\<close>

definition iso_sample :: string where
  "iso_sample = ''<?xml urn:iso:std:iso:20022:tech:xsd:pacs.008.001.10''"

text \<open>Five payloads, the second and the fourth invalid.\<close>

definition batch_sample :: "jsval list" where
  "batch_sample = [JStr mt103_sample, JStr ''bad'', JStr iso_sample, JNull, JStr mt103_sample]"

text \<open>A T24 payload with the reference and a narrative that contains the separator.\<close>

definition t24_sample :: string where
  "t24_sample = ''TXN.REF=TMN1\<newline>NARRATIVE=A=B''"

text \<open>An MT103 message with every required field, whose field 32A is not an amount.\<close>

definition bad_amount_sample :: string where
  "bad_amount_sample = ''{2:I103}{4::20:R:32A:X:50K:A:59:B}''"

section \<open>Calendar dates\<close>

text \<open>The number of days of month \<open>m\<close> (1 to 12) of year \<open>y\<close>.\<close>

definition days_in_month :: "int \<Rightarrow> int \<Rightarrow> int" where
  "days_in_month y m =
     (if m = 2 then (if InLeapYear y then 29 else 28)
      else if m = 4 \<or> m = 6 \<or> m = 9 \<or> m = 11 then 30 else 31)"

text \<open>Six digits \<open>YYMMDD\<close> that name a day of the calendar of the year \<open>2000 + YY\<close>.\<close>

definition calendar_date :: "string \<Rightarrow> bool" where
  "calendar_date d =
     (let y = 2000 + parseInt (substring d 0 2); m = parseInt (substring d 2 4);
          dd = parseInt (substring d 4 6)
      in 1 \<le> m \<and> m \<le> 12 \<and> 1 \<le> dd \<and> dd \<le> days_in_month y m)"

section \<open>Properties of the numbers\<close>

lemma bit_length_le: "n < 2 ^ k \<Longrightarrow> bit_length n \<le> k"
proof (induction k arbitrary: n)
  case 0
  then show ?case by (simp add: bit_length.simps)
next
  case (Suc k)
  then have "n div 2 < 2 ^ k" by (simp add: less_mult_imp_div_less mult.commute)
  from Suc.IH [OF this] show ?case by (subst bit_length.simps) simp
qed

lemma bit_length_0: "bit_length 0 = 0"
  by (simp add: bit_length.simps)

lemma bit_length_1: "bit_length (Suc 0) = 1"
  by (simp add: bit_length.simps)

lemma bit_length_numeral: "bit_length (numeral k) = bit_length (numeral k div 2) + 1"
  by (subst bit_length.simps) simp

lemmas bit_length_eval = bit_length_0 bit_length_1 bit_length_numeral

lemma round_half_even_int: "round_half_even (of_int z) = z"
  by (simp add: round_half_even_def)

lemma to_double_nat:
  assumes "n < 2 ^ 53"
  shows "to_double (of_nat n) = Finite (of_nat n)"
proof (cases "n = 0")
  case True
  then show ?thesis by (simp add: to_double_def)
next
  case False
  define k where "k = 53 - bit_length n"
  have b: "bit_length n \<le> 53" using assms by (rule bit_length_le)
  have b1: "1 \<le> bit_length n" using False by (subst bit_length.simps) simp
  have e: "binary_exponent (of_nat n) = int (bit_length n) - 1"
    using False by (simp add: binary_exponent_def)
  have q: "max (binary_exponent (of_nat n) - 52) (- 1074) = - int k"
    using b b1 by (simp add: e k_def)
  have p: "pow2 (- int k) = 1 / 2 ^ k"
    by (simp add: pow2_def)
  have "(of_nat n :: rat) / (1 / 2 ^ k) = of_int (int n * 2 ^ k)" by simp
  then have r: "round_half_even ((of_nat n :: rat) / (1 / 2 ^ k)) = int n * 2 ^ k"
    by (simp only: round_half_even_int)
  have v: "(of_int (int n * 2 ^ k) :: rat) * (1 / 2 ^ k) = of_nat n" by simp
  have "(of_nat n :: rat) < of_nat (2 ^ 53)" using assms by (simp only: of_nat_less_iff)
  also have "\<dots> \<le> 2 ^ 1024" by simp
  finally have lt: "\<not> (2 ^ 1024 \<le> (of_nat n :: rat))" by simp
  have pos: "(0 :: rat) < of_nat n" using False by simp
  have ab: "\<bar>of_nat n :: rat\<bar> = of_nat n" by simp
  show ?thesis
    unfolding to_double_def Let_def ab q p r v using lt pos False by simp
qed

lemma bit_length_less: "n < 2 ^ bit_length n"
proof (induction n rule: less_induct)
  case (less n)
  show ?case
  proof (cases "n = 0")
    case True
    then show ?thesis by simp
  next
    case False
    then have "n div 2 < n" by simp
    from less [OF this] have "n div 2 < 2 ^ bit_length (n div 2)" .
    then have "n < 2 * 2 ^ bit_length (n div 2)" by linarith
    moreover have "bit_length n = bit_length (n div 2) + 1"
      using False by (subst bit_length.simps) simp
    ultimately show ?thesis by simp
  qed
qed

lemma bit_length_lower: "0 < n \<Longrightarrow> 2 ^ (bit_length n - 1) \<le> n"
proof (induction n rule: less_induct)
  case (less n)
  have b: "bit_length n = bit_length (n div 2) + 1"
    using less.prems by (subst bit_length.simps) simp
  show ?case
  proof (cases "n div 2 = 0")
    case True
    then have "bit_length (n div 2) = 0" by (simp add: bit_length.simps)
    then show ?thesis using less.prems b by simp
  next
    case False
    then have p: "0 < n div 2" "n div 2 < n" using less.prems by simp_all
    from less.IH [OF p(2) p(1)] have h: "2 ^ (bit_length (n div 2) - 1) \<le> n div 2" .
    have "1 \<le> bit_length (n div 2)" using False by (subst bit_length.simps) simp
    then have "(2::nat) ^ bit_length (n div 2) = 2 * 2 ^ (bit_length (n div 2) - 1)"
      by (metis Suc_diff_1 less_eq_Suc_le numeral_nat(7) power_Suc)
    also have "\<dots> \<le> 2 * (n div 2)" using h by simp
    also have "\<dots> \<le> n" by simp
    finally show ?thesis by (simp add: b)
  qed
qed

lemma round_half_even_ge: "\<lfloor>x\<rfloor> \<le> round_half_even x"
  by (simp add: round_half_even_def Let_def)

lemma to_double_overflow:
  assumes "2 ^ 1024 \<le> r"
  shows "to_double r = PosInfinity"
proof -
  define n where "n = nat \<lfloor>r\<rfloor>"
  define L where "L = bit_length n"
  have r0: "0 < r" by (rule less_le_trans [OF _ assms]) simp
  have r1: "1 \<le> r" "0 < r" "r \<noteq> 0" "\<bar>r\<bar> = r"
    using r0 by (simp_all add: order_trans [OF _ assms])
  have "(2 ^ 1024 :: int) \<le> \<lfloor>r\<rfloor>" using assms by (simp add: le_floor_iff)
  then have n: "2 ^ 1024 \<le> n" "int n = \<lfloor>r\<rfloor>" unfolding n_def by (simp_all add: le_nat_iff)
  have nr: "of_nat n \<le> r"
  proof -
    have "(of_nat n :: rat) = of_int (int n)" by simp
    also have "\<dots> = of_int \<lfloor>r\<rfloor>" by (simp only: n(2))
    also have "\<dots> \<le> r" by (rule of_int_floor_le)
    finally show ?thesis .
  qed
  have "(2::nat) ^ 1024 < 2 ^ L" using n(1) bit_length_less [of n] unfolding L_def by linarith
  then have L: "1024 < L" by (rule power_less_imp_less_exp [rotated]) simp
  have "0 < n" using n(1) by (simp add: less_le_trans [OF _ n(1)])
  then have "2 ^ (L - 1) \<le> n" unfolding L_def by (rule bit_length_lower)
  then have "(of_nat (2 ^ (L - 1)) :: rat) \<le> of_nat n" by (simp only: of_nat_le_iff)
  then have "(2 :: rat) ^ (L - 1) \<le> of_nat n" by simp
  then have lo: "(2 :: rat) ^ (L - 1) \<le> r" using nr by (rule order_trans)
  have e: "binary_exponent r = int L - 1"
    using r1(1) by (simp add: binary_exponent_def n_def L_def)
  have q: "max (binary_exponent r - 52) (- 1074) = int (L - 53)"
    using L by (simp add: e)
  have p: "pow2 (int (L - 53)) = 2 ^ (L - 53)" by (simp add: pow2_def)
  have split: "(2::rat) ^ (L - 1) = 2 ^ 52 * 2 ^ (L - 53)"
  proof -
    have "L - 1 = 52 + (L - 53)" using L by simp
    then show ?thesis by (simp only: power_add)
  qed
  have "(2::rat) ^ 52 * 2 ^ (L - 53) \<le> r" using lo split by simp
  then have "(2::rat) ^ 52 \<le> r / 2 ^ (L - 53)" by (simp add: pos_le_divide_eq)
  then have "(2 ^ 52 :: int) \<le> \<lfloor>r / 2 ^ (L - 53)\<rfloor>" by (simp add: le_floor_iff)
  then have "(2 ^ 52 :: int) \<le> round_half_even (r / 2 ^ (L - 53))"
    using round_half_even_ge [of "r / 2 ^ (L - 53)"] by linarith
  then have "(of_int (2 ^ 52) :: rat) \<le> of_int (round_half_even (r / 2 ^ (L - 53)))"
    by (simp only: of_int_le_iff)
  then have "(2::rat) ^ 52 * 2 ^ (L - 53) \<le> of_int (round_half_even (r / 2 ^ (L - 53))) * 2 ^ (L - 53)"
    by (simp add: mult_right_mono)
  then have "(2::rat) ^ (L - 1) \<le> of_int (round_half_even (r / 2 ^ (L - 53))) * 2 ^ (L - 53)"
    by (simp only: split)
  moreover have "(2::rat) ^ 1024 \<le> 2 ^ (L - 1)" using L by (intro power_increasing) simp_all
  ultimately have v: "2 ^ 1024 \<le> of_int (round_half_even (r / 2 ^ (L - 53))) * (2::rat) ^ (L - 53)"
    by (rule order_trans [rotated])
  show ?thesis
    unfolding to_double_def Let_def r1(4) q p using v r1(2,3) by simp
qed

lemma floor_rat_numeral: "\<lfloor>numeral a / numeral b :: rat\<rfloor> = numeral a div numeral b"
  by (metis floor_divide_of_int_eq of_int_numeral)

lemma ceiling_rat_numeral: "\<lceil>numeral a / numeral b :: rat\<rceil> = - (- numeral a div numeral b)"
  using ceiling_divide_eq_div [of "numeral a" "numeral b", where ?'a = rat] by simp

lemmas to_double_eval = to_double_def binary_exponent_def pow2_def round_half_even_def
  bit_length_eval Let_def floor_rat_numeral ceiling_rat_numeral

text \<open>The decimal \<open>0.07\<close> is not a double, and neither is the hundredth of the double
  nearest to it; a literal beyond the range of the doubles is infinite.\<close>

lemma to_double_7_100: "to_double (7 / 100) = Finite (1261007895663739 / 18014398509481984)"
  by (simp add: to_double_eval)

lemma divide_by_7_100:
  "divide_by (Finite (1261007895663739 / 18014398509481984)) 100 =
     Finite (807045053224793 / 1152921504606846976)"
  by (simp add: to_double_eval)

lemma digits_val_snoc: "digits_val (ds @ [c]) = 10 * digits_val ds + digit_val c"
  by (simp add: digits_val_def)

lemma digits_val_less: "list_all is_digit ds \<Longrightarrow> digits_val ds < 10 ^ length ds"
proof (induction ds rule: rev_induct)
  case Nil
  then show ?case by (simp add: digits_val_def)
next
  case (snoc c ds)
  then have "digits_val ds < 10 ^ length ds" by simp
  then have "10 * digits_val ds + 10 \<le> 10 * 10 ^ length ds" by simp
  moreover have "digit_val c < 10"
    using snoc.prems by (auto simp: is_digit_def digit_val_def)
  ultimately show ?case by (simp add: digits_val_snoc)
qed

section \<open>Properties of the FIS parser\<close>

lemma substring_nth: "a \<le> b \<Longrightarrow> b \<le> length s \<Longrightarrow> substring s a b = map (\<lambda>i. s ! i) [a..<b]"
  by (auto simp: substring_def list_eq_iff_nth_eq)

lemma digit_not_space: "is_digit c \<Longrightarrow> \<not> is_space c"
  by (auto simp: is_digit_def is_space_def)

lemma trim_digits: "list_all is_digit ds \<Longrightarrow> trim ds = ds"
proof (cases ds rule: rev_cases)
  case Nil
  then show ?thesis by (simp add: trim_def)
next
  case (snoc ys y)
  assume a: "list_all is_digit ds"
  show ?thesis
  proof (cases ds)
    case Nil
    then show ?thesis by (simp add: trim_def)
  next
    case (Cons x xs)
    with a have "\<not> is_space x" by (simp add: digit_not_space)
    then have 1: "dropWhile is_space ds = ds" using Cons by simp
    from a snoc have "\<not> is_space y" by (simp add: digit_not_space)
    then have 2: "dropWhile is_space (rev ds) = rev ds" using snoc by simp
    show ?thesis by (simp add: trim_def 1 2)
  qed
qed

lemma parseFloat_digits:
  assumes "list_all is_digit ds" and "ds \<noteq> []"
  shows "parseFloat ds = to_double (of_nat (digits_val ds))"
proof -
  from assms obtain c r where ds: "ds = c # r" by (cases ds) auto
  with assms have c: "is_digit c" by simp
  then have ns: "\<not> is_space c" by (rule digit_not_space)
  from c have sg: "c \<noteq> CHR ''-''" "c \<noteq> CHR ''+''" "c \<noteq> CHR ''I''"
    by (auto simp: is_digit_def)
  have tw: "takeWhile is_digit ds = ds" "dropWhile is_digit ds = []"
    using assms(1) by (simp_all add: list_all_iff)
  have "parse_unsigned ds = to_double (of_nat (digits_val ds))"
    using sg assms(2) unfolding parse_unsigned_def tw by (simp add: ds startsWith_def)
  then show ?thesis
    using ns sg by (simp add: parseFloat_def ds)
qed

text \<open>
  C8. The FIS fixed-width extractor fails with the "message too short" error on every
  payload of fewer than 100 characters. On every payload of at least 100 characters it
  returns a record whose amount is the number parsed from the characters at offsets 32
  to 40 (\<open>substring(32, 41)\<close>, trimmed) divided by 100, both the parsed number and the
  quotient rounded to the nearest double; when these nine characters are all digits, that
  is the double nearest to their decimal value, taken as cents, in units.
\<close>

theorem FIS_parseFixedWidth_amount:
  "(length m < 100 \<longrightarrow>
      FIS_parseFixedWidth env m =
        Inl (Error ''FIS fixed width parsing failed: Invalid FIS fixed width: message too short'')) \<and>
   (100 \<le> length m \<longrightarrow>
      (\<exists>r. FIS_parseFixedWidth env m = Inr r \<and>
           get r ''messageType'' = JStr ''FIS_FIXED'' \<and>
           get r ''amount'' =
             JNum (divide_by (parseFloat (trim (map (\<lambda>i. m ! i) [32..<41]))) 100) \<and>
           (list_all is_digit (map (\<lambda>i. m ! i) [32..<41]) \<longrightarrow>
              get r ''amount'' =
                JNum (to_double (of_nat (digits_val (map (\<lambda>i. m ! i) [32..<41])) / 100)))))"
proof (intro conjI impI)
  assume "length m < 100"
  then show "FIS_parseFixedWidth env m =
        Inl (Error ''FIS fixed width parsing failed: Invalid FIS fixed width: message too short'')"
    by (simp add: FIS_parseFixedWidth_def rethrow_def)
next
  assume len: "100 \<le> length m"
  then have sub: "substring m 32 41 = map (\<lambda>i. m ! i) [32..<41]"
    by (intro substring_nth) simp_all
  have am: "\<exists>r. FIS_parseFixedWidth env m = Inr r \<and>
           get r ''messageType'' = JStr ''FIS_FIXED'' \<and>
           get r ''amount'' =
             JNum (divide_by (parseFloat (trim (map (\<lambda>i. m ! i) [32..<41]))) 100)"
    using len by (simp add: FIS_parseFixedWidth_def rethrow_def Let_def get_def sub)
  then obtain r where r: "FIS_parseFixedWidth env m = Inr r"
      "get r ''messageType'' = JStr ''FIS_FIXED''"
      "get r ''amount'' = JNum (divide_by (parseFloat (trim (map (\<lambda>i. m ! i) [32..<41]))) 100)"
    by blast
  have "list_all is_digit (map (\<lambda>i. m ! i) [32..<41]) \<Longrightarrow>
       get r ''amount'' = JNum (to_double (of_nat (digits_val (map (\<lambda>i. m ! i) [32..<41])) / 100))"
  proof -
    assume d: "list_all is_digit (map (\<lambda>i. m ! i) [32..<41])"
    have ne: "map (\<lambda>i. m ! i) [32..<41] \<noteq> []" by simp
    have "digits_val (map (\<lambda>i. m ! i) [32..<41]) < 10 ^ 9"
      using digits_val_less [OF d] by simp
    then have "digits_val (map (\<lambda>i. m ! i) [32..<41]) < 2 ^ 53" by simp
    then have ex: "to_double (of_nat (digits_val (map (\<lambda>i. m ! i) [32..<41]))) =
        Finite (of_nat (digits_val (map (\<lambda>i. m ! i) [32..<41])))"
      by (rule to_double_nat)
    show ?thesis
      by (simp only: r(3) trim_digits [OF d] parseFloat_digits [OF d ne] ex divide_by.simps)
  qed
  with r show "\<exists>r. FIS_parseFixedWidth env m = Inr r \<and>
           get r ''messageType'' = JStr ''FIS_FIXED'' \<and>
           get r ''amount'' =
             JNum (divide_by (parseFloat (trim (map (\<lambda>i. m ! i) [32..<41]))) 100) \<and>
           (list_all is_digit (map (\<lambda>i. m ! i) [32..<41]) \<longrightarrow>
              get r ''amount'' =
                JNum (to_double (of_nat (digits_val (map (\<lambda>i. m ! i) [32..<41])) / 100)))"
    by blast
qed

lemma fis_len: "length fis_sample = 100" by (simp add: fis_sample_def)
lemma fis_slice: "map (\<lambda>i. fis_sample ! i) [32..<41] = ''000250000''"
  by (simp add: fis_sample_def upt_rec)
lemma fis_val: "digits_val ''000250000'' = 250000"
  by (simp add: digits_val_def digit_val_def)
lemma fis_dig: "list_all is_digit ''000250000''"
  by (simp add: is_digit_def)

theorem FIS_parseFixedWidth_amount_witness:
  "length ''01TXN1'' < 100 \<and>
   FIS_parseFixedWidth sample_env ''01TXN1'' =
     Inl (Error ''FIS fixed width parsing failed: Invalid FIS fixed width: message too short'') \<and>
   100 \<le> length fis_sample \<and>
   list_all is_digit (map (\<lambda>i. fis_sample ! i) [32..<41]) \<and>
   (\<exists>r. FIS_parseFixedWidth sample_env fis_sample = Inr r \<and> get r ''amount'' = JNum (Finite 2500))"
proof -
  have s: "length ''01TXN1'' < 100" by simp
  have l: "100 \<le> length fis_sample" by (simp add: fis_len)
  have d: "list_all is_digit (map (\<lambda>i. fis_sample ! i) [32..<41])"
    by (simp only: fis_slice fis_dig)
  from FIS_parseFixedWidth_amount [of "''01TXN1''" sample_env] s
  have 1: "FIS_parseFixedWidth sample_env ''01TXN1'' =
     Inl (Error ''FIS fixed width parsing failed: Invalid FIS fixed width: message too short'')"
    by blast
  from FIS_parseFixedWidth_amount [of fis_sample sample_env] l d
  obtain r where "FIS_parseFixedWidth sample_env fis_sample = Inr r"
    "get r ''amount'' = JNum (to_double (of_nat (digits_val (map (\<lambda>i. fis_sample ! i) [32..<41])) / 100))"
    by blast
  then have 2: "\<exists>r. FIS_parseFixedWidth sample_env fis_sample = Inr r \<and> get r ''amount'' = JNum (Finite 2500)"
    unfolding fis_slice fis_val using to_double_nat [of 2500] by simp
  from s 1 l d 2 show ?thesis by blast
qed

text \<open>Two payloads whose amount is not the exact quotient: the characters \<open>0.07\<close> give
  the double \<open>0.0007000000000000001\<close>, the characters \<open>1e400\<close> give \<open>Infinity\<close>.\<close>

lemma trim_0_07: "trim ''0.07     '' = ''0.07''"
  by (simp add: trim_def is_space_def)

lemma parseFloat_0_07: "parseFloat ''0.07'' = Finite (1261007895663739 / 18014398509481984)"
proof -
  have "parseFloat ''0.07'' = to_double (7 / 100)"
    by (simp add: parseFloat_def parse_unsigned_def parse_exponent_def scale10_def is_space_def
        is_digit_def startsWith_def digits_val_def digit_val_def)
  then show ?thesis by (simp only: to_double_7_100)
qed

lemma FIS_amount_rounded:
  "divide_by (parseFloat (trim ''0.07     '')) 100 = Finite (807045053224793 / 1152921504606846976) \<and>
   Finite (807045053224793 / 1152921504606846976) \<noteq> Finite (7 / 10000)"
  by (simp add: trim_0_07 parseFloat_0_07 divide_by_7_100 del: divide_by.simps)

lemma FIS_amount_overflow: "divide_by (parseFloat (trim ''1e400    '')) 100 = PosInfinity"
proof -
  have t: "trim ''1e400    '' = ''1e400''"
    by (simp add: trim_def is_space_def)
  have "parseFloat ''1e400'' = to_double (10 ^ 400)"
    by (simp add: parseFloat_def parse_unsigned_def parse_exponent_def scale10_def is_space_def
        is_digit_def startsWith_def digits_val_def digit_val_def)
  moreover have "to_double (10 ^ 400) = PosInfinity"
    by (rule to_double_overflow) simp
  ultimately show ?thesis by (simp add: t)
qed

section \<open>Evaluation of the samples\<close>

lemma sample_header: "header_match mt103_sample = Some ''103''"
  by (simp add: mt103_sample_def header_at_def startsWith_def substring_def is_digit_def)

lemma sample_text_block:
  "text_block_match mt103_sample =
     Some ''\<newline>:20:123456789\<newline>:32A:230701USD1000,00\<newline>:50K:/12345678\<newline>:59:/98765432\<newline>-''"
  by (simp add: mt103_sample_def startsWith_def)

lemma sample_field_matches:
  "field_matches ''\<newline>:20:123456789\<newline>:32A:230701USD1000,00\<newline>:50K:/12345678\<newline>:59:/98765432\<newline>-'' =
     ['':20:123456789\<newline>'', '':32A:230701USD1000,00\<newline>'', '':50K:/12345678\<newline>'',
      '':59:/98765432\<newline>-'']"
  by (simp add: tag_at_def is_digit_def is_upper_def)

lemma sample_fields:
  "parseFields mt103_sample ''MT103'' = Inr
     [(''20'', Field ''20'' ''transaction_reference'' ''123456789''),
      (''32A'', Field ''32A'' ''value_date_currency_amount'' ''230701USD1000,00''),
      (''50K'', Field ''50K'' ''ordering_customer'' ''/12345678''),
      (''59'', Field ''59'' ''beneficiary_customer'' ''/98765432\<newline>-'')]"
  by (simp add: parseFields_def sample_text_block sample_field_matches SWIFT_FIELDS_def tag_at_def
      is_digit_def is_upper_def trim_def is_space_def)

lemma sample_date: "iso_date (MakeDay 2023 6 1) = ''2023-07-01''"
proof -
  have d: "MakeDay 2023 6 1 = 19539"
    by (simp add: MakeDay_def DayFromYear_def InLeapYear_def month_start_def)
  have y: "YearFromDay 19539 = 2023"
    by (simp add: YearFromDay_def year_search.simps DayFromYear_def)
  show ?thesis
    unfolding d
    by (simp add: iso_date_def y MonthFromDay_def DateFromDay_def DayWithinYear_def InLeapYear_def
        DayFromYear_def month_start_def pad4_def pad2_def digit_char_def char_of_def bit_Suc_0_iff)
qed

lemma sample_amount:
  "parseAmountField ''230701USD1000,00'' =
     Inr \<lparr>ad_valueDate = ''2023-07-01'', ad_currency = ''USD'', ad_amount = Finite 100000\<rparr>"
proof -
  have p: "amount_pattern ''230701USD1000,00''"
    by (simp add: amount_pattern_def is_digit_def is_upper_def)
  have f: "parseFloat ''100000'' = Finite 100000"
    using to_double_nat [of 100000]
    by (simp add: parseFloat_def parse_unsigned_def is_space_def is_digit_def startsWith_def
        digits_val_def digit_val_def)
  show ?thesis
    using sample_date
    by (simp add: parseAmountField_def p f parseInt_def substring_def digits_val_def digit_val_def)
qed

lemma sample_SWIFT_parse: "SWIFT_parse sample_env (JStr mt103_sample) = Inr mt103_record"
proof -
  have ne: "mt103_sample \<noteq> []" by (simp add: mt103_sample_def)
  show ?thesis
    by (simp add: SWIFT_parse_def ne extractMessageType_def sample_header supportedMessageTypes_def
        and_then_def sample_fields validateRequiredFields_def getRequiredFields_def
        createStandardizedMessage_def content_of_def sample_amount parseCustomerInfo_def
        trim_def is_space_def nth_opt_def field_obj_def sample_env_def mt103_record_def)
qed

lemma sample_detect: "detectFormat sample_env (JStr mt103_sample) = Inr ''MT103''"
proof -
  have i: "str_includes mt103_sample ''{1:''" "str_includes mt103_sample ''{2:''"
    "str_includes mt103_sample ''{4:''" "mt103_sample \<noteq> []"
    by (simp_all add: mt103_sample_def startsWith_def)
  show ?thesis by (simp add: detectFormat_def i sample_header)
qed

lemma sample_parse_body:
  "parse_body sample_env (JStr mt103_sample) None = run (stamp sample_env mt103_record)"
proof -
  have t: "trim mt103_sample \<noteq> []"
    by (simp add: mt103_sample_def trim_def is_space_def)
  have u: "toUpperCase ''MT103'' = ''MT103''" by (simp add: toUpperCase_def upper_char_def)
  show ?thesis
    by (simp add: parse_body_def t sample_detect u dispatch_def startsWith_def sample_SWIFT_parse)
qed

lemma sample_stamp: "\<exists>r. stamp sample_env mt103_record = Inr r \<and> get r ''messageType'' = JStr ''MT103''"
  by (simp add: stamp_def mt103_record_def property_def get_def and_then_def put_def sample_env_def)

lemma sample_parse_ok:
  "\<exists>r. fst (parse sample_env st (JStr mt103_sample) None) = Inr r \<and>
       get r ''messageType'' = JStr ''MT103''"
  using sample_stamp by (auto simp: parse_def Let_def sample_parse_body)

lemma iso_detect: "detectFormat sample_env (JStr iso_sample) = Inr ''ISO20022''"
proof -
  have i: "iso_sample \<noteq> []" "\<not> str_includes iso_sample ''{1:''"
    "str_includes iso_sample ''<?xml''" "str_includes iso_sample ''urn:iso:std:iso:20022''"
    by (simp_all add: iso_sample_def startsWith_def)
  show ?thesis by (simp add: detectFormat_def i)
qed

lemma iso_parse_ok:
  "\<exists>r. fst (parse sample_env st (JStr iso_sample) None) = Inr r \<and>
       get r ''messageType'' = JStr ''pacs.008''"
proof -
  have t: "trim iso_sample \<noteq> []" by (simp add: iso_sample_def trim_def is_space_def)
  have u: "toUpperCase ''ISO20022'' = ''ISO20022''"
    by (simp add: toUpperCase_def upper_char_def)
  have p: "str_includes iso_sample ''pacs.008''" by (simp add: iso_sample_def startsWith_def)
  show ?thesis
    by (simp add: parse_def Let_def parse_body_def t iso_detect u dispatch_def startsWith_def
        ISO20022_parsePacs008_def p rethrow_def stamp_def property_def get_def and_then_def put_def)
qed

lemma bad_parse:
  "fst (parse sample_env st (JStr ''bad'') None) = Inl (Error ''Unsupported message format'')"
proof -
  have c: "\<not> detectCOBOL ''bad''"
    by (simp add: detectCOBOL_def line_starts_def is_line_terminator_def line_number_at_def
        startsWith_def canon_def char_of_def bit_Suc_0_iff pic_at_def copy_at_def)
  have d: "detectFormat sample_env (JStr ''bad'') = Inr ''UNKNOWN''"
    by (simp add: detectFormat_def startsWith_def json_detection_def sample_env_def c)
  have u: "toUpperCase ''UNKNOWN'' = ''UNKNOWN''"
    by (simp add: toUpperCase_def upper_char_def)
  show ?thesis
    by (simp add: parse_def Let_def parse_body_def trim_def is_space_def d u dispatch_def
        startsWith_def c)
qed

section \<open>Properties of the main entry point\<close>

text \<open>
  C7. \<open>detectFormat\<close> returns a format label on every input and never throws: the
  exceptions of its JSON inspection are caught. On every input that is not a string
  (\<open>null\<close>, \<open>undefined\<close>, numbers, objects, ...) and on the empty string the label is
  \<open>UNKNOWN\<close>.
\<close>

theorem detectFormat_total:
  "(\<exists>l. detectFormat env v = Inr l) \<and>
   ((\<forall>s. v \<noteq> JStr s) \<or> v = JStr [] \<longrightarrow> detectFormat env v = Inr ''UNKNOWN'')"
  by (auto simp: detectFormat_def split: jsval.splits option.splits sum.splits)

theorem detectFormat_total_witness:
  "(\<forall>s. JNull \<noteq> JStr s) \<and> detectFormat sample_env JNull = Inr ''UNKNOWN'' \<and>
   (\<forall>s. JUndefined \<noteq> JStr s) \<and> detectFormat sample_env JUndefined = Inr ''UNKNOWN'' \<and>
   (\<forall>s. JNum (Finite 123) \<noteq> JStr s) \<and> detectFormat sample_env (JNum (Finite 123)) = Inr ''UNKNOWN'' \<and>
   detectFormat sample_env (JStr []) = Inr ''UNKNOWN''"
  using detectFormat_total [of sample_env JNull] detectFormat_total [of sample_env JUndefined]
    detectFormat_total [of sample_env "JNum (Finite 123)"] detectFormat_total [of sample_env "JStr []"]
  by simp

text \<open>
  C4. \<open>parse\<close> fails with an "Invalid input" error on \<open>null\<close> and \<open>undefined\<close>, on every
  value that is not a string, and on every string that is empty after trimming. The
  result is the same whatever the surroundings (\<open>JSON.parse\<close>, the extractors) and the
  format hint are: neither detection nor an extractor takes part in it.
\<close>

theorem parse_invalid_input:
  "(message = JNull \<or> message = JUndefined \<longrightarrow>
      fst (parse env st message format) =
        Inl (Error ''Invalid input: message cannot be null or undefined'')) \<and>
   (message \<noteq> JNull \<and> message \<noteq> JUndefined \<and> (\<forall>s. message \<noteq> JStr s) \<longrightarrow>
      fst (parse env st message format) = Inl (Error ''Invalid input: message must be a string'')) \<and>
   (trim s = [] \<longrightarrow>
      fst (parse env st (JStr s) format) = Inl (Error ''Invalid input: message cannot be empty''))"
  by (auto simp: parse_def parse_body_def Let_def split: jsval.splits)

theorem parse_invalid_input_witness:
  "fst (parse sample_env (new_parser []) JNull None) =
     Inl (Error ''Invalid input: message cannot be null or undefined'') \<and>
   fst (parse sample_env (new_parser []) JUndefined None) =
     Inl (Error ''Invalid input: message cannot be null or undefined'') \<and>
   JNum (Finite 123) \<noteq> JNull \<and> JNum (Finite 123) \<noteq> JUndefined \<and>
   (\<forall>s. JNum (Finite 123) \<noteq> JStr s) \<and>
   fst (parse sample_env (new_parser []) (JNum (Finite 123)) None) =
     Inl (Error ''Invalid input: message must be a string'') \<and>
   trim ''   '' = [] \<and>
   fst (parse sample_env (new_parser []) (JStr ''   '') (Some ''MT103'')) =
     Inl (Error ''Invalid input: message cannot be empty'')"
proof -
  have t: "trim ''   '' = []" by (simp add: trim_def is_space_def)
  show ?thesis
    using parse_invalid_input [of JNull sample_env "new_parser []" None]
      parse_invalid_input [of JUndefined sample_env "new_parser []" None]
      parse_invalid_input [of "JNum (Finite 123)" sample_env "new_parser []" None]
      parse_invalid_input [of _ sample_env "new_parser []" _ "''   ''", where format = "Some ''MT103''"]
      t
    by simp
qed

lemma run_not_return: "run r \<noteq> Return v"
  by (cases r) simp_all

lemma dispatch_not_return: "dispatch env m f \<noteq> Return v"
  by (simp add: dispatch_def parseCOBOL_def run_not_return)

lemma parse_body_not_return: "parse_body env message format \<noteq> Return v"
  using dispatch_not_return run_not_return
  by (auto simp: parse_body_def split: jsval.splits option.splits sum.splits completion.splits if_splits)

lemma update_metrics_heap:
  "this_metrics st < length (heap st) \<Longrightarrow>
     heap (update_metrics f st) ! this_metrics st = f (heap st ! this_metrics st)"
  by (simp add: update_metrics_def)

lemma update_metrics_frame:
  "this_metrics (update_metrics f st) = this_metrics st \<and>
   length (heap (update_metrics f st)) = length (heap st)"
  by (simp add: update_metrics_def)

lemma parse_frame:
  "this_metrics (snd (parse env st message format)) = this_metrics st \<and>
   length (heap (snd (parse env st message format))) = length (heap st)"
  by (simp add: parse_def Let_def update_metrics_frame split: completion.splits)

lemma parse_counts:
  assumes "this_metrics st < length (heap st)"
  shows "totalParsed (heap (snd (parse env st message format)) ! this_metrics st) =
           totalParsed (heap st ! this_metrics st) + 1 \<and>
         successfulParses (heap (snd (parse env st message format)) ! this_metrics st) =
           successfulParses (heap st ! this_metrics st) +
             (if isl (fst (parse env st message format)) then 0 else 1) \<and>
         failedParses (heap (snd (parse env st message format)) ! this_metrics st) =
           failedParses (heap st ! this_metrics st) +
             (if isl (fst (parse env st message format)) then 1 else 0)"
proof (cases "parse_body env message format")
  case (Normal r)
  then show ?thesis
    using assms by (simp add: parse_def Let_def update_metrics_def)
next
  case (Return v)
  then show ?thesis using parse_body_not_return by blast
next
  case (Throw e)
  then show ?thesis
    using assms by (simp add: parse_def Let_def update_metrics_def)
qed

lemma parse_calls_counts:
  "this_metrics st < length (heap st) \<Longrightarrow>
   totalParsed (heap st ! this_metrics st) =
     successfulParses (heap st ! this_metrics st) + failedParses (heap st ! this_metrics st) \<Longrightarrow>
   this_metrics (parse_calls st calls) = this_metrics st \<and>
   totalParsed (heap (parse_calls st calls) ! this_metrics st) =
     totalParsed (heap st ! this_metrics st) + length calls \<and>
   totalParsed (heap (parse_calls st calls) ! this_metrics st) =
     successfulParses (heap (parse_calls st calls) ! this_metrics st) +
     failedParses (heap (parse_calls st calls) ! this_metrics st)"
proof (induction calls arbitrary: st)
  case Nil
  then show ?case by simp
next
  case (Cons c calls)
  obtain env message format where c: "c = (env, message, format)" by (cases c) auto
  let ?st1 = "snd (parse env st message format)"
  have f: "this_metrics ?st1 = this_metrics st" "length (heap ?st1) = length (heap st)"
    using parse_frame [of env st message format] by simp_all
  have k: "totalParsed (heap ?st1 ! this_metrics st) = totalParsed (heap st ! this_metrics st) + 1"
     "totalParsed (heap ?st1 ! this_metrics st) =
        successfulParses (heap ?st1 ! this_metrics st) + failedParses (heap ?st1 ! this_metrics st)"
    using parse_counts [OF Cons.prems(1), of env message format] Cons.prems(2) by auto
  have "this_metrics ?st1 < length (heap ?st1)" using f Cons.prems(1) by simp
  from Cons.IH [OF this] k f show ?case by (simp add: c)
qed

text \<open>
  C5. The constructor sets the three counters to zero. Every call of \<open>parse\<close> adds one to
  \<open>totalParsed\<close> and one to exactly one of \<open>successfulParses\<close> (when the call returns) and
  \<open>failedParses\<close> (when it throws); so after any sequence of calls on a new parser
  \<open>totalParsed\<close> is the number of calls and equals \<open>successfulParses + failedParses\<close>.
  \<open>getMetrics\<close> returns a new object with the same counters, at an address other than
  that of the parser's own counters, so writing to it leaves the parser's counters
  unchanged.
\<close>

theorem metrics_counters:
  "totalParsed (heap (new_parser h) ! this_metrics (new_parser h)) = 0 \<and>
   successfulParses (heap (new_parser h) ! this_metrics (new_parser h)) = 0 \<and>
   failedParses (heap (new_parser h) ! this_metrics (new_parser h)) = 0 \<and>
   (this_metrics st < length (heap st) \<longrightarrow>
      this_metrics (snd (parse env st message format)) = this_metrics st \<and>
      totalParsed (heap (snd (parse env st message format)) ! this_metrics st) =
        totalParsed (heap st ! this_metrics st) + 1 \<and>
      successfulParses (heap (snd (parse env st message format)) ! this_metrics st) =
        successfulParses (heap st ! this_metrics st) +
          (if isl (fst (parse env st message format)) then 0 else 1) \<and>
      failedParses (heap (snd (parse env st message format)) ! this_metrics st) =
        failedParses (heap st ! this_metrics st) +
          (if isl (fst (parse env st message format)) then 1 else 0)) \<and>
   totalParsed (heap (parse_calls (new_parser h) calls) ! this_metrics (new_parser h)) =
     length calls \<and>
   totalParsed (heap (parse_calls (new_parser h) calls) ! this_metrics (new_parser h)) =
     successfulParses (heap (parse_calls (new_parser h) calls) ! this_metrics (new_parser h)) +
     failedParses (heap (parse_calls (new_parser h) calls) ! this_metrics (new_parser h)) \<and>
   (this_metrics st < length (heap st) \<longrightarrow>
      heap (snd (getMetrics st)) ! fst (getMetrics st) = heap st ! this_metrics st \<and>
      this_metrics (snd (getMetrics st)) = this_metrics st \<and>
      fst (getMetrics st) \<noteq> this_metrics st \<and>
      (\<forall>x. (heap (snd (getMetrics st)))[fst (getMetrics st) := x] ! this_metrics st =
            heap st ! this_metrics st))"
proof -
  have init: "this_metrics (new_parser h) < length (heap (new_parser h))"
    "totalParsed (heap (new_parser h) ! this_metrics (new_parser h)) = 0"
    "successfulParses (heap (new_parser h) ! this_metrics (new_parser h)) = 0"
    "failedParses (heap (new_parser h) ! this_metrics (new_parser h)) = 0"
    by (simp_all add: new_parser_def)
  have seq: "totalParsed (heap (parse_calls (new_parser h) calls) ! this_metrics (new_parser h)) =
     length calls \<and>
   totalParsed (heap (parse_calls (new_parser h) calls) ! this_metrics (new_parser h)) =
     successfulParses (heap (parse_calls (new_parser h) calls) ! this_metrics (new_parser h)) +
     failedParses (heap (parse_calls (new_parser h) calls) ! this_metrics (new_parser h))"
    using parse_calls_counts [OF init(1), of calls] init(2-4) by simp
  have gm: "this_metrics st < length (heap st) \<Longrightarrow>
      heap (snd (getMetrics st)) ! fst (getMetrics st) = heap st ! this_metrics st \<and>
      this_metrics (snd (getMetrics st)) = this_metrics st \<and>
      fst (getMetrics st) \<noteq> this_metrics st \<and>
      (\<forall>x. (heap (snd (getMetrics st)))[fst (getMetrics st) := x] ! this_metrics st =
            heap st ! this_metrics st)"
    by (simp add: getMetrics_def nth_append)
  show ?thesis
    using init(2-4) seq gm parse_counts [of st env message format]
      parse_frame [of env st message format]
    by blast
qed


theorem metrics_counters_witness:
  "this_metrics (new_parser []) < length (heap (new_parser [])) \<and>
   totalParsed (heap (snd (parse sample_env (new_parser []) (JStr mt103_sample) None)) ! 0) = 1 \<and>
   successfulParses (heap (snd (parse sample_env (new_parser []) (JStr mt103_sample) None)) ! 0) = 1 \<and>
   failedParses (heap (snd (parse sample_env (new_parser []) (JStr mt103_sample) None)) ! 0) = 0 \<and>
   totalParsed (heap (snd (parse sample_env (new_parser []) JNull None)) ! 0) = 1 \<and>
   successfulParses (heap (snd (parse sample_env (new_parser []) JNull None)) ! 0) = 0 \<and>
   failedParses (heap (snd (parse sample_env (new_parser []) JNull None)) ! 0) = 1 \<and>
   fst (getMetrics (new_parser [])) = 1 \<and>
   heap (snd (getMetrics (new_parser []))) ! 1 = heap (new_parser []) ! 0 \<and>
   (heap (snd (getMetrics (new_parser []))))[1 := \<lparr>totalParsed = 7, successfulParses = 7, failedParses = 7\<rparr>] ! 0
     = heap (new_parser []) ! 0"
proof -
  have i: "this_metrics (new_parser []) < length (heap (new_parser []))"
    "this_metrics (new_parser []) = 0"
    by (simp_all add: new_parser_def)
  have ok: "\<not> isl (fst (parse sample_env (new_parser []) (JStr mt103_sample) None))"
    using sample_parse_ok [of "new_parser []"] by auto
  have ko: "isl (fst (parse sample_env (new_parser []) JNull None))"
    by (simp add: parse_def parse_body_def)
  have g: "fst (getMetrics (new_parser [])) = 1" by (simp add: getMetrics_def new_parser_def)
  show ?thesis
    using metrics_counters [of "[]" "new_parser []" sample_env "JStr mt103_sample" None "[]"]
      metrics_counters [of "[]" "new_parser []" sample_env JNull None "[]"] i ok ko g
    by simp
qed

lemma parse_result_indep:
  "fst (parse env st message format) = fst (parse env st' message format)"
  by (simp add: parse_def Let_def split: completion.splits)

lemma batch_loop_results:
  "fst (batch_loop env st results messages) =
     results @ map (\<lambda>m. case fst (parse env st' m None) of
                           Inr result \<Rightarrow> result
                         | Inl e \<Rightarrow> JObj [(''error'', JStr (error_message e)), (''originalMessage'', m)])
                  messages"
proof (induction messages arbitrary: st results)
  case Nil
  then show ?case by simp
next
  case (Cons m ms)
  obtain r st1 where p: "parse env st m None = (r, st1)" by (cases "parse env st m None")
  then have r: "fst (parse env st' m None) = r"
    using parse_result_indep [of env st' m None st] by simp
  show ?case
  proof (cases r)
    case (Inl e)
    then show ?thesis using Cons.IH p r by simp
  next
    case (Inr v)
    then show ?thesis using Cons.IH p r by simp
  qed
qed

text \<open>
  C6. \<open>batchParse\<close> returns an array as long as its input in which slot \<open>i\<close> holds the
  result of \<open>parse(payloads[i])\<close> when that call succeeds and otherwise the object
  \<open>{error: message, originalMessage: payloads[i]}\<close>; what a slot holds does not depend on
  the elements before it, so a failure never stops the elements after it.
\<close>

theorem batchParse_slots:
  "length (fst (batchParse env st messages)) = length messages \<and>
   (\<forall>i < length messages.
      fst (batchParse env st messages) ! i =
        (case fst (parse env st' (messages ! i) None) of
           Inr result \<Rightarrow> result
         | Inl e \<Rightarrow>
             JObj [(''error'', JStr (error_message e)), (''originalMessage'', messages ! i)]))"
  by (simp add: batchParse_def batch_loop_results [of env st "[]" messages st'])


theorem batchParse_slots_witness:
  "length batch_sample = 5 \<and>
   length (fst (batchParse sample_env (new_parser []) batch_sample)) = 5 \<and>
   get (fst (batchParse sample_env (new_parser []) batch_sample) ! 0) ''messageType'' = JStr ''MT103'' \<and>
   fst (batchParse sample_env (new_parser []) batch_sample) ! 1 =
     JObj [(''error'', JStr ''Unsupported message format''), (''originalMessage'', JStr ''bad'')] \<and>
   get (fst (batchParse sample_env (new_parser []) batch_sample) ! 2) ''messageType'' = JStr ''pacs.008'' \<and>
   fst (batchParse sample_env (new_parser []) batch_sample) ! 3 =
     JObj [(''error'', JStr ''Invalid input: message cannot be null or undefined''),
           (''originalMessage'', JNull)] \<and>
   get (fst (batchParse sample_env (new_parser []) batch_sample) ! 4) ''messageType'' = JStr ''MT103''"
proof -
  have l: "length batch_sample = 5" by (simp add: batch_sample_def)
  have n: "batch_sample ! 0 = JStr mt103_sample" "batch_sample ! 1 = JStr ''bad''"
    "batch_sample ! 2 = JStr iso_sample" "batch_sample ! 3 = JNull"
    "batch_sample ! 4 = JStr mt103_sample" "batch_sample ! Suc 0 = JStr ''bad''"
    by (simp_all add: batch_sample_def)
  have nul: "fst (parse sample_env (new_parser []) JNull None) =
      Inl (Error ''Invalid input: message cannot be null or undefined'')"
    by (simp add: parse_def parse_body_def)
  from batchParse_slots [of sample_env "new_parser []" batch_sample "new_parser []"]
  have len: "length (fst (batchParse sample_env (new_parser []) batch_sample)) = 5"
    and slot: "\<And>i. i < 5 \<Longrightarrow> fst (batchParse sample_env (new_parser []) batch_sample) ! i =
        (case fst (parse sample_env (new_parser []) (batch_sample ! i) None) of
           Inr result \<Rightarrow> result
         | Inl e \<Rightarrow>
             JObj [(''error'', JStr (error_message e)), (''originalMessage'', batch_sample ! i)])"
    by (simp_all add: l)
  have s0: "get (fst (batchParse sample_env (new_parser []) batch_sample) ! 0) ''messageType'' = JStr ''MT103''"
    using slot [of 0] sample_parse_ok [of "new_parser []"] by (auto simp: n)
  have s1: "fst (batchParse sample_env (new_parser []) batch_sample) ! 1 =
     JObj [(''error'', JStr ''Unsupported message format''), (''originalMessage'', JStr ''bad'')]"
    using slot [of 1] by (simp add: n bad_parse)
  have s2: "get (fst (batchParse sample_env (new_parser []) batch_sample) ! 2) ''messageType'' = JStr ''pacs.008''"
    using slot [of 2] iso_parse_ok [of "new_parser []"] by (auto simp: n)
  have s3: "fst (batchParse sample_env (new_parser []) batch_sample) ! 3 =
     JObj [(''error'', JStr ''Invalid input: message cannot be null or undefined''),
           (''originalMessage'', JNull)]"
    using slot [of 3] by (simp add: n nul)
  have s4: "get (fst (batchParse sample_env (new_parser []) batch_sample) ! 4) ''messageType'' = JStr ''MT103''"
    using slot [of 4] sample_parse_ok [of "new_parser []"] by (auto simp: n)
  from l len s0 s1 s2 s3 s4 show ?thesis by blast
qed

section \<open>Detection and dispatch\<close>

lemma map_of_put_entry: "map_of (put_entry k v l) = (map_of l)(k \<mapsto> v)"
  by (induction l) (auto simp: fun_eq_iff)

lemma get_put:
  "put obj k v = Inr r \<Longrightarrow> k' \<noteq> k \<Longrightarrow> get r k' = get obj k'"
  by (auto simp: put_def get_def map_of_put_entry split: jsval.splits)

lemma stamp_messageType:
  "stamp env result = Inr r \<Longrightarrow> get r ''messageType'' = get result ''messageType''"
  by (auto simp: stamp_def and_then_def split: sum.splits dest!: get_put [where k' = "''messageType''"])

lemma json_detection_labels:
  "json_detection env s = Inr (Some l) \<Longrightarrow>
     l = ''FISERV_DNA'' \<or> l = ''FIS_JSON'' \<or> l = ''BANCS_JSON'' \<or> l = ''TEMENOS_JSON''"
  by (auto simp: json_detection_def and_then_def split: option.splits sum.splits if_splits)

lemma detectFormat_labels:
  "detectFormat env (JStr s) = Inr l \<Longrightarrow>
     (\<exists>n. l = ''MT'' @ n \<and> header_match s = Some n) \<or>
     l = ''ISO20022'' \<or> l = ''BANCS_XML'' \<or> l = ''FISERV_DNA'' \<or> l = ''FIS_JSON'' \<or>
     l = ''BANCS_JSON'' \<or> l = ''TEMENOS_JSON'' \<or> l = ''TEMENOS_XML'' \<or> l = ''COBOL'' \<or>
     l = ''UNKNOWN''"
  using json_detection_labels [of env s]
  by (auto simp: detectFormat_def split: if_splits option.splits sum.splits)

lemma createStandardizedMessage_messageType:
  "createStandardizedMessage env flds mt = Inr r \<Longrightarrow> get r ''messageType'' = JStr mt"
  by (auto simp: createStandardizedMessage_def and_then_def get_def map_of_put_entry Let_def
      split: option.splits sum.splits if_splits)

lemma SWIFT_parse_messageType:
  "SWIFT_parse env (JStr s) = Inr r \<Longrightarrow>
     \<exists>n. header_match s = Some n \<and> get r ''messageType'' = JStr (''MT'' @ n) \<and>
         ''MT'' @ n \<in> set supportedMessageTypes"
  by (auto simp: SWIFT_parse_def and_then_def extractMessageType_def
      split: if_splits option.splits sum.splits dest: createStandardizedMessage_messageType)


lemma run_Normal: "run x = Normal v \<longleftrightarrow> x = Inr v"
  by (cases x) auto

lemma ISO20022_messageType:
  "ISO20022_parsePacs008 env s = Inr r \<Longrightarrow> get r ''messageType'' = JStr ''pacs.008''"
  by (auto simp: ISO20022_parsePacs008_def rethrow_def get_def split: if_splits)

lemma BANCS_parseXML_messageType:
  "BANCS_parseXML env s = Inr r \<Longrightarrow> get r ''messageType'' = JStr ''BANCS_XML''"
  by (auto simp: BANCS_parseXML_def rethrow_def and_then_def get_def split: if_splits sum.splits)

lemma BANCS_parseJSON_messageType:
  "BANCS_parseJSON env s = Inr r \<Longrightarrow> get r ''messageType'' = JStr ''BANCS_JSON''"
  by (auto simp: BANCS_parseJSON_def rethrow_def and_then_def get_def
      split: if_splits sum.splits option.splits)

lemma FIS_parseJSON_messageType:
  "FIS_parseJSON env s = Inr r \<Longrightarrow> get r ''messageType'' = JStr ''FIS_JSON''"
  by (auto simp: FIS_parseJSON_def rethrow_def and_then_def get_def
      split: if_splits sum.splits option.splits)

lemma Temenos_parseJSON_messageType:
  "Temenos_parseJSON env s = Inr r \<Longrightarrow> get r ''messageType'' = JStr ''TEMENOS_JSON''"
  by (auto simp: Temenos_parseJSON_def rethrow_def and_then_def get_def
      split: if_splits sum.splits option.splits)

lemma Temenos_parseXML_messageType:
  "Temenos_parseXML env s = Inr r \<Longrightarrow> get r ''messageType'' = JStr ''TEMENOS_XML''"
  by (auto simp: Temenos_parseXML_def rethrow_def and_then_def get_def split: if_splits sum.splits)

lemma toUpperCase_MT: "startsWith (toUpperCase (CHR ''M'' # CHR ''T'' # n)) ''MT''"
  by (simp add: toUpperCase_def upper_char_def startsWith_def)

lemma toUpperCase_labels:
  "toUpperCase ''ISO20022'' = ''ISO20022''" "toUpperCase ''BANCS_XML'' = ''BANCS_XML''"
  "toUpperCase ''FIS_JSON'' = ''FIS_JSON''" "toUpperCase ''BANCS_JSON'' = ''BANCS_JSON''"
  "toUpperCase ''TEMENOS_JSON'' = ''TEMENOS_JSON''" "toUpperCase ''TEMENOS_XML'' = ''TEMENOS_XML''"
  "toUpperCase ''COBOL'' = ''COBOL''" "toUpperCase ''UNKNOWN'' = ''UNKNOWN''"
  "toUpperCase ''FISERV_DNA'' = ''FISERV_DNA''"
  by (simp_all add: toUpperCase_def upper_char_def)

lemma dispatch_labels:
  "dispatch env s ''ISO20022'' = run (ISO20022_parsePacs008 env s)"
  "dispatch env s ''BANCS_XML'' = run (BANCS_parseXML env s)"
  "dispatch env s ''FIS_JSON'' = run (FIS_parseJSON env s)"
  "dispatch env s ''BANCS_JSON'' = run (BANCS_parseJSON env s)"
  "dispatch env s ''TEMENOS_JSON'' = run (Temenos_parseJSON env s)"
  "dispatch env s ''TEMENOS_XML'' = run (Temenos_parseXML env s)"
  "dispatch env s ''FISERV_DNA'' = run (FIS_parseFixedWidth env s)"
  by (simp_all add: dispatch_def startsWith_def)

lemma dispatch_no_extractor:
  "dispatch env s ''COBOL'' \<noteq> Normal v" "dispatch env s ''UNKNOWN'' \<noteq> Normal v"
  by (simp_all add: dispatch_def startsWith_def parseCOBOL_def)

lemma dispatch_MT: "startsWith f ''MT'' \<Longrightarrow> dispatch env s f = run (SWIFT_parse env (JStr s))"
  by (simp add: dispatch_def)

lemma parse_success:
  assumes "fst (parse env st message format) = Inr r"
  shows "\<exists>s l result. message = JStr s \<and> trim s \<noteq> [] \<and>
           (case format of None \<Rightarrow> detectFormat env message
            | Some f \<Rightarrow> if f = [] then detectFormat env message else Inr f) = Inr l \<and>
           dispatch env s (toUpperCase l) = Normal result \<and> stamp env result = Inr r"
proof -
  from assms have b: "parse_body env message format = Normal r"
    using parse_body_not_return [of env message format]
    by (auto simp: parse_def Let_def split: completion.splits)
  then show ?thesis
    by (auto simp: parse_body_def run_Normal split: jsval.splits if_splits sum.splits completion.splits)
qed

lemma sample_trim: "trim mt103_sample \<noteq> []"
  by (simp add: mt103_sample_def trim_def is_space_def)

text \<open>
  C1 (amended). When \<open>parse\<close> succeeds on a payload with no format hint and the label
  that \<open>detectFormat\<close> gives the payload is not \<open>FISERV_DNA\<close>, the \<open>messageType\<close> of the
  returned record is that label, except that a payload detected as \<open>ISO20022\<close> yields
  the \<open>messageType\<close> \<open>pacs.008\<close>. As stated, the claim fails on an ISO 20022 payload.
\<close>

theorem parse_messageType_detected:
  assumes "fst (parse env st message None) = Inr r"
    and "detectFormat env message = Inr l"
    and "l \<noteq> ''FISERV_DNA''"
  shows "get r ''messageType'' = JStr (if l = ''ISO20022'' then ''pacs.008'' else l)"
proof -
  from parse_success [OF assms(1)] assms(2)
  obtain s result where m: "message = JStr s"
    and d: "dispatch env s (toUpperCase l) = Normal result"
    and st: "stamp env result = Inr r"
    by auto
  have g: "get r ''messageType'' = get result ''messageType''"
    using st by (rule stamp_messageType)
  have lab: "(\<exists>n. l = ''MT'' @ n \<and> header_match s = Some n) \<or>
     l = ''ISO20022'' \<or> l = ''BANCS_XML'' \<or> l = ''FISERV_DNA'' \<or> l = ''FIS_JSON'' \<or>
     l = ''BANCS_JSON'' \<or> l = ''TEMENOS_JSON'' \<or> l = ''TEMENOS_XML'' \<or> l = ''COBOL'' \<or>
     l = ''UNKNOWN''"
    using detectFormat_labels [of env s l] assms(2) m by simp
  then show ?thesis
  proof (elim disjE exE conjE)
    fix n
    assume mt: "l = ''MT'' @ n" "header_match s = Some n"
    from d have "SWIFT_parse env (JStr s) = Inr result"
      by (simp add: mt(1) dispatch_MT [OF toUpperCase_MT] run_Normal)
    from SWIFT_parse_messageType [OF this] mt show ?thesis by (auto simp: g)
  next
    assume "l = ''ISO20022''"
    with d show ?thesis
      by (simp add: g toUpperCase_labels dispatch_labels run_Normal ISO20022_messageType)
  next
    assume "l = ''BANCS_XML''"
    with d show ?thesis
      by (simp add: g toUpperCase_labels dispatch_labels run_Normal BANCS_parseXML_messageType)
  next
    assume "l = ''FISERV_DNA''"
    with assms(3) show ?thesis by simp
  next
    assume "l = ''FIS_JSON''"
    with d show ?thesis
      by (simp add: g toUpperCase_labels dispatch_labels run_Normal FIS_parseJSON_messageType)
  next
    assume "l = ''BANCS_JSON''"
    with d show ?thesis
      by (simp add: g toUpperCase_labels dispatch_labels run_Normal BANCS_parseJSON_messageType)
  next
    assume "l = ''TEMENOS_JSON''"
    with d show ?thesis
      by (simp add: g toUpperCase_labels dispatch_labels run_Normal Temenos_parseJSON_messageType)
  next
    assume "l = ''TEMENOS_XML''"
    with d show ?thesis
      by (simp add: g toUpperCase_labels dispatch_labels run_Normal Temenos_parseXML_messageType)
  next
    assume "l = ''COBOL''"
    with d show ?thesis by (simp add: toUpperCase_labels dispatch_no_extractor)
  next
    assume "l = ''UNKNOWN''"
    with d show ?thesis by (simp add: toUpperCase_labels dispatch_no_extractor)
  qed
qed

theorem parse_messageType_detected_witness:
  "detectFormat sample_env (JStr mt103_sample) = Inr ''MT103'' \<and> ''MT103'' \<noteq> ''FISERV_DNA'' \<and>
   \<not> isl (fst (parse sample_env (new_parser []) (JStr mt103_sample) None)) \<and>
   get (projr (fst (parse sample_env (new_parser []) (JStr mt103_sample) None))) ''messageType'' =
     JStr ''MT103''"
proof -
  from sample_parse_ok [of "new_parser []"]
  obtain r where r: "fst (parse sample_env (new_parser []) (JStr mt103_sample) None) = Inr r"
    by blast
  have n: "''MT103'' \<noteq> ''FISERV_DNA''" by simp
  from parse_messageType_detected [OF r sample_detect n]
  show ?thesis using r sample_detect by simp
qed

theorem parse_messageType_counterexample:
  "detectFormat sample_env (JStr iso_sample) = Inr ''ISO20022'' \<and>
   \<not> isl (fst (parse sample_env (new_parser []) (JStr iso_sample) None)) \<and>
   get (projr (fst (parse sample_env (new_parser []) (JStr iso_sample) None))) ''messageType'' =
     JStr ''pacs.008'' \<and>
   JStr ''pacs.008'' \<noteq> JStr ''ISO20022''"
  using iso_detect iso_parse_ok [of "new_parser []"] by auto


lemma parse_MT_result:
  assumes "(case format of None \<Rightarrow> detectFormat env (JStr s)
            | Some f \<Rightarrow> if f = [] then detectFormat env (JStr s) else Inr f) = Inr l"
    and "startsWith (toUpperCase l) ''MT''"
    and "trim s \<noteq> []"
  shows "fst (parse env st (JStr s) format) = and_then (SWIFT_parse env (JStr s)) (stamp env)"
proof -
  have "parse_body env (JStr s) format =
          (case run (SWIFT_parse env (JStr s)) of
             Normal result \<Rightarrow> run (stamp env result)
           | Return v \<Rightarrow> Return v
           | Throw e \<Rightarrow> Throw e)"
    using assms by (simp add: parse_body_def dispatch_MT)
  then show ?thesis
    by (cases "SWIFT_parse env (JStr s)"; cases "stamp env (projr (SWIFT_parse env (JStr s)))")
       (simp_all add: parse_def Let_def and_then_def)
qed

text \<open>
  C10 (amended). Whenever the effective format label (the hint, or the detected label
  when there is no hint) begins with \<open>MT\<close> in upper case, \<open>parse\<close> gives the payload to
  the base SWIFT parser and returns what that parser returns, with the timing metadata.
  The base parser reads the type from the payload, not from the label, and accepts only
  MT103 and MT202: so \<open>parse\<close> returns a record exactly for payloads that the base parser
  accepts, whose own header carries 103 or 202 and whose \<open>messageType\<close> is then MT103 or
  MT202. The hints MT515, MT700, MT798, MT950 and MT101, all listed by
  \<open>getSupportedFormats\<close>, are such labels; with one of them \<open>parse\<close> still returns a
  record for an MT103 payload, so it does not always throw.
\<close>

theorem parse_MT_dispatch:
  "((case format of None \<Rightarrow> detectFormat env (JStr s)
     | Some f \<Rightarrow> if f = [] then detectFormat env (JStr s) else Inr f) = Inr l \<and>
    startsWith (toUpperCase l) ''MT'' \<and> trim s \<noteq> [] \<longrightarrow>
      fst (parse env st (JStr s) format) = and_then (SWIFT_parse env (JStr s)) (stamp env) \<and>
      (\<forall>r. fst (parse env st (JStr s) format) = Inr r \<longrightarrow>
         (header_match s = Some ''103'' \<and> get r ''messageType'' = JStr ''MT103'') \<or>
         (header_match s = Some ''202'' \<and> get r ''messageType'' = JStr ''MT202''))) \<and>
   (h \<in> {''MT515'', ''MT700'', ''MT798'', ''MT950'', ''MT101''} \<longrightarrow>
      h \<in> set getSupportedFormats \<and> h \<noteq> [] \<and> startsWith (toUpperCase h) ''MT'')"
proof (intro conjI impI)
  assume a: "(case format of None \<Rightarrow> detectFormat env (JStr s)
     | Some f \<Rightarrow> if f = [] then detectFormat env (JStr s) else Inr f) = Inr l \<and>
    startsWith (toUpperCase l) ''MT'' \<and> trim s \<noteq> []"
  then show p: "fst (parse env st (JStr s) format) = and_then (SWIFT_parse env (JStr s)) (stamp env)"
    using parse_MT_result [where format = format and env = env and s = s and l = l and st = st] by simp
  show "\<forall>r. fst (parse env st (JStr s) format) = Inr r \<longrightarrow>
         (header_match s = Some ''103'' \<and> get r ''messageType'' = JStr ''MT103'') \<or>
         (header_match s = Some ''202'' \<and> get r ''messageType'' = JStr ''MT202'')"
  proof (intro allI impI)
    fix r
    assume "fst (parse env st (JStr s) format) = Inr r"
    with p obtain result where sw: "SWIFT_parse env (JStr s) = Inr result"
      and st: "stamp env result = Inr r"
      by (auto simp: and_then_def split: sum.splits)
    from SWIFT_parse_messageType [OF sw] obtain n where n: "header_match s = Some n"
      "get result ''messageType'' = JStr (''MT'' @ n)" "''MT'' @ n \<in> set supportedMessageTypes"
      by blast
    from n(3) have "n = ''103'' \<or> n = ''202''" by (simp add: supportedMessageTypes_def)
    with n stamp_messageType [OF st]
    show "(header_match s = Some ''103'' \<and> get r ''messageType'' = JStr ''MT103'') \<or>
         (header_match s = Some ''202'' \<and> get r ''messageType'' = JStr ''MT202'')"
      by auto
  qed
next
  assume "h \<in> {''MT515'', ''MT700'', ''MT798'', ''MT950'', ''MT101''}"
  then show "h \<in> set getSupportedFormats" by (auto simp: getSupportedFormats_def)
next
  assume "h \<in> {''MT515'', ''MT700'', ''MT798'', ''MT950'', ''MT101''}"
  then show "h \<noteq> []" by auto
next
  assume "h \<in> {''MT515'', ''MT700'', ''MT798'', ''MT950'', ''MT101''}"
  then show "startsWith (toUpperCase h) ''MT''"
    by (auto simp: toUpperCase_def upper_char_def startsWith_def)
qed

theorem parse_MT_dispatch_witness:
  "''MT700'' \<in> {''MT515'', ''MT700'', ''MT798'', ''MT950'', ''MT101''} \<and>
   ''MT700'' \<in> set getSupportedFormats \<and> startsWith (toUpperCase ''MT700'') ''MT'' \<and>
   trim mt103_sample \<noteq> [] \<and>
   fst (parse sample_env (new_parser []) (JStr mt103_sample) (Some ''MT700'')) =
     stamp sample_env mt103_record \<and>
   header_match mt103_sample = Some ''103'' \<and>
   get (projr (fst (parse sample_env (new_parser []) (JStr mt103_sample) (Some ''MT700''))))
     ''messageType'' = JStr ''MT103''"
proof -
  have m: "''MT700'' \<in> {''MT515'', ''MT700'', ''MT798'', ''MT950'', ''MT101''}" by simp
  from parse_MT_dispatch [where format = "Some ''MT700''" and env = sample_env and s = mt103_sample
      and l = "''MT700''" and st = "new_parser []" and h = "''MT700''"] m
  have u: "''MT700'' \<in> set getSupportedFormats" "startsWith (toUpperCase ''MT700'') ''MT''"
    by blast+
  from sample_stamp obtain r where r: "stamp sample_env mt103_record = Inr r"
    "get r ''messageType'' = JStr ''MT103''" by blast
  from parse_MT_dispatch [where format = "Some ''MT700''" and env = sample_env and s = mt103_sample
      and l = "''MT700''" and st = "new_parser []" and h = "''MT700''"]
    u(2) sample_trim
  have p: "fst (parse sample_env (new_parser []) (JStr mt103_sample) (Some ''MT700'')) =
      and_then (SWIFT_parse sample_env (JStr mt103_sample)) (stamp sample_env)"
    by simp
  then have q: "fst (parse sample_env (new_parser []) (JStr mt103_sample) (Some ''MT700'')) =
     stamp sample_env mt103_record"
    by (simp add: sample_SWIFT_parse and_then_def)
  from m u sample_trim q sample_header r show ?thesis by simp
qed

theorem parse_MT_hint_counterexample:
  "''MT515'' \<in> set getSupportedFormats \<and>
   \<not> isl (fst (parse sample_env (new_parser []) (JStr mt103_sample) (Some ''MT515''))) \<and>
   get (projr (fst (parse sample_env (new_parser []) (JStr mt103_sample) (Some ''MT515''))))
     ''messageType'' = JStr ''MT103''"
proof -
  have u: "toUpperCase ''MT515'' = ''MT515''" by (simp add: toUpperCase_def upper_char_def)
  have b: "parse_body sample_env (JStr mt103_sample) (Some ''MT515'') =
      run (stamp sample_env mt103_record)"
    by (simp add: parse_body_def sample_trim u dispatch_def startsWith_def sample_SWIFT_parse)
  from sample_stamp obtain r where r: "stamp sample_env mt103_record = Inr r"
    "get r ''messageType'' = JStr ''MT103''" by blast
  have "fst (parse sample_env (new_parser []) (JStr mt103_sample) (Some ''MT515'')) = Inr r"
    by (simp add: parse_def Let_def b r(1))
  with r(2) show ?thesis by (simp add: getSupportedFormats_def)
qed

section \<open>Properties of the Temenos parser\<close>

lemma str_includes_char: "str_includes s [c] \<longleftrightarrow> c \<in> set s"
  by (induction s) (auto simp: startsWith_def)

lemma split_not_empty: "split c s \<noteq> []"
  by (induction s) (auto split: list.splits)

lemma split_hd: "hd (split c s) = takeWhile (\<lambda>x. x \<noteq> c) s"
  by (induction s) (auto split: list.splits simp: split_not_empty)

lemma split_first:
  "c \<in> set s \<Longrightarrow>
     split c s = takeWhile (\<lambda>x. x \<noteq> c) s # split c (tl (dropWhile (\<lambda>x. x \<noteq> c) s))"
  by (induction s) (auto split: list.splits simp: split_not_empty)

lemma split_two:
  assumes "c \<in> set s"
  shows "\<exists>rest. split c s =
           takeWhile (\<lambda>x. x \<noteq> c) s #
           takeWhile (\<lambda>x. x \<noteq> c) (tl (dropWhile (\<lambda>x. x \<noteq> c) s)) # rest"
proof -
  let ?r = "tl (dropWhile (\<lambda>x. x \<noteq> c) s)"
  obtain y ys where y: "split c ?r = y # ys" using split_not_empty [of c ?r] by (cases "split c ?r") auto
  then have "y = takeWhile (\<lambda>x. x \<noteq> c) ?r" using split_hd [of c ?r] by simp
  with y split_first [OF assms] show ?thesis by simp
qed

lemma T24_line_eq:
  "T24_line flds line =
     Inr (if CHR ''='' \<in> set line \<and> trim (takeWhile (\<lambda>x. x \<noteq> CHR ''='') line) \<noteq> ''__proto__''
          then flds(trim (takeWhile (\<lambda>x. x \<noteq> CHR ''='') line) \<mapsto>
                    trim (takeWhile (\<lambda>x. x \<noteq> CHR ''='')
                            (tl (dropWhile (\<lambda>x. x \<noteq> CHR ''='') line))))
          else flds)"
proof (cases "CHR ''='' \<in> set line")
  case True
  from split_two [OF True] obtain rest where
    "split CHR ''='' line =
       takeWhile (\<lambda>x. x \<noteq> CHR ''='') line #
       takeWhile (\<lambda>x. x \<noteq> CHR ''='') (tl (dropWhile (\<lambda>x. x \<noteq> CHR ''='') line)) # rest"
    by blast
  with True show ?thesis by (simp add: T24_line_def str_includes_char)
next
  case False
  then show ?thesis by (simp add: T24_line_def str_includes_char)
qed

lemma T24_fields_total: "\<exists>m. T24_fields flds lines = Inr m"
  by (induction lines arbitrary: flds) (simp_all add: T24_line_eq and_then_def)


lemma T24_fields_foldl:
  "T24_fields flds lines = Inr (foldl (\<lambda>f l. projr (T24_line f l)) flds lines)"
  by (induction lines arbitrary: flds) (simp_all add: T24_line_eq and_then_def)


lemma T24_line_key:
  "CHR ''='' \<in> set line \<Longrightarrow>
      \<exists>v. T24_line flds line =
         Inr (if trim (takeWhile (\<lambda>x. x \<noteq> CHR ''='') line) = ''__proto__'' then flds
              else flds(trim (takeWhile (\<lambda>x. x \<noteq> CHR ''='') line) \<mapsto> v))"
  by (rule exI [of _ "trim (takeWhile (\<lambda>x. x \<noteq> CHR ''='')
                            (tl (dropWhile (\<lambda>x. x \<noteq> CHR ''='') line)))"])
     (simp add: T24_line_eq)

lemma T24_line_single:
  assumes "CHR ''='' \<in> set line"
    and "CHR ''='' \<notin> set (tl (dropWhile (\<lambda>x. x \<noteq> CHR ''='') line))"
  shows "T24_line flds line =
        Inr (if trim (takeWhile (\<lambda>x. x \<noteq> CHR ''='') line) = ''__proto__'' then flds
             else flds(trim (takeWhile (\<lambda>x. x \<noteq> CHR ''='') line) \<mapsto>
                       trim (tl (dropWhile (\<lambda>x. x \<noteq> CHR ''='') line))))"
proof -
  have e: "takeWhile (\<lambda>x. x \<noteq> CHR ''='') (tl (dropWhile (\<lambda>x. x \<noteq> CHR ''='') line)) =
        tl (dropWhile (\<lambda>x. x \<noteq> CHR ''='') line)"
    using assms(2) by (intro takeWhile_eq_all_conv [THEN iffD2]) auto
  show ?thesis unfolding T24_line_eq e using assms(1) by simp
qed

lemma parseT24_result:
  "T24_fields Map.empty (split CHR 0x0A p) = Inr m \<Longrightarrow> Temenos_parseT24 env p =
      (if falsy_entry (m ''TXN.REF'') then
         Inl (Error ''Temenos T24 parsing failed: Invalid Temenos T24: missing TXN.REF'')
       else Inr (JObj
            [(''messageType'', JStr ''TEMENOS_T24''),
             (''transactionReference'', opt_str (m ''TXN.REF'')),
             (''amount'', JNum (parseFloat_opt (m ''AMOUNT''))),
             (''currency'', opt_str (m ''CURRENCY'')),
             (''valueDate'', opt_str (m ''VALUE.DATE'')),
             (''debitAccount'', opt_str (m ''DEBIT.ACCT'')),
             (''creditAccount'', opt_str (m ''CREDIT.ACCT'')),
             (''narrative'', opt_str (m ''NARRATIVE'')),
             (''customerNumber'', opt_str (m ''CUSTOMER.NO'')),
             (''productCode'', opt_str (m ''PRODUCT.CODE'')),
             (''timestamp'', JStr (now_iso env)),
             (''parseMetadata'', JObj
                [(''parseId'', JStr (uuidv4 env)),
                 (''parser'', JStr ''TEMENOS''),
                 (''format'', JStr ''T24'')])]))"
    by (simp add: Temenos_parseT24_def and_then_def rethrow_def)

lemma parseT24_outcome:
  assumes "T24_fields Map.empty (split CHR 0x0A p) = Inr m"
  shows "(isl (Temenos_parseT24 env p) \<longleftrightarrow> m ''TXN.REF'' = None \<or> m ''TXN.REF'' = Some []) \<and>
        (isl (Temenos_parseT24 env p) \<longrightarrow>
           Temenos_parseT24 env p =
             Inl (Error ''Temenos T24 parsing failed: Invalid Temenos T24: missing TXN.REF'')) \<and>
        (\<not> isl (Temenos_parseT24 env p) \<longrightarrow>
           get (projr (Temenos_parseT24 env p)) ''messageType'' = JStr ''TEMENOS_T24'' \<and>
           get (projr (Temenos_parseT24 env p)) ''transactionReference'' = opt_str (m ''TXN.REF'') \<and>
           get (projr (Temenos_parseT24 env p)) ''narrative'' = opt_str (m ''NARRATIVE''))"
  unfolding parseT24_result [OF assms] by (simp add: falsy_entry_def get_def)

text \<open>
  C9 (amended). \<open>parseT24\<close> splits the payload into lines and goes through them in
  order. A line without \<open>=\<close> changes nothing. A line with \<open>=\<close> stores a value under the
  key that is the trimmed text before the first \<open>=\<close> (the key \<open>__proto__\<close> apart, which
  stores nothing); when the line has exactly one \<open>=\<close>, the value is the entire trimmed
  remainder after it. The result is a flat mapping in which a later line replaces an
  earlier one with the same key. \<open>parseT24\<close> fails, with the "missing TXN.REF" error,
  exactly when \<open>TXN.REF\<close> is absent from the mapping or mapped to the empty text;
  otherwise the record takes its fields from the mapping. As stated, the claim fails on
  the line \<open>NARRATIVE=A=B\<close>, which yields the narrative \<open>A\<close>, and on \<open>TXN.REF=\<close>.
\<close>

theorem Temenos_parseT24_mapping:
  "(CHR ''='' \<notin> set line \<longrightarrow> T24_line flds line = Inr flds) \<and>
   (CHR ''='' \<in> set line \<longrightarrow>
      (\<exists>v. T24_line flds line =
         Inr (if trim (takeWhile (\<lambda>x. x \<noteq> CHR ''='') line) = ''__proto__'' then flds
              else flds(trim (takeWhile (\<lambda>x. x \<noteq> CHR ''='') line) \<mapsto> v)))) \<and>
   (CHR ''='' \<in> set line \<and> CHR ''='' \<notin> set (tl (dropWhile (\<lambda>x. x \<noteq> CHR ''='') line)) \<longrightarrow>
      T24_line flds line =
        Inr (if trim (takeWhile (\<lambda>x. x \<noteq> CHR ''='') line) = ''__proto__'' then flds
             else flds(trim (takeWhile (\<lambda>x. x \<noteq> CHR ''='') line) \<mapsto>
                       trim (tl (dropWhile (\<lambda>x. x \<noteq> CHR ''='') line))))) \<and>
   (\<exists>m. T24_fields Map.empty (split CHR 0x0A p) = Inr m \<and>
        m = foldl (\<lambda>f l. projr (T24_line f l)) Map.empty (split CHR 0x0A p) \<and>
        (isl (Temenos_parseT24 env p) \<longleftrightarrow> m ''TXN.REF'' = None \<or> m ''TXN.REF'' = Some []) \<and>
        (isl (Temenos_parseT24 env p) \<longrightarrow>
           Temenos_parseT24 env p =
             Inl (Error ''Temenos T24 parsing failed: Invalid Temenos T24: missing TXN.REF'')) \<and>
        (\<not> isl (Temenos_parseT24 env p) \<longrightarrow>
           get (projr (Temenos_parseT24 env p)) ''messageType'' = JStr ''TEMENOS_T24'' \<and>
           get (projr (Temenos_parseT24 env p)) ''transactionReference'' = opt_str (m ''TXN.REF'') \<and>
           get (projr (Temenos_parseT24 env p)) ''narrative'' = opt_str (m ''NARRATIVE'')))"
proof (intro conjI)
  show "CHR ''='' \<notin> set line \<longrightarrow> T24_line flds line = Inr flds"
    by (simp add: T24_line_eq)
  show "CHR ''='' \<in> set line \<longrightarrow>
      (\<exists>v. T24_line flds line =
         Inr (if trim (takeWhile (\<lambda>x. x \<noteq> CHR ''='') line) = ''__proto__'' then flds
              else flds(trim (takeWhile (\<lambda>x. x \<noteq> CHR ''='') line) \<mapsto> v)))"
    by (rule impI) (rule T24_line_key)
  show "CHR ''='' \<in> set line \<and> CHR ''='' \<notin> set (tl (dropWhile (\<lambda>x. x \<noteq> CHR ''='') line)) \<longrightarrow>
      T24_line flds line =
        Inr (if trim (takeWhile (\<lambda>x. x \<noteq> CHR ''='') line) = ''__proto__'' then flds
             else flds(trim (takeWhile (\<lambda>x. x \<noteq> CHR ''='') line) \<mapsto>
                       trim (tl (dropWhile (\<lambda>x. x \<noteq> CHR ''='') line))))"
    by (rule impI, erule conjE) (rule T24_line_single)
  let ?m = "foldl (\<lambda>f l. projr (T24_line f l)) Map.empty (split CHR 0x0A p)"
  have f: "T24_fields Map.empty (split CHR 0x0A p) = Inr ?m"
    by (rule T24_fields_foldl)
  show "\<exists>m. T24_fields Map.empty (split CHR 0x0A p) = Inr m \<and>
        m = foldl (\<lambda>f l. projr (T24_line f l)) Map.empty (split CHR 0x0A p) \<and>
        (isl (Temenos_parseT24 env p) \<longleftrightarrow> m ''TXN.REF'' = None \<or> m ''TXN.REF'' = Some []) \<and>
        (isl (Temenos_parseT24 env p) \<longrightarrow>
           Temenos_parseT24 env p =
             Inl (Error ''Temenos T24 parsing failed: Invalid Temenos T24: missing TXN.REF'')) \<and>
        (\<not> isl (Temenos_parseT24 env p) \<longrightarrow>
           get (projr (Temenos_parseT24 env p)) ''messageType'' = JStr ''TEMENOS_T24'' \<and>
           get (projr (Temenos_parseT24 env p)) ''transactionReference'' = opt_str (m ''TXN.REF'') \<and>
           get (projr (Temenos_parseT24 env p)) ''narrative'' = opt_str (m ''NARRATIVE''))"
    by (rule exI [of _ ?m], rule conjI, rule f, rule conjI, rule refl, rule parseT24_outcome [OF f])
qed

lemma t24_sample_eval:
  "Temenos_parseT24 sample_env t24_sample = Inr (JObj
     [(''messageType'', JStr ''TEMENOS_T24''),
      (''transactionReference'', JStr ''TMN1''),
      (''amount'', JNum NaN),
      (''currency'', JUndefined),
      (''valueDate'', JUndefined),
      (''debitAccount'', JUndefined),
      (''creditAccount'', JUndefined),
      (''narrative'', JStr ''A''),
      (''customerNumber'', JUndefined),
      (''productCode'', JUndefined),
      (''timestamp'', JStr ''2024-07-01T10:00:00.000Z''),
      (''parseMetadata'', JObj
         [(''parseId'', JStr ''00000000-0000-4000-8000-000000000000''),
          (''parser'', JStr ''TEMENOS''),
          (''format'', JStr ''T24'')])])"
  by (simp add: Temenos_parseT24_def t24_sample_def T24_line_def startsWith_def trim_def is_space_def
      and_then_def rethrow_def falsy_entry_def parseFloat_opt_def sample_env_def)

theorem Temenos_parseT24_counterexample:
  "get (projr (Temenos_parseT24 sample_env ''TXN.REF=TMN1\<newline>NARRATIVE=A=B'')) ''narrative'' = JStr ''A'' \<and>
   JStr ''A'' \<noteq> JStr ''A=B'' \<and>
   projr (T24_fields Map.empty (split CHR 0x0A ''TXN.REF='')) ''TXN.REF'' = Some [] \<and>
   isl (Temenos_parseT24 sample_env ''TXN.REF='')"
proof -
  have a: "get (projr (Temenos_parseT24 sample_env ''TXN.REF=TMN1\<newline>NARRATIVE=A=B'')) ''narrative'' = JStr ''A''"
    using t24_sample_eval by (simp add: t24_sample_def get_def)
  have b: "projr (T24_fields Map.empty (split CHR 0x0A ''TXN.REF='')) ''TXN.REF'' = Some []"
    by (simp add: T24_line_def startsWith_def trim_def is_space_def and_then_def)
  have c: "isl (Temenos_parseT24 sample_env ''TXN.REF='')"
    by (simp add: Temenos_parseT24_def T24_line_def startsWith_def trim_def is_space_def
      and_then_def rethrow_def falsy_entry_def)
  from a b c show ?thesis by simp
qed

theorem Temenos_parseT24_mapping_witness:
  "CHR ''='' \<notin> set ''no separator'' \<and>
   T24_line Map.empty ''no separator'' = Inr Map.empty \<and>
   CHR ''='' \<in> set '' AMOUNT = 4500.00 '' \<and>
   CHR ''='' \<notin> set (tl (dropWhile (\<lambda>x. x \<noteq> CHR ''='') '' AMOUNT = 4500.00 '')) \<and>
   T24_line Map.empty '' AMOUNT = 4500.00 '' = Inr [''AMOUNT'' \<mapsto> ''4500.00''] \<and>
   \<not> isl (Temenos_parseT24 sample_env t24_sample) \<and>
   get (projr (Temenos_parseT24 sample_env t24_sample)) ''transactionReference'' = JStr ''TMN1'' \<and>
   isl (Temenos_parseT24 sample_env ''AMOUNT=1'')"
proof -
  have h1: "CHR ''='' \<notin> set ''no separator''" by simp
  have h2: "CHR ''='' \<in> set '' AMOUNT = 4500.00 ''"
    "CHR ''='' \<notin> set (tl (dropWhile (\<lambda>x. x \<noteq> CHR ''='') '' AMOUNT = 4500.00 ''))"
    by simp_all
  have k: "trim (takeWhile (\<lambda>x. x \<noteq> CHR ''='') '' AMOUNT = 4500.00 '') = ''AMOUNT''"
    "trim (tl (dropWhile (\<lambda>x. x \<noteq> CHR ''='') '' AMOUNT = 4500.00 '')) = ''4500.00''"
    by (simp_all add: trim_def is_space_def)
  from Temenos_parseT24_mapping [of "''no separator''" Map.empty _ sample_env] h1
  have w1: "T24_line Map.empty ''no separator'' = Inr Map.empty" by blast
  from Temenos_parseT24_mapping [of "'' AMOUNT = 4500.00 ''" Map.empty _ sample_env] h2
  have "T24_line Map.empty '' AMOUNT = 4500.00 '' =
        Inr (if trim (takeWhile (\<lambda>x. x \<noteq> CHR ''='') '' AMOUNT = 4500.00 '') = ''__proto__'' then Map.empty
             else Map.empty(trim (takeWhile (\<lambda>x. x \<noteq> CHR ''='') '' AMOUNT = 4500.00 '') \<mapsto>
                       trim (tl (dropWhile (\<lambda>x. x \<noteq> CHR ''='') '' AMOUNT = 4500.00 ''))))"
    by blast
  then have w2: "T24_line Map.empty '' AMOUNT = 4500.00 '' = Inr [''AMOUNT'' \<mapsto> ''4500.00'']"
    unfolding k by simp
  have ok: "\<not> isl (Temenos_parseT24 sample_env t24_sample)"
    "get (projr (Temenos_parseT24 sample_env t24_sample)) ''transactionReference'' = JStr ''TMN1''"
    using t24_sample_eval by (simp_all add: get_def)
  from Temenos_parseT24_mapping [of _ _ "''AMOUNT=1''" sample_env]
  obtain m where m: "m = foldl (\<lambda>f l. projr (T24_line f l)) Map.empty (split CHR 0x0A ''AMOUNT=1'')"
    "isl (Temenos_parseT24 sample_env ''AMOUNT=1'') \<longleftrightarrow> m ''TXN.REF'' = None \<or> m ''TXN.REF'' = Some []"
    by blast
  have "m ''TXN.REF'' = None"
    unfolding m(1) by (simp add: T24_line_def startsWith_def trim_def is_space_def)
  with m(2) have w3: "isl (Temenos_parseT24 sample_env ''AMOUNT=1'')" by simp
  from h1 w1 h2 w2 ok w3 show ?thesis by blast
qed

section \<open>Properties of the SWIFT parser\<close>

lemma startsWith_iff: "startsWith s p \<longleftrightarrow> (\<exists>r. s = p @ r)"
  unfolding startsWith_def
  by (metis append_eq_conv_conj append_take_drop_id)

lemma header_at_iff:
  "header_at s = Some n \<longleftrightarrow> (\<exists>post. s = ''{2:I'' @ n @ post \<and> length n = 3 \<and> list_all is_digit n)"
proof
  assume "header_at s = Some n"
  then have a: "startsWith s ''{2:I''" "length (substring s 4 7) = 3" "list_all is_digit (substring s 4 7)"
    "n = substring s 4 7"
    by (auto simp: header_at_def split: if_splits)
  from a(1) obtain r where r: "s = ''{2:I'' @ r" unfolding startsWith_iff by blast
  then have "n = take 3 r" using a(4) by (simp add: substring_def)
  then have "r = n @ drop 3 r" by simp
  with r a show "\<exists>post. s = ''{2:I'' @ n @ post \<and> length n = 3 \<and> list_all is_digit n"
    by (metis append_assoc)
next
  assume "\<exists>post. s = ''{2:I'' @ n @ post \<and> length n = 3 \<and> list_all is_digit n"
  then obtain post where "s = ''{2:I'' @ n @ post" "length n = 3" "list_all is_digit n" by blast
  then show "header_at s = Some n"
    by (simp add: header_at_def startsWith_def substring_def)
qed

lemma header_at_None_iff:
  "header_at s = None \<longleftrightarrow> (\<forall>n post. s = ''{2:I'' @ n @ post \<longrightarrow> length n = 3 \<longrightarrow> \<not> list_all is_digit n)"
proof (cases "header_at s")
  case None
  then show ?thesis using header_at_iff [of s] by (metis option.distinct(1))
next
  case (Some a)
  then have "\<exists>post. s = ''{2:I'' @ a @ post \<and> length a = 3 \<and> list_all is_digit a"
    using header_at_iff [of s a] by simp
  with Some show ?thesis by auto
qed

lemma header_match_None_iff:
  "header_match s = None \<longleftrightarrow>
     (\<forall>pre n post. s = pre @ ''{2:I'' @ n @ post \<longrightarrow> length n = 3 \<longrightarrow> \<not> list_all is_digit n)"
proof (induction s)
  case Nil
  then show ?case by simp
next
  case (Cons c cs)
  show ?case
  proof
    assume h: "header_match (c # cs) = None"
    then have a: "header_at (c # cs) = None" and b: "header_match cs = None"
      by (auto split: option.splits)
    show "\<forall>pre n post. c # cs = pre @ ''{2:I'' @ n @ post \<longrightarrow> length n = 3 \<longrightarrow> \<not> list_all is_digit n"
    proof (intro allI impI)
      fix pre n post
      assume e: "c # cs = pre @ ''{2:I'' @ n @ post" and l: "length n = 3"
      show "\<not> list_all is_digit n"
      proof (cases pre)
        case Nil
        with e a l show ?thesis unfolding header_at_None_iff by auto
      next
        case (Cons x xs)
        with e have "cs = xs @ ''{2:I'' @ n @ post" by simp
        with b l Cons.IH show ?thesis by blast
      qed
    qed
  next
    assume r: "\<forall>pre n post. c # cs = pre @ ''{2:I'' @ n @ post \<longrightarrow> length n = 3 \<longrightarrow> \<not> list_all is_digit n"
    have a: "header_at (c # cs) = None"
      unfolding header_at_None_iff using r [rule_format, of "[]"] by auto
    have "\<forall>pre n post. cs = pre @ ''{2:I'' @ n @ post \<longrightarrow> length n = 3 \<longrightarrow> \<not> list_all is_digit n"
    proof (intro allI impI)
      fix pre n post
      assume "cs = pre @ ''{2:I'' @ n @ post" and l: "length n = 3"
      then have "c # cs = (c # pre) @ ''{2:I'' @ n @ post" by simp
      with r l show "\<not> list_all is_digit n" by blast
    qed
    then have b: "header_match cs = None" using Cons.IH by simp
    from a b show "header_match (c # cs) = None" by simp
  qed
qed

lemma header_match_Some:
  "header_match s = Some n \<Longrightarrow>
     \<exists>pre post. s = pre @ ''{2:I'' @ n @ post \<and> length n = 3 \<and> list_all is_digit n"
proof (induction s)
  case Nil
  then show ?case by simp
next
  case (Cons c cs)
  show ?case
  proof (cases "header_at (c # cs)")
    case None
    with Cons.prems have "header_match cs = Some n" by simp
    from Cons.IH [OF this] obtain pre post where
      "cs = pre @ ''{2:I'' @ n @ post" "length n = 3" "list_all is_digit n" by blast
    then have "c # cs = (c # pre) @ ''{2:I'' @ n @ post \<and> length n = 3 \<and> list_all is_digit n"
      by simp
    then show ?thesis by blast
  next
    case (Some d)
    with Cons.prems have "d = n" by simp
    with Some header_at_iff [of "c # cs" n] obtain post where
      "c # cs = [] @ ''{2:I'' @ n @ post \<and> length n = 3 \<and> list_all is_digit n" by auto
    then show ?thesis by blast
  qed
qed

lemma text_block_at_iff:
  "startsWith s ''{4:'' \<and> CHR ''}'' \<in> set (drop 3 s) \<longleftrightarrow>
     (\<exists>mid post. s = ''{4:'' @ mid @ ''}'' @ post)"
proof
  assume a: "startsWith s ''{4:'' \<and> CHR ''}'' \<in> set (drop 3 s)"
  then obtain r where r: "s = ''{4:'' @ r" unfolding startsWith_iff by blast
  with a have "CHR ''}'' \<in> set r" by simp
  then obtain mid post where "r = mid @ CHR ''}'' # post" by (meson split_list)
  with r show "\<exists>mid post. s = ''{4:'' @ mid @ ''}'' @ post" by auto
next
  assume "\<exists>mid post. s = ''{4:'' @ mid @ ''}'' @ post"
  then show "startsWith s ''{4:'' \<and> CHR ''}'' \<in> set (drop 3 s)"
    by (auto simp: startsWith_def)
qed

lemma text_block_match_None_iff:
  "text_block_match s = None \<longleftrightarrow> (\<forall>pre mid post. s \<noteq> pre @ ''{4:'' @ mid @ ''}'' @ post)"
proof (induction s)
  case Nil
  then show ?case by simp
next
  case (Cons c cs)
  show ?case
  proof
    assume h: "text_block_match (c # cs) = None"
    then have a: "\<not> (startsWith (c # cs) ''{4:'' \<and> CHR ''}'' \<in> set (drop 3 (c # cs)))"
      and b: "text_block_match cs = None"
      by (auto split: if_splits)
    show "\<forall>pre mid post. c # cs \<noteq> pre @ ''{4:'' @ mid @ ''}'' @ post"
    proof (intro allI notI)
      fix pre mid post
      assume e: "c # cs = pre @ ''{4:'' @ mid @ ''}'' @ post"
      show False
      proof (cases pre)
        case Nil
        with e a show ?thesis unfolding text_block_at_iff by auto
      next
        case (Cons x xs)
        with e have "cs = xs @ ''{4:'' @ mid @ ''}'' @ post" by simp
        with b Cons.IH show ?thesis by blast
      qed
    qed
  next
    assume r: "\<forall>pre mid post. c # cs \<noteq> pre @ ''{4:'' @ mid @ ''}'' @ post"
    have a: "\<not> (startsWith (c # cs) ''{4:'' \<and> CHR ''}'' \<in> set (drop 3 (c # cs)))"
      unfolding text_block_at_iff using r [rule_format, of "[]"] by auto
    have "\<forall>pre mid post. cs \<noteq> pre @ ''{4:'' @ mid @ ''}'' @ post"
    proof (intro allI notI)
      fix pre mid post
      assume "cs = pre @ ''{4:'' @ mid @ ''}'' @ post"
      then have "c # cs = (c # pre) @ ''{4:'' @ mid @ ''}'' @ post" by simp
      with r show False by blast
    qed
    then have b: "text_block_match cs = None" using Cons.IH by simp
    from a b show "text_block_match (c # cs) = None" by simp
  qed
qed


lemma store_fields_total: "\<exists>r. store_fields (Some defs) flds ms = Inr r"
  by (induction ms arbitrary: flds) (auto split: option.splits)

lemma parseFields_supported:
  assumes "n = ''103'' \<or> n = ''202''"
  shows "(text_block_match s = None \<longrightarrow>
           parseFields s (''MT'' @ n) =
             Inl (Error ''Invalid SWIFT message format: missing text block'')) \<and>
         (\<forall>tb. text_block_match s = Some tb \<and> field_matches tb = [] \<longrightarrow>
           parseFields s (''MT'' @ n) = Inl (Error ''No valid fields found in message'')) \<and>
         (\<forall>tb. text_block_match s = Some tb \<and> field_matches tb \<noteq> [] \<longrightarrow>
           (\<exists>flds. parseFields s (''MT'' @ n) = Inr flds))"
proof -
  from assms obtain defs where d: "map_of SWIFT_FIELDS (''MT'' @ n) = Some defs"
    by (auto simp: SWIFT_FIELDS_def)
  show ?thesis
    using store_fields_total [of defs "[]"]
    by (simp add: parseFields_def d del: append.simps)
qed

lemma check_required_ok:
  "(\<forall>t \<in> set rs. map_of flds t \<noteq> None) \<Longrightarrow> check_required flds mt rs = Inr ()"
  by (induction rs) auto

lemma check_required_missing:
  "\<exists>t \<in> set rs. map_of flds t = None \<Longrightarrow>
     \<exists>t \<in> set rs. map_of flds t = None \<and>
       check_required flds mt rs = Inl (Error (''Missing required field: '' @ t @ '' for '' @ mt))"
  by (induction rs) auto

lemma required_32A:
  assumes "n = ''103'' \<or> n = ''202''"
    and "\<forall>t \<in> set (getRequiredFields (''MT'' @ n)). map_of flds t \<noteq> None"
  shows "\<exists>c. content_of flds ''32A'' = Some c"
proof -
  from assms(1) have "''32A'' \<in> set (getRequiredFields (''MT'' @ n))"
    by (auto simp: getRequiredFields_def)
  with assms(2) show ?thesis by (auto simp: content_of_def)
qed

lemma createStandardizedMessage_32A:
  assumes "n = ''103'' \<or> n = ''202''" and "content_of flds ''32A'' = Some c"
  shows "(\<not> amount_pattern c \<longrightarrow>
            createStandardizedMessage env flds (''MT'' @ n) =
              Inl (Error (''Invalid amount field format: '' @ c))) \<and>
         (amount_pattern c \<longrightarrow>
            (\<exists>r. createStandardizedMessage env flds (''MT'' @ n) = Inr r \<and>
                 get r ''messageType'' = JStr (''MT'' @ n)))"
proof (intro conjI impI)
  assume "\<not> amount_pattern c"
  then show "createStandardizedMessage env flds (''MT'' @ n) =
              Inl (Error (''Invalid amount field format: '' @ c))"
    using assms(2) by (simp add: createStandardizedMessage_def and_then_def parseAmountField_def)
next
  assume p: "amount_pattern c"
  then obtain ad where ad: "parseAmountField c = Inr ad"
    by (simp add: parseAmountField_def Let_def)
  have "\<exists>r. createStandardizedMessage env flds (''MT'' @ n) = Inr r"
    using assms ad by (auto simp: createStandardizedMessage_def and_then_def)
  then obtain r where r: "createStandardizedMessage env flds (''MT'' @ n) = Inr r" by blast
  from createStandardizedMessage_messageType [OF r] r
  show "\<exists>r. createStandardizedMessage env flds (''MT'' @ n) = Inr r \<and>
                 get r ''messageType'' = JStr (''MT'' @ n)"
    by blast
qed

lemma SWIFT_parse_supported:
  assumes "header_match s = Some n" and "n = ''103'' \<or> n = ''202''"
  shows "SWIFT_parse env (JStr s) =
           and_then (parseFields s (''MT'' @ n)) (\<lambda>flds.
           and_then (validateRequiredFields flds (''MT'' @ n)) (\<lambda>u.
             createStandardizedMessage env flds (''MT'' @ n)))"
proof -
  from assms(1) have ne: "s \<noteq> []" by auto
  from assms(2) have "''MT'' @ n \<in> set supportedMessageTypes"
    by (auto simp: supportedMessageTypes_def)
  then show ?thesis
    using ne assms(1) by (simp add: SWIFT_parse_def extractMessageType_def and_then_def del: append.simps)
qed


lemma SWIFT_parse_fields:
  assumes h: "header_match s = Some n" and n: "n = ''103'' \<or> n = ''202''"
    and f: "parseFields s (''MT'' @ n) = Inr flds"
  shows "((\<exists>t \<in> set (getRequiredFields (''MT'' @ n)). map_of flds t = None) \<longrightarrow>
            (\<exists>t \<in> set (getRequiredFields (''MT'' @ n)). map_of flds t = None \<and>
               SWIFT_parse env (JStr s) =
                 Inl (Error (''Missing required field: '' @ t @ '' for '' @ ''MT'' @ n)))) \<and>
         ((\<forall>t \<in> set (getRequiredFields (''MT'' @ n)). map_of flds t \<noteq> None) \<longrightarrow>
            (\<exists>c. content_of flds ''32A'' = Some c \<and>
               (\<not> amount_pattern c \<longrightarrow>
                  SWIFT_parse env (JStr s) = Inl (Error (''Invalid amount field format: '' @ c))) \<and>
               (amount_pattern c \<longrightarrow>
                  (\<exists>r. SWIFT_parse env (JStr s) = Inr r \<and>
                       get r ''messageType'' = JStr (''MT'' @ n)))))"
proof (intro conjI impI)
  assume "\<exists>t \<in> set (getRequiredFields (''MT'' @ n)). map_of flds t = None"
  from check_required_missing [OF this, of "''MT'' @ n"]
  obtain t where t: "t \<in> set (getRequiredFields (''MT'' @ n))" "map_of flds t = None"
    "check_required flds (''MT'' @ n) (getRequiredFields (''MT'' @ n)) =
       Inl (Error (''Missing required field: '' @ t @ '' for '' @ ''MT'' @ n))"
    by blast
  have "SWIFT_parse env (JStr s) =
          Inl (Error (''Missing required field: '' @ t @ '' for '' @ ''MT'' @ n))"
    using t(3) f by (simp add: SWIFT_parse_supported [OF h n] validateRequiredFields_def and_then_def)
  with t(1,2) show "\<exists>t \<in> set (getRequiredFields (''MT'' @ n)). map_of flds t = None \<and>
               SWIFT_parse env (JStr s) =
                 Inl (Error (''Missing required field: '' @ t @ '' for '' @ ''MT'' @ n))"
    by blast
next
  assume a: "\<forall>t \<in> set (getRequiredFields (''MT'' @ n)). map_of flds t \<noteq> None"
  from required_32A [OF n a] obtain c where c: "content_of flds ''32A'' = Some c" by blast
  have v: "validateRequiredFields flds (''MT'' @ n) = Inr ()"
    unfolding validateRequiredFields_def by (rule check_required_ok [OF a])
  have e: "SWIFT_parse env (JStr s) = createStandardizedMessage env flds (''MT'' @ n)"
    using v f by (simp add: SWIFT_parse_supported [OF h n] and_then_def)
  from createStandardizedMessage_32A [OF n c, of env]
  have "(\<not> amount_pattern c \<longrightarrow>
                  SWIFT_parse env (JStr s) = Inl (Error (''Invalid amount field format: '' @ c))) \<and>
               (amount_pattern c \<longrightarrow>
                  (\<exists>r. SWIFT_parse env (JStr s) = Inr r \<and>
                       get r ''messageType'' = JStr (''MT'' @ n)))"
    unfolding e .
  with c show "\<exists>c. content_of flds ''32A'' = Some c \<and>
               (\<not> amount_pattern c \<longrightarrow>
                  SWIFT_parse env (JStr s) = Inl (Error (''Invalid amount field format: '' @ c))) \<and>
               (amount_pattern c \<longrightarrow>
                  (\<exists>r. SWIFT_parse env (JStr s) = Inr r \<and>
                       get r ''messageType'' = JStr (''MT'' @ n)))"
    by blast
qed

text \<open>
  C3 (amended). The base SWIFT parser checks in this order and fails at the first check
  that does not hold: the payload is a non-empty string (invalid format); it contains
  \<open>{2:I\<close> followed by three digits (invalid format: missing application header); the type
  \<open>MT\<close> plus these digits is MT103 or MT202 (unsupported type); it contains \<open>{4:\<close> with a
  closing brace after it (invalid format: missing text block); the text block holds at
  least one field ("No valid fields found"); every required tag of the type is among the
  extracted fields (missing field, naming a missing tag; MT103 requires 20, 32A, 50K, 59
  and MT202 requires 20, 32A, 52A, 58A); the content of field 32A matches the amount
  pattern (invalid amount format). Otherwise it returns a record of that type. As stated,
  the claim fails on a message with all required fields and a malformed field 32A, and on
  a payload of unsupported type without a text block.
\<close>

theorem SWIFT_parse_errors:
  "((\<forall>s. v \<noteq> JStr s) \<or> v = JStr [] \<longrightarrow>
      SWIFT_parse env v =
        Inl (Error ''Invalid message format: message must be a non-empty string'')) \<and>
   (s \<noteq> [] \<and> header_match s = None \<longrightarrow>
      SWIFT_parse env (JStr s) =
        Inl (Error ''Invalid SWIFT message format: missing application header'')) \<and>
   (header_match s = None \<longleftrightarrow>
      (\<forall>pre n post. s = pre @ ''{2:I'' @ n @ post \<longrightarrow> length n = 3 \<longrightarrow> \<not> list_all is_digit n)) \<and>
   (header_match s = Some n \<and> n \<noteq> ''103'' \<and> n \<noteq> ''202'' \<longrightarrow>
      SWIFT_parse env (JStr s) = Inl (Error (''Unsupported message type: '' @ ''MT'' @ n))) \<and>
   (header_match s = Some n \<and> (n = ''103'' \<or> n = ''202'') \<longrightarrow>
      (text_block_match s = None \<longrightarrow>
         SWIFT_parse env (JStr s) =
           Inl (Error ''Invalid SWIFT message format: missing text block'')) \<and>
      (\<forall>tb. text_block_match s = Some tb \<and> field_matches tb = [] \<longrightarrow>
         SWIFT_parse env (JStr s) = Inl (Error ''No valid fields found in message'')) \<and>
      (\<forall>tb. text_block_match s = Some tb \<and> field_matches tb \<noteq> [] \<longrightarrow>
         (\<exists>flds. parseFields s (''MT'' @ n) = Inr flds \<and>
            ((\<exists>t \<in> set (getRequiredFields (''MT'' @ n)). map_of flds t = None) \<longrightarrow>
               (\<exists>t \<in> set (getRequiredFields (''MT'' @ n)). map_of flds t = None \<and>
                  SWIFT_parse env (JStr s) =
                    Inl (Error (''Missing required field: '' @ t @ '' for '' @ ''MT'' @ n)))) \<and>
            ((\<forall>t \<in> set (getRequiredFields (''MT'' @ n)). map_of flds t \<noteq> None) \<longrightarrow>
               (\<exists>c. content_of flds ''32A'' = Some c \<and>
                  (\<not> amount_pattern c \<longrightarrow>
                     SWIFT_parse env (JStr s) =
                       Inl (Error (''Invalid amount field format: '' @ c))) \<and>
                  (amount_pattern c \<longrightarrow>
                     (\<exists>r. SWIFT_parse env (JStr s) = Inr r \<and>
                          get r ''messageType'' = JStr (''MT'' @ n)))))))) \<and>
   (text_block_match s = None \<longleftrightarrow> (\<forall>pre mid post. s \<noteq> pre @ ''{4:'' @ mid @ ''}'' @ post)) \<and>
   getRequiredFields ''MT103'' = [''20'', ''32A'', ''50K'', ''59''] \<and>
   getRequiredFields ''MT202'' = [''20'', ''32A'', ''52A'', ''58A'']"
proof (intro conjI)
  show "(\<forall>s. v \<noteq> JStr s) \<or> v = JStr [] \<longrightarrow>
      SWIFT_parse env v =
        Inl (Error ''Invalid message format: message must be a non-empty string'')"
    by (auto simp: SWIFT_parse_def split: jsval.splits)
  show "s \<noteq> [] \<and> header_match s = None \<longrightarrow>
      SWIFT_parse env (JStr s) =
        Inl (Error ''Invalid SWIFT message format: missing application header'')"
    by (simp add: SWIFT_parse_def extractMessageType_def and_then_def)
  show "header_match s = None \<longleftrightarrow>
      (\<forall>pre n post. s = pre @ ''{2:I'' @ n @ post \<longrightarrow> length n = 3 \<longrightarrow> \<not> list_all is_digit n)"
    by (rule header_match_None_iff)
  show "header_match s = Some n \<and> n \<noteq> ''103'' \<and> n \<noteq> ''202'' \<longrightarrow>
      SWIFT_parse env (JStr s) = Inl (Error (''Unsupported message type: '' @ ''MT'' @ n))"
  proof
    assume a: "header_match s = Some n \<and> n \<noteq> ''103'' \<and> n \<noteq> ''202''"
    then have ne: "s \<noteq> []" by auto
    from a have "''MT'' @ n \<notin> set supportedMessageTypes"
      by (simp add: supportedMessageTypes_def)
    then show "SWIFT_parse env (JStr s) = Inl (Error (''Unsupported message type: '' @ ''MT'' @ n))"
      using ne a by (simp add: SWIFT_parse_def extractMessageType_def and_then_def del: append.simps)
  qed
  show "header_match s = Some n \<and> (n = ''103'' \<or> n = ''202'') \<longrightarrow>
      (text_block_match s = None \<longrightarrow>
         SWIFT_parse env (JStr s) =
           Inl (Error ''Invalid SWIFT message format: missing text block'')) \<and>
      (\<forall>tb. text_block_match s = Some tb \<and> field_matches tb = [] \<longrightarrow>
         SWIFT_parse env (JStr s) = Inl (Error ''No valid fields found in message'')) \<and>
      (\<forall>tb. text_block_match s = Some tb \<and> field_matches tb \<noteq> [] \<longrightarrow>
         (\<exists>flds. parseFields s (''MT'' @ n) = Inr flds \<and>
            ((\<exists>t \<in> set (getRequiredFields (''MT'' @ n)). map_of flds t = None) \<longrightarrow>
               (\<exists>t \<in> set (getRequiredFields (''MT'' @ n)). map_of flds t = None \<and>
                  SWIFT_parse env (JStr s) =
                    Inl (Error (''Missing required field: '' @ t @ '' for '' @ ''MT'' @ n)))) \<and>
            ((\<forall>t \<in> set (getRequiredFields (''MT'' @ n)). map_of flds t \<noteq> None) \<longrightarrow>
               (\<exists>c. content_of flds ''32A'' = Some c \<and>
                  (\<not> amount_pattern c \<longrightarrow>
                     SWIFT_parse env (JStr s) =
                       Inl (Error (''Invalid amount field format: '' @ c))) \<and>
                  (amount_pattern c \<longrightarrow>
                     (\<exists>r. SWIFT_parse env (JStr s) = Inr r \<and>
                          get r ''messageType'' = JStr (''MT'' @ n)))))))"
  proof (intro impI, elim conjE, intro conjI impI allI)
    assume h: "header_match s = Some n" and n: "n = ''103'' \<or> n = ''202''"
    {
      assume "text_block_match s = None"
      with parseFields_supported [OF n, of s]
      have "parseFields s (''MT'' @ n) =
             Inl (Error ''Invalid SWIFT message format: missing text block'')" by simp
      then show "SWIFT_parse env (JStr s) =
           Inl (Error ''Invalid SWIFT message format: missing text block'')"
        by (simp add: SWIFT_parse_supported [OF h n] and_then_def)
    }
    {
      fix tb
      assume "text_block_match s = Some tb \<and> field_matches tb = []"
      with parseFields_supported [OF n, of s]
      have "parseFields s (''MT'' @ n) = Inl (Error ''No valid fields found in message'')"
        by simp
      then show "SWIFT_parse env (JStr s) = Inl (Error ''No valid fields found in message'')"
        by (simp add: SWIFT_parse_supported [OF h n] and_then_def)
    }
    {
      fix tb
      assume "text_block_match s = Some tb \<and> field_matches tb \<noteq> []"
      with parseFields_supported [OF n, of s]
      obtain flds where f: "parseFields s (''MT'' @ n) = Inr flds" by auto
      show "\<exists>flds. parseFields s (''MT'' @ n) = Inr flds \<and>
            ((\<exists>t \<in> set (getRequiredFields (''MT'' @ n)). map_of flds t = None) \<longrightarrow>
               (\<exists>t \<in> set (getRequiredFields (''MT'' @ n)). map_of flds t = None \<and>
                  SWIFT_parse env (JStr s) =
                    Inl (Error (''Missing required field: '' @ t @ '' for '' @ ''MT'' @ n)))) \<and>
            ((\<forall>t \<in> set (getRequiredFields (''MT'' @ n)). map_of flds t \<noteq> None) \<longrightarrow>
               (\<exists>c. content_of flds ''32A'' = Some c \<and>
                  (\<not> amount_pattern c \<longrightarrow>
                     SWIFT_parse env (JStr s) =
                       Inl (Error (''Invalid amount field format: '' @ c))) \<and>
                  (amount_pattern c \<longrightarrow>
                     (\<exists>r. SWIFT_parse env (JStr s) = Inr r \<and>
                          get r ''messageType'' = JStr (''MT'' @ n)))))"
        by (rule exI [of _ flds], rule conjI, rule f, rule SWIFT_parse_fields [OF h n f])
    }
  qed
  show "text_block_match s = None \<longleftrightarrow> (\<forall>pre mid post. s \<noteq> pre @ ''{4:'' @ mid @ ''}'' @ post)"
    by (rule text_block_match_None_iff)
  show "getRequiredFields ''MT103'' = [''20'', ''32A'', ''50K'', ''59'']"
    by (simp add: getRequiredFields_def)
  show "getRequiredFields ''MT202'' = [''20'', ''32A'', ''52A'', ''58A'']"
    by (simp add: getRequiredFields_def)
qed


lemma bad_amount_header: "header_match bad_amount_sample = Some ''103''"
  by (simp add: bad_amount_sample_def header_at_def startsWith_def substring_def is_digit_def)

lemma bad_amount_text_block: "text_block_match bad_amount_sample = Some '':20:R:32A:X:50K:A:59:B''"
  by (simp add: bad_amount_sample_def startsWith_def)

lemma bad_amount_matches:
  "field_matches '':20:R:32A:X:50K:A:59:B'' = ['':20:R'', '':32A:X'', '':50K:A'', '':59:B'']"
  by (simp add: tag_at_def is_digit_def is_upper_def)

lemma bad_amount_fields:
  "parseFields bad_amount_sample ''MT103'' = Inr
     [(''20'', Field ''20'' ''transaction_reference'' ''R''),
      (''32A'', Field ''32A'' ''value_date_currency_amount'' ''X''),
      (''50K'', Field ''50K'' ''ordering_customer'' ''A''),
      (''59'', Field ''59'' ''beneficiary_customer'' ''B'')]"
  by (simp add: parseFields_def bad_amount_text_block bad_amount_matches SWIFT_FIELDS_def tag_at_def
      is_digit_def is_upper_def trim_def is_space_def)

lemma bad_amount_parse:
  "SWIFT_parse sample_env (JStr bad_amount_sample) = Inl (Error ''Invalid amount field format: X'')"
proof -
  have ne: "bad_amount_sample \<noteq> []" by (simp add: bad_amount_sample_def)
  have p: "\<not> amount_pattern ''X''" by (simp add: amount_pattern_def)
  show ?thesis
    by (simp add: SWIFT_parse_def ne extractMessageType_def bad_amount_header supportedMessageTypes_def
        and_then_def bad_amount_fields validateRequiredFields_def getRequiredFields_def
        createStandardizedMessage_def content_of_def parseAmountField_def p)
qed

lemma unsupported_header: "header_match ''{2:I999}'' = Some ''999''"
  by (simp add: header_at_def startsWith_def substring_def is_digit_def)

theorem SWIFT_parse_counterexample:
  "header_match bad_amount_sample = Some ''103'' \<and>
   text_block_match bad_amount_sample = Some '':20:R:32A:X:50K:A:59:B'' \<and>
   parseFields bad_amount_sample ''MT103'' = Inr
     [(''20'', Field ''20'' ''transaction_reference'' ''R''),
      (''32A'', Field ''32A'' ''value_date_currency_amount'' ''X''),
      (''50K'', Field ''50K'' ''ordering_customer'' ''A''),
      (''59'', Field ''59'' ''beneficiary_customer'' ''B'')] \<and>
   SWIFT_parse sample_env (JStr bad_amount_sample) =
     Inl (Error ''Invalid amount field format: X'') \<and>
   text_block_match ''{2:I999}'' = None \<and>
   SWIFT_parse sample_env (JStr ''{2:I999}'') = Inl (Error ''Unsupported message type: MT999'')"
proof -
  have t: "text_block_match ''{2:I999}'' = None" by (simp add: startsWith_def)
  have u: "SWIFT_parse sample_env (JStr ''{2:I999}'') = Inl (Error ''Unsupported message type: MT999'')"
    by (simp add: SWIFT_parse_def extractMessageType_def header_at_def startsWith_def substring_def
        is_digit_def supportedMessageTypes_def and_then_def)
  from bad_amount_header bad_amount_text_block bad_amount_fields bad_amount_parse t u
  show ?thesis by simp
qed

theorem SWIFT_parse_errors_witness:
  "(\<forall>s. JNull \<noteq> JStr s) \<and>
   SWIFT_parse sample_env JNull =
     Inl (Error ''Invalid message format: message must be a non-empty string'') \<and>
   header_match ''{2:I999}'' = Some ''999'' \<and> ''999'' \<noteq> ''103'' \<and> ''999'' \<noteq> ''202'' \<and>
   SWIFT_parse sample_env (JStr ''{2:I999}'') = Inl (Error ''Unsupported message type: MT999'') \<and>
   header_match bad_amount_sample = Some ''103'' \<and>
   text_block_match bad_amount_sample = Some '':20:R:32A:X:50K:A:59:B'' \<and>
   field_matches '':20:R:32A:X:50K:A:59:B'' \<noteq> [] \<and>
   (\<exists>flds c. parseFields bad_amount_sample ''MT103'' = Inr flds \<and>
      (\<forall>t \<in> set (getRequiredFields ''MT103''). map_of flds t \<noteq> None) \<and>
      content_of flds ''32A'' = Some c \<and> \<not> amount_pattern c \<and>
      SWIFT_parse sample_env (JStr bad_amount_sample) =
        Inl (Error (''Invalid amount field format: '' @ c)))"
proof -
  have a: "\<forall>s. JNull \<noteq> JStr s" by simp
  from SWIFT_parse_errors [where v = JNull and env = sample_env and s = "''{2:I999}''" and n = "''999''"]
  have w1: "SWIFT_parse sample_env JNull =
     Inl (Error ''Invalid message format: message must be a non-empty string'')"
    and w2: "header_match ''{2:I999}'' = Some ''999'' \<and> ''999'' \<noteq> ''103'' \<and> ''999'' \<noteq> ''202'' \<longrightarrow>
      SWIFT_parse sample_env (JStr ''{2:I999}'') = Inl (Error (''Unsupported message type: '' @ ''MT'' @ ''999''))"
    by simp_all
  have d: "''999'' \<noteq> ''103''" "''999'' \<noteq> ''202''" by simp_all
  from w2 have w2': "SWIFT_parse sample_env (JStr ''{2:I999}'') = Inl (Error ''Unsupported message type: MT999'')"
    unfolding unsupported_header by simp
  have fm: "field_matches '':20:R:32A:X:50K:A:59:B'' \<noteq> []" unfolding bad_amount_matches by simp
  from SWIFT_parse_errors [where v = JNull and env = sample_env and s = bad_amount_sample and n = "''103''"]
  have "header_match bad_amount_sample = Some ''103'' \<and> (''103'' = ''103'' \<or> ''103'' = ''202'') \<longrightarrow>
      (\<forall>tb. text_block_match bad_amount_sample = Some tb \<and> field_matches tb \<noteq> [] \<longrightarrow>
         (\<exists>flds. parseFields bad_amount_sample (''MT'' @ ''103'') = Inr flds \<and>
            ((\<forall>t \<in> set (getRequiredFields (''MT'' @ ''103'')). map_of flds t \<noteq> None) \<longrightarrow>
               (\<exists>c. content_of flds ''32A'' = Some c \<and>
                  (\<not> amount_pattern c \<longrightarrow>
                     SWIFT_parse sample_env (JStr bad_amount_sample) =
                       Inl (Error (''Invalid amount field format: '' @ c)))))))"
    by (elim conjE) blast
  with bad_amount_header bad_amount_text_block fm
  obtain flds where f: "parseFields bad_amount_sample (''MT'' @ ''103'') = Inr flds"
    and g: "(\<forall>t \<in> set (getRequiredFields (''MT'' @ ''103'')). map_of flds t \<noteq> None) \<longrightarrow>
               (\<exists>c. content_of flds ''32A'' = Some c \<and>
                  (\<not> amount_pattern c \<longrightarrow>
                     SWIFT_parse sample_env (JStr bad_amount_sample) =
                       Inl (Error (''Invalid amount field format: '' @ c))))"
    by blast
  from f bad_amount_fields have fl: "flds =
     [(''20'', Field ''20'' ''transaction_reference'' ''R''),
      (''32A'', Field ''32A'' ''value_date_currency_amount'' ''X''),
      (''50K'', Field ''50K'' ''ordering_customer'' ''A''),
      (''59'', Field ''59'' ''beneficiary_customer'' ''B'')]"
    by simp
  have req: "\<forall>t \<in> set (getRequiredFields ''MT103''). map_of flds t \<noteq> None"
    by (simp add: fl getRequiredFields_def)
  with g obtain c where c: "content_of flds ''32A'' = Some c"
    "\<not> amount_pattern c \<longrightarrow>
       SWIFT_parse sample_env (JStr bad_amount_sample) =
         Inl (Error (''Invalid amount field format: '' @ c))"
    by auto
  from c(1) have cx: "c = ''X''" by (simp add: fl content_of_def)
  have np: "\<not> amount_pattern c" by (simp add: cx amount_pattern_def)
  with c(2) have e: "SWIFT_parse sample_env (JStr bad_amount_sample) =
         Inl (Error (''Invalid amount field format: '' @ c))" by simp
  from f req c(1) np e
  have ex: "\<exists>flds c. parseFields bad_amount_sample ''MT103'' = Inr flds \<and>
      (\<forall>t \<in> set (getRequiredFields ''MT103''). map_of flds t \<noteq> None) \<and>
      content_of flds ''32A'' = Some c \<and> \<not> amount_pattern c \<and>
      SWIFT_parse sample_env (JStr bad_amount_sample) =
        Inl (Error (''Invalid amount field format: '' @ c))"
    by auto
  show ?thesis
    by (intro conjI) (rule a, rule w1, rule unsupported_header, rule d(1), rule d(2), rule w2',
        rule bad_amount_header, rule bad_amount_text_block, rule fm, rule ex)
qed

section \<open>Properties of the amount field\<close>

lemma DayFromYear_mono: "a \<le> b \<Longrightarrow> DayFromYear a \<le> DayFromYear b"
proof (induction "nat (b - a)" arbitrary: b)
  case 0
  then show ?case by simp
next
  case (Suc k)
  then have "k = nat (b - 1 - a)" "a \<le> b - 1" by linarith+
  from Suc.hyps(1) [OF this] have "DayFromYear a \<le> DayFromYear (b - 1)" .
  also have "\<dots> \<le> DayFromYear b" using DayFromYear_step [of "b - 1"] by simp
  finally show ?case .
qed

lemma year_search_eq:
  "y0 \<le> y \<Longrightarrow> DayFromYear y \<le> t \<Longrightarrow> t < DayFromYear (y + 1) \<Longrightarrow> year_search y0 t = y"
proof (induction "nat (y - y0)" arbitrary: y0)
  case 0
  then have "y0 = y" by simp
  with 0 show ?case by (simp add: year_search.simps)
next
  case (Suc k)
  then have lt: "y0 + 1 \<le> y" by linarith
  then have "DayFromYear (y0 + 1) \<le> DayFromYear y" by (rule DayFromYear_mono)
  with Suc.prems have c: "DayFromYear (y0 + 1) \<le> t" by linarith
  have "k = nat (y - (y0 + 1))" using Suc.hyps(2) by linarith
  from Suc.hyps(1) [OF this lt Suc.prems(2,3)] have "year_search (y0 + 1) t = y" .
  with c show ?case by (subst year_search.simps) simp
qed

lemma DayFromYear_1970: "DayFromYear 1970 = 0"
  by (simp add: DayFromYear_def)

lemma DayFromYear_le_366: "DayFromYear (x + 1) \<le> DayFromYear x + 366"
  by (simp add: DayFromYear_Suc)

lemma DayFromYear_upper: "0 \<le> k \<Longrightarrow> DayFromYear (1970 + k) \<le> 366 * k"
proof (induction "nat k" arbitrary: k)
  case 0
  then show ?case by (simp add: DayFromYear_1970)
next
  case (Suc j)
  then have "j = nat (k - 1)" "0 \<le> k - 1" by linarith+
  from Suc.hyps(1) [OF this] have a: "DayFromYear (1970 + (k - 1)) \<le> 366 * (k - 1)" .
  have b: "DayFromYear (1970 + (k - 1) + 1) \<le> DayFromYear (1970 + (k - 1)) + 366"
    by (rule DayFromYear_le_366)
  have e: "1970 + (k - 1) + 1 = 1970 + k" by linarith
  from b have b': "DayFromYear (1970 + k) \<le> DayFromYear (1970 + (k - 1)) + 366"
    unfolding e .
  have c: "366 * (k - 1) + 366 = 366 * k" by (simp add: algebra_simps)
  from a have "DayFromYear (1970 + (k - 1)) + 366 \<le> 366 * (k - 1) + 366"
    by (rule add_right_mono)
  with b' have "DayFromYear (1970 + k) \<le> 366 * (k - 1) + 366" by (rule order_trans)
  then show ?case unfolding c .
qed

lemma YearFromDay_eq:
  assumes "1970 \<le> y" and "DayFromYear y \<le> t" and "t < DayFromYear (y + 1)"
  shows "YearFromDay t = y"
proof -
  have "DayFromYear 1970 \<le> DayFromYear y" using assms(1) by (rule DayFromYear_mono)
  with assms(2) have t0: "0 \<le> t" by (simp add: DayFromYear_1970)
  define k where "k = y + 1 - 1970"
  have k0: "0 \<le> k" unfolding k_def using assms(1) by linarith
  have e: "1970 + k = y + 1" unfolding k_def by linarith
  from DayFromYear_upper [OF k0] have "DayFromYear (y + 1) \<le> 366 * k" unfolding e .
  with assms(3) have lt: "t < 366 * k" by (rule less_le_trans)
  define a where "a = t div 366"
  define r where "r = t mod 366"
  have "t = 366 * a + r" unfolding a_def r_def by simp
  moreover have "0 \<le> r" unfolding r_def by simp
  ultimately have "a < k" using lt by linarith
  then have "1970 + t div 366 \<le> y" unfolding a_def k_def by linarith
  from year_search_eq [OF this assms(2,3)] show ?thesis
    using t0 by (simp add: YearFromDay_def)
qed

lemma month_start_bounds:
  assumes "1 \<le> m" "m \<le> 12" "1 \<le> d" "d \<le> days_in_month y m"
  shows "0 \<le> month_start (m - 1) (InLeapYear y) + d - 1 \<and>
         month_start (m - 1) (InLeapYear y) + d - 1 < (if InLeapYear y then 366 else 365)"
proof -
  from assms(1,2) have "m = 1 \<or> m = 2 \<or> m = 3 \<or> m = 4 \<or> m = 5 \<or> m = 6 \<or> m = 7 \<or> m = 8 \<or>
      m = 9 \<or> m = 10 \<or> m = 11 \<or> m = 12" by arith
  then show ?thesis
    using assms(3,4) by (elim disjE) (simp_all add: month_start_def days_in_month_def split: if_splits)
qed

lemma MakeDay_valid:
  assumes "1 \<le> m" "m \<le> 12"
  shows "MakeDay y (m - 1) d = DayFromYear y + month_start (m - 1) (InLeapYear y) + d - 1"
proof -
  from assms have "(m - 1) div 12 = 0" "(m - 1) mod 12 = m - 1" by simp_all
  then show ?thesis by (simp add: MakeDay_def)
qed

lemma valid_date_roundtrip:
  assumes y: "1970 \<le> y" and m: "1 \<le> m" "m \<le> 12" and d: "1 \<le> d" "d \<le> days_in_month y m"
  shows "YearFromDay (MakeDay y (m - 1) d) = y \<and> MonthFromDay (MakeDay y (m - 1) d) = m - 1 \<and>
         DateFromDay (MakeDay y (m - 1) d) = d"
proof -
  let ?t = "MakeDay y (m - 1) d"
  let ?o = "month_start (m - 1) (InLeapYear y) + d - 1"
  have t: "?t = DayFromYear y + ?o" using MakeDay_valid [OF m, of y d] by simp
  from month_start_bounds [OF m d] have b: "0 \<le> ?o" "?o < (if InLeapYear y then 366 else 365)"
    by simp_all
  have "DayFromYear y \<le> ?t" using t b(1) by linarith
  moreover have "?t < DayFromYear (y + 1)" using t b(2) by (simp add: DayFromYear_Suc)
  ultimately have yy: "YearFromDay ?t = y" using y by (intro YearFromDay_eq)
  have w: "DayWithinYear ?t = ?o" unfolding DayWithinYear_def yy using t by simp
  from m have c: "m = 1 \<or> m = 2 \<or> m = 3 \<or> m = 4 \<or> m = 5 \<or> m = 6 \<or> m = 7 \<or> m = 8 \<or>
      m = 9 \<or> m = 10 \<or> m = 11 \<or> m = 12" by arith
  have mm: "MonthFromDay ?t = m - 1"
    unfolding MonthFromDay_def w yy using c d
    by (elim disjE) (simp_all add: month_start_def days_in_month_def Let_def split: if_splits)
  have dd: "DateFromDay ?t = d"
    unfolding DateFromDay_def w yy mm by simp
  from yy mm dd show ?thesis by simp
qed

lemma digit_char_val: "is_digit c \<Longrightarrow> digit_val c < 10 \<and> digit_char (digit_val c) = c"
  by (auto simp: is_digit_def digit_val_def digit_char_def char_of_def bit_Suc_0_iff)

lemma digits_val_2: "digits_val [a, b] = 10 * digit_val a + digit_val b"
  by (simp add: digits_val_def)

lemma pad2_digits:
  assumes "is_digit a" "is_digit b"
  shows "pad2 (digits_val [a, b]) = [a, b]"
proof -
  from digit_char_val [OF assms(1)] digit_char_val [OF assms(2)]
  have a: "digit_val a < 10" "digit_char (digit_val a) = a"
    and b: "digit_val b < 10" "digit_char (digit_val b) = b" by simp_all
  have d: "(10 * digit_val a + digit_val b) div 10 = digit_val a" using b(1) by simp
  have m: "digit_char (10 * digit_val a + digit_val b) = digit_char (digit_val b)"
    using b(1) by (simp add: digit_char_def)
  show ?thesis by (simp add: pad2_def digits_val_2 d m a(2) b(2))
qed

lemma pad4_digits:
  assumes "is_digit a" "is_digit b"
  shows "pad4 (2000 + digits_val [a, b]) = [CHR ''2'', CHR ''0'', a, b]"
proof -
  from digit_char_val [OF assms(1)] digit_char_val [OF assms(2)]
  have a: "digit_val a < 10" "digit_char (digit_val a) = a"
    and b: "digit_val b < 10" "digit_char (digit_val b) = b" by simp_all
  define x where "x = digit_val a"
  define z where "z = digit_val b"
  have x: "x < 10" and z: "z < 10" using a(1) b(1) unfolding x_def z_def by simp_all
  have 1: "digit_char ((2000 + (10 * x + z)) div 1000) = CHR ''2''"
  proof -
    have "(2000 + (10 * x + z)) div 1000 = 2" using x z by simp
    then show ?thesis by (simp add: digit_char_def char_of_def bit_Suc_0_iff)
  qed
  have 2: "digit_char ((2000 + (10 * x + z)) div 100) = CHR ''0''"
  proof -
    have "(2000 + (10 * x + z)) div 100 = 20" using x z by simp
    then show ?thesis by (simp add: digit_char_def char_of_def bit_Suc_0_iff)
  qed
  have 3: "digit_char ((2000 + (10 * x + z)) div 10) = digit_char x"
  proof -
    have "(2000 + (10 * x + z)) div 10 = 200 + x" using z by simp
    moreover have "(200 + x) mod 10 = x mod 10"
    proof -
      have "200 + x = x + 10 * 20" by simp
      then show ?thesis by (simp only: mod_mult_self2)
    qed
    ultimately show ?thesis by (simp add: digit_char_def)
  qed
  have 4: "digit_char (2000 + (10 * x + z)) = digit_char z"
  proof -
    have "2000 + (10 * x + z) = z + 10 * (200 + x)" by simp
    then have "(2000 + (10 * x + z)) mod 10 = z mod 10" by (simp only: mod_mult_self2)
    then show ?thesis by (simp add: digit_char_def)
  qed
  show ?thesis
    unfolding pad4_def digits_val_2 x_def [symmetric] z_def [symmetric] 1 2 3 4
    unfolding x_def z_def a(2) b(2) by simp
qed

lemma nat_2000: "nat (2000 + int n) = 2000 + n"
  by simp

lemma parseAmountField_valueDate:
  assumes p: "amount_pattern c" and v: "calendar_date (take 6 c)"
  shows "\<exists>ad. parseAmountField c = Inr ad \<and>
           ad_valueDate ad = ''20'' @ take 2 c @ ''-'' @ take 2 (drop 2 c) @ ''-'' @ take 2 (drop 4 c)"
proof -
  from p have len: "10 \<le> length c" and dg: "list_all is_digit (take 6 c)"
    by (simp_all add: amount_pattern_def)
  from len obtain a1 a2 a3 a4 a5 a6 rest where c: "c = a1 # a2 # a3 # a4 # a5 # a6 # rest"
    by (cases c; simp; rename_tac x1 l1; case_tac l1; simp; rename_tac x2 l2; case_tac l2; simp;
        rename_tac x3 l3; case_tac l3; simp; rename_tac x4 l4; case_tac l4; simp;
        rename_tac x5 l5; case_tac l5; simp)
  from dg have d: "is_digit a1" "is_digit a2" "is_digit a3" "is_digit a4" "is_digit a5" "is_digit a6"
    by (simp_all add: c)
  define y where "y = 2000 + int (digits_val [a1, a2])"
  define m where "m = int (digits_val [a3, a4])"
  define dd where "dd = int (digits_val [a5, a6])"
  from v have cal: "1 \<le> m" "m \<le> 12" "1 \<le> dd" "dd \<le> days_in_month y m"
    by (simp_all add: calendar_date_def c substring_def parseInt_def Let_def y_def m_def dd_def)
  have y70: "1970 \<le> y" unfolding y_def by simp
  from valid_date_roundtrip [OF y70 cal]
  have rt: "YearFromDay (MakeDay y (m - 1) dd) = y" "MonthFromDay (MakeDay y (m - 1) dd) = m - 1"
    "DateFromDay (MakeDay y (m - 1) dd) = dd" by simp_all
  have iso: "iso_date (MakeDay y (m - 1) dd) = [CHR ''2'', CHR ''0'', a1, a2] @ ''-'' @ [a3, a4] @ ''-'' @ [a5, a6]"
  proof -
    have e: "nat y = 2000 + digits_val [a1, a2]" "nat (m - 1 + 1) = digits_val [a3, a4]"
      "nat dd = digits_val [a5, a6]"
      by (simp_all add: y_def m_def dd_def)
    show ?thesis
      unfolding iso_date_def rt e
      by (simp add: pad4_digits [OF d(1,2)] pad2_digits [OF d(3,4)] pad2_digits [OF d(5,6)])
  qed
  have "parseAmountField c =
          Inr \<lparr>ad_valueDate = iso_date (MakeDay y (m - 1) dd), ad_currency = take 3 (drop 6 c),
               ad_amount = parseFloat (filter (\<lambda>x. x \<noteq> CHR '','') (drop 9 c))\<rparr>"
    using p by (simp add: parseAmountField_def Let_def c substring_def parseInt_def y_def m_def dd_def)
  then show ?thesis using iso by (simp add: c)
qed

lemma parseFloat_decimal:
  assumes "list_all is_digit ip" and "list_all is_digit fp" and "ip \<noteq> [] \<or> fp \<noteq> []"
  shows "parseFloat (ip @ ''.'' @ fp) = to_double (of_nat (digits_val (ip @ fp)) / 10 ^ length fp)"
proof -
  have nd: "\<not> is_digit CHR ''.''" by (simp add: is_digit_def)
  have tw: "takeWhile is_digit (ip @ CHR ''.'' # fp) = ip"
    "dropWhile is_digit (ip @ CHR ''.'' # fp) = CHR ''.'' # fp"
    using assms(1) nd by (simp_all add: list_all_iff takeWhile_append2 dropWhile_append2)
  have tf: "takeWhile is_digit fp = fp" "dropWhile is_digit fp = []"
    using assms(2) by (simp_all add: list_all_iff)
  obtain h t where ht: "ip @ CHR ''.'' # fp = h # t" by (cases "ip @ CHR ''.'' # fp") auto
  have "h = CHR ''.'' \<or> is_digit h"
    using ht assms(1) by (cases ip) auto
  then have h: "\<not> is_space h" "h \<noteq> CHR ''-''" "h \<noteq> CHR ''+''" "h \<noteq> CHR ''I''"
    by (auto simp: is_digit_def is_space_def)
  have ni: "\<not> startsWith (ip @ CHR ''.'' # fp) ''Infinity''"
    using h(4) by (simp add: ht startsWith_def)
  have sc: "scale10 r (- int (length fp)) = r / 10 ^ length fp" for r
    by (simp add: scale10_def)
  have pu: "parse_unsigned (ip @ CHR ''.'' # fp) =
      to_double (of_nat (digits_val (ip @ fp)) / 10 ^ length fp)"
  proof -
    have ne: "\<not> (ip = [] \<and> fp = [])" using assms(3) by blast
    show ?thesis
      using ni by (simp add: parse_unsigned_def tw tf parse_exponent_def sc ne)
  qed
  have "parseFloat (h # t) = parse_unsigned (h # t)"
    using h by (simp add: parseFloat_def)
  then show ?thesis using pu ht by simp
qed

lemma amount_pattern_iff:
  "amount_pattern c \<longleftrightarrow>
     (\<exists>d cur a. c = d @ cur @ a \<and> length d = 6 \<and> list_all is_digit d \<and> length cur = 3 \<and>
        list_all is_upper cur \<and> a \<noteq> [] \<and>
        list_all (\<lambda>x. is_digit x \<or> x = CHR '','' \<or> x = CHR ''.'') a)"
proof
  assume p: "amount_pattern c"
  then have l: "10 \<le> length c" by (simp add: amount_pattern_def)
  have "take 9 c = take 6 c @ take 3 (drop 6 c)"
    using take_add [of 6 3 c] by simp
  then have "c = take 6 c @ take 3 (drop 6 c) @ drop 9 c"
    using append_take_drop_id [of 9 c] by simp
  moreover have "length (take 6 c) = 6" "length (take 3 (drop 6 c)) = 3" "drop 9 c \<noteq> []"
    using l by simp_all
  ultimately show "\<exists>d cur a. c = d @ cur @ a \<and> length d = 6 \<and> list_all is_digit d \<and> length cur = 3 \<and>
        list_all is_upper cur \<and> a \<noteq> [] \<and>
        list_all (\<lambda>x. is_digit x \<or> x = CHR '','' \<or> x = CHR ''.'') a"
    using p unfolding amount_pattern_def by blast
next
  assume "\<exists>d cur a. c = d @ cur @ a \<and> length d = 6 \<and> list_all is_digit d \<and> length cur = 3 \<and>
        list_all is_upper cur \<and> a \<noteq> [] \<and>
        list_all (\<lambda>x. is_digit x \<or> x = CHR '','' \<or> x = CHR ''.'') a"
  then obtain d cur a where "c = d @ cur @ a" "length d = 6" "list_all is_digit d" "length cur = 3"
    "list_all is_upper cur" "a \<noteq> []" "list_all (\<lambda>x. is_digit x \<or> x = CHR '','' \<or> x = CHR ''.'') a"
    by blast
  then show "amount_pattern c"
    by (cases a) (simp_all add: amount_pattern_def)
qed

lemma parseAmountField_fields:
  assumes "amount_pattern c"
  shows "\<exists>ad. parseAmountField c = Inr ad \<and> ad_currency ad = take 3 (drop 6 c) \<and>
           ad_amount ad = parseFloat (filter (\<lambda>x. x \<noteq> CHR '','') (drop 9 c))"
  using assms by (simp add: parseAmountField_def Let_def)

lemma createStandardizedMessage_amount:
  assumes "n = ''103'' \<or> n = ''202''" and "content_of flds ''32A'' = Some c"
    and "parseAmountField c = Inr ad"
  shows "\<exists>r. createStandardizedMessage env flds (''MT'' @ n) = Inr r \<and>
           get r ''amount'' = JNum (ad_amount ad) \<and> get r ''currency'' = JStr (ad_currency ad) \<and>
           get r ''valueDate'' = JStr (ad_valueDate ad)"
  using assms
  by (auto simp: createStandardizedMessage_def and_then_def get_def map_of_put_entry Let_def)

lemma SWIFT_parse_amount:
  assumes h: "header_match s = Some n" and n: "n = ''103'' \<or> n = ''202''"
    and f: "parseFields s (''MT'' @ n) = Inr flds"
    and a: "\<forall>t \<in> set (getRequiredFields (''MT'' @ n)). map_of flds t \<noteq> None"
    and c: "content_of flds ''32A'' = Some c"
  shows "(\<not> amount_pattern c \<longrightarrow>
            SWIFT_parse env (JStr s) = Inl (Error (''Invalid amount field format: '' @ c))) \<and>
         (\<forall>ad. parseAmountField c = Inr ad \<longrightarrow>
            (\<exists>r. SWIFT_parse env (JStr s) = Inr r \<and>
               get r ''amount'' = JNum (ad_amount ad) \<and> get r ''currency'' = JStr (ad_currency ad) \<and>
               get r ''valueDate'' = JStr (ad_valueDate ad)))"
proof -
  have v: "validateRequiredFields flds (''MT'' @ n) = Inr ()"
    unfolding validateRequiredFields_def by (rule check_required_ok [OF a])
  have e: "SWIFT_parse env (JStr s) = createStandardizedMessage env flds (''MT'' @ n)"
    using v f by (simp add: SWIFT_parse_supported [OF h n] and_then_def)
  have 1: "\<not> amount_pattern c \<longrightarrow>
            SWIFT_parse env (JStr s) = Inl (Error (''Invalid amount field format: '' @ c))"
    using createStandardizedMessage_32A [OF n c, of env] unfolding e by blast
  have 2: "\<forall>ad. parseAmountField c = Inr ad \<longrightarrow>
            (\<exists>r. SWIFT_parse env (JStr s) = Inr r \<and>
               get r ''amount'' = JNum (ad_amount ad) \<and> get r ''currency'' = JStr (ad_currency ad) \<and>
               get r ''valueDate'' = JStr (ad_valueDate ad))"
    unfolding e using createStandardizedMessage_amount [OF n c] by blast
  from 1 2 show ?thesis by (rule conjI)
qed

text \<open>
  C2 (amended). The content of field 32A matches the amount pattern when it consists of
  six digits, three upper-case letters and a non-empty text of digits, commas and
  periods. On such a content \<open>parseAmountField\<close> returns the three letters as the currency
  and, as the amount, \<open>parseFloat\<close> of the text with its commas removed: for a text of
  digits the double nearest to their decimal value, for digits with one period the double
  nearest to that decimal fraction (commas separate thousands and the period is the
  decimal point). When the six digits \<open>YYMMDD\<close> name a day of the calendar, the value date
  is \<open>20YY-MM-DD\<close>. On any other content \<open>parseAmountField\<close> fails with the invalid amount
  format error. For a message of type MT103 or MT202 that passes the checks before it
  (header, text block, fields, required tags), \<open>SWIFTParser.parse\<close> fails with that error
  when the content of its field 32A does not match, and otherwise returns a record whose
  amount, currency and value date are those of \<open>parseAmountField\<close>. As stated, the claim
  fails on its own example: the content \<open>230701USD1000,00\<close> yields the amount 100000.
\<close>

theorem parseAmountField_spec:
  "(amount_pattern c \<longleftrightarrow>
      (\<exists>d cur a. c = d @ cur @ a \<and> length d = 6 \<and> list_all is_digit d \<and> length cur = 3 \<and>
         list_all is_upper cur \<and> a \<noteq> [] \<and>
         list_all (\<lambda>x. is_digit x \<or> x = CHR '','' \<or> x = CHR ''.'') a)) \<and>
   (\<not> amount_pattern c \<longrightarrow>
      parseAmountField c = Inl (Error (''Invalid amount field format: '' @ c))) \<and>
   (amount_pattern c \<longrightarrow>
      (\<exists>ad. parseAmountField c = Inr ad \<and>
         ad_currency ad = take 3 (drop 6 c) \<and>
         ad_amount ad = parseFloat (filter (\<lambda>x. x \<noteq> CHR '','') (drop 9 c)) \<and>
         (list_all is_digit (filter (\<lambda>x. x \<noteq> CHR '','') (drop 9 c)) \<and>
          filter (\<lambda>x. x \<noteq> CHR '','') (drop 9 c) \<noteq> [] \<longrightarrow>
            ad_amount ad =
              to_double (of_nat (digits_val (filter (\<lambda>x. x \<noteq> CHR '','') (drop 9 c))))) \<and>
         (\<forall>ip fp. filter (\<lambda>x. x \<noteq> CHR '','') (drop 9 c) = ip @ ''.'' @ fp \<and>
              list_all is_digit ip \<and> list_all is_digit fp \<and> (ip \<noteq> [] \<or> fp \<noteq> []) \<longrightarrow>
            ad_amount ad = to_double (of_nat (digits_val (ip @ fp)) / 10 ^ length fp)) \<and>
         (calendar_date (take 6 c) \<longrightarrow>
            ad_valueDate ad =
              ''20'' @ take 2 c @ ''-'' @ take 2 (drop 2 c) @ ''-'' @ take 2 (drop 4 c)))) \<and>
   (header_match s = Some n \<and> (n = ''103'' \<or> n = ''202'') \<and>
    parseFields s (''MT'' @ n) = Inr flds \<and>
    (\<forall>t \<in> set (getRequiredFields (''MT'' @ n)). map_of flds t \<noteq> None) \<and>
    content_of flds ''32A'' = Some c \<longrightarrow>
      (\<not> amount_pattern c \<longrightarrow>
         SWIFT_parse env (JStr s) = Inl (Error (''Invalid amount field format: '' @ c))) \<and>
      (\<forall>ad. parseAmountField c = Inr ad \<longrightarrow>
         (\<exists>r. SWIFT_parse env (JStr s) = Inr r \<and>
            get r ''amount'' = JNum (ad_amount ad) \<and> get r ''currency'' = JStr (ad_currency ad) \<and>
            get r ''valueDate'' = JStr (ad_valueDate ad))))"
proof (intro conjI)
  show "amount_pattern c \<longleftrightarrow>
      (\<exists>d cur a. c = d @ cur @ a \<and> length d = 6 \<and> list_all is_digit d \<and> length cur = 3 \<and>
         list_all is_upper cur \<and> a \<noteq> [] \<and>
         list_all (\<lambda>x. is_digit x \<or> x = CHR '','' \<or> x = CHR ''.'') a)"
    by (rule amount_pattern_iff)
  show "\<not> amount_pattern c \<longrightarrow>
      parseAmountField c = Inl (Error (''Invalid amount field format: '' @ c))"
    by (simp add: parseAmountField_def)
  show "amount_pattern c \<longrightarrow>
      (\<exists>ad. parseAmountField c = Inr ad \<and>
         ad_currency ad = take 3 (drop 6 c) \<and>
         ad_amount ad = parseFloat (filter (\<lambda>x. x \<noteq> CHR '','') (drop 9 c)) \<and>
         (list_all is_digit (filter (\<lambda>x. x \<noteq> CHR '','') (drop 9 c)) \<and>
          filter (\<lambda>x. x \<noteq> CHR '','') (drop 9 c) \<noteq> [] \<longrightarrow>
            ad_amount ad =
              to_double (of_nat (digits_val (filter (\<lambda>x. x \<noteq> CHR '','') (drop 9 c))))) \<and>
         (\<forall>ip fp. filter (\<lambda>x. x \<noteq> CHR '','') (drop 9 c) = ip @ ''.'' @ fp \<and>
              list_all is_digit ip \<and> list_all is_digit fp \<and> (ip \<noteq> [] \<or> fp \<noteq> []) \<longrightarrow>
            ad_amount ad = to_double (of_nat (digits_val (ip @ fp)) / 10 ^ length fp)) \<and>
         (calendar_date (take 6 c) \<longrightarrow>
            ad_valueDate ad =
              ''20'' @ take 2 c @ ''-'' @ take 2 (drop 2 c) @ ''-'' @ take 2 (drop 4 c)))"
  proof
    assume p: "amount_pattern c"
    from parseAmountField_fields [OF p] obtain ad where ad: "parseAmountField c = Inr ad"
      "ad_currency ad = take 3 (drop 6 c)"
      "ad_amount ad = parseFloat (filter (\<lambda>x. x \<noteq> CHR '','') (drop 9 c))"
      by blast
    have dg: "list_all is_digit (filter (\<lambda>x. x \<noteq> CHR '','') (drop 9 c)) \<and>
          filter (\<lambda>x. x \<noteq> CHR '','') (drop 9 c) \<noteq> [] \<longrightarrow>
            ad_amount ad =
              to_double (of_nat (digits_val (filter (\<lambda>x. x \<noteq> CHR '','') (drop 9 c))))"
      unfolding ad(3) using parseFloat_digits by blast
    have dc: "\<forall>ip fp. filter (\<lambda>x. x \<noteq> CHR '','') (drop 9 c) = ip @ ''.'' @ fp \<and>
              list_all is_digit ip \<and> list_all is_digit fp \<and> (ip \<noteq> [] \<or> fp \<noteq> []) \<longrightarrow>
            ad_amount ad = to_double (of_nat (digits_val (ip @ fp)) / 10 ^ length fp)"
    proof (intro allI impI, elim conjE)
      fix ip fp
      assume e: "filter (\<lambda>x. x \<noteq> CHR '','') (drop 9 c) = ip @ ''.'' @ fp"
        and d: "list_all is_digit ip" "list_all is_digit fp" "ip \<noteq> [] \<or> fp \<noteq> []"
      show "ad_amount ad = to_double (of_nat (digits_val (ip @ fp)) / 10 ^ length fp)"
        unfolding ad(3) e by (rule parseFloat_decimal [OF d])
    qed
    have vd: "calendar_date (take 6 c) \<longrightarrow>
            ad_valueDate ad =
              ''20'' @ take 2 c @ ''-'' @ take 2 (drop 2 c) @ ''-'' @ take 2 (drop 4 c)"
    proof
      assume "calendar_date (take 6 c)"
      from parseAmountField_valueDate [OF p this] ad(1)
      show "ad_valueDate ad =
              ''20'' @ take 2 c @ ''-'' @ take 2 (drop 2 c) @ ''-'' @ take 2 (drop 4 c)"
        by auto
    qed
    show "\<exists>ad. parseAmountField c = Inr ad \<and>
         ad_currency ad = take 3 (drop 6 c) \<and>
         ad_amount ad = parseFloat (filter (\<lambda>x. x \<noteq> CHR '','') (drop 9 c)) \<and>
         (list_all is_digit (filter (\<lambda>x. x \<noteq> CHR '','') (drop 9 c)) \<and>
          filter (\<lambda>x. x \<noteq> CHR '','') (drop 9 c) \<noteq> [] \<longrightarrow>
            ad_amount ad =
              to_double (of_nat (digits_val (filter (\<lambda>x. x \<noteq> CHR '','') (drop 9 c))))) \<and>
         (\<forall>ip fp. filter (\<lambda>x. x \<noteq> CHR '','') (drop 9 c) = ip @ ''.'' @ fp \<and>
              list_all is_digit ip \<and> list_all is_digit fp \<and> (ip \<noteq> [] \<or> fp \<noteq> []) \<longrightarrow>
            ad_amount ad = to_double (of_nat (digits_val (ip @ fp)) / 10 ^ length fp)) \<and>
         (calendar_date (take 6 c) \<longrightarrow>
            ad_valueDate ad =
              ''20'' @ take 2 c @ ''-'' @ take 2 (drop 2 c) @ ''-'' @ take 2 (drop 4 c))"
      by (rule exI [of _ ad]) (intro conjI ad dg dc vd)
  qed
  show "header_match s = Some n \<and> (n = ''103'' \<or> n = ''202'') \<and>
    parseFields s (''MT'' @ n) = Inr flds \<and>
    (\<forall>t \<in> set (getRequiredFields (''MT'' @ n)). map_of flds t \<noteq> None) \<and>
    content_of flds ''32A'' = Some c \<longrightarrow>
      (\<not> amount_pattern c \<longrightarrow>
         SWIFT_parse env (JStr s) = Inl (Error (''Invalid amount field format: '' @ c))) \<and>
      (\<forall>ad. parseAmountField c = Inr ad \<longrightarrow>
         (\<exists>r. SWIFT_parse env (JStr s) = Inr r \<and>
            get r ''amount'' = JNum (ad_amount ad) \<and> get r ''currency'' = JStr (ad_currency ad) \<and>
            get r ''valueDate'' = JStr (ad_valueDate ad)))"
  proof (intro impI, elim conjE)
    assume h: "header_match s = Some n" and n: "n = ''103'' \<or> n = ''202''"
      and f: "parseFields s (''MT'' @ n) = Inr flds"
      and a: "\<forall>t \<in> set (getRequiredFields (''MT'' @ n)). map_of flds t \<noteq> None"
      and c: "content_of flds ''32A'' = Some c"
    show "(\<not> amount_pattern c \<longrightarrow>
         SWIFT_parse env (JStr s) = Inl (Error (''Invalid amount field format: '' @ c))) \<and>
      (\<forall>ad. parseAmountField c = Inr ad \<longrightarrow>
         (\<exists>r. SWIFT_parse env (JStr s) = Inr r \<and>
            get r ''amount'' = JNum (ad_amount ad) \<and> get r ''currency'' = JStr (ad_currency ad) \<and>
            get r ''valueDate'' = JStr (ad_valueDate ad)))"
      by (rule SWIFT_parse_amount [OF h n f a c])
  qed
qed

lemma sample_32A_pattern: "amount_pattern ''230701USD1000,00''"
  by (simp add: amount_pattern_def is_digit_def is_upper_def)

lemma sample_32A_date: "calendar_date (take 6 ''230701USD1000,00'')"
  by (simp add: calendar_date_def substring_def parseInt_def digits_val_def digit_val_def
      days_in_month_def)

lemma decimal_32A_pattern: "amount_pattern ''230701EUR10000.50''"
  by (simp add: amount_pattern_def is_digit_def is_upper_def)

lemma decimal_value: "to_double (of_nat (digits_val (''10000'' @ ''50'')) / 10 ^ length ''50'') = Finite (20001 / 2)"
proof -
  have "digits_val (''10000'' @ ''50'') = 1000050"
    by (simp add: digits_val_def digit_val_def)
  then show ?thesis by (simp add: to_double_eval)
qed

lemma rollover_date: "iso_date (MakeDay 2023 1 31) = ''2023-03-03''"
proof -
  have d: "MakeDay 2023 1 31 = 19419"
    by (simp add: MakeDay_def DayFromYear_def InLeapYear_def month_start_def)
  have y: "YearFromDay 19419 = 2023"
    by (simp add: YearFromDay_def year_search.simps DayFromYear_def)
  show ?thesis
    unfolding d
    by (simp add: iso_date_def y MonthFromDay_def DateFromDay_def DayWithinYear_def InLeapYear_def
        DayFromYear_def month_start_def pad4_def pad2_def digit_char_def char_of_def bit_Suc_0_iff)
qed

lemma rollover_amount:
  "parseAmountField ''230231USD1'' =
     Inr \<lparr>ad_valueDate = ''2023-03-03'', ad_currency = ''USD'', ad_amount = Finite 1\<rparr>"
proof -
  have p: "amount_pattern ''230231USD1''"
    by (simp add: amount_pattern_def is_digit_def is_upper_def)
  have f: "parseFloat ''1'' = Finite 1"
    using to_double_nat [of 1]
    by (simp add: parseFloat_def parse_unsigned_def is_space_def is_digit_def startsWith_def
        digits_val_def digit_val_def)
  show ?thesis
    using p
    by (simp add: parseAmountField_def Let_def substring_def parseInt_def digits_val_def
        digit_val_def rollover_date f)
qed

theorem parseAmountField_counterexample:
  "parseAmountField ''230701USD1000,00'' =
     Inr \<lparr>ad_valueDate = ''2023-07-01'', ad_currency = ''USD'', ad_amount = Finite 100000\<rparr> \<and>
   SWIFT_parse sample_env (JStr mt103_sample) = Inr mt103_record \<and>
   get mt103_record ''amount'' = JNum (Finite 100000) \<and>
   JNum (Finite 100000) \<noteq> JNum (Finite 1000) \<and>
   amount_pattern ''230231USD1'' \<and>
   parseAmountField ''230231USD1'' =
     Inr \<lparr>ad_valueDate = ''2023-03-03'', ad_currency = ''USD'', ad_amount = Finite 1\<rparr> \<and>
   ''2023-03-03'' \<noteq> ''2023-02-31''"
proof -
  have "amount_pattern ''230231USD1''"
    by (simp add: amount_pattern_def is_digit_def is_upper_def)
  moreover have "get mt103_record ''amount'' = JNum (Finite 100000)"
    by (simp add: mt103_record_def get_def)
  ultimately show ?thesis
    by (simp add: sample_amount sample_SWIFT_parse rollover_amount)
qed

theorem parseAmountField_spec_witness:
  "amount_pattern ''230701USD1000,00'' \<and>
   calendar_date (take 6 ''230701USD1000,00'') \<and>
   list_all is_digit (filter (\<lambda>x. x \<noteq> CHR '','') (drop 9 ''230701USD1000,00'')) \<and>
   (\<exists>ad. parseAmountField ''230701USD1000,00'' = Inr ad \<and> ad_currency ad = ''USD'' \<and>
      ad_amount ad = Finite 100000 \<and> ad_valueDate ad = ''2023-07-01'') \<and>
   header_match mt103_sample = Some ''103'' \<and>
   (\<exists>flds. parseFields mt103_sample ''MT103'' = Inr flds \<and>
      (\<forall>t \<in> set (getRequiredFields ''MT103''). map_of flds t \<noteq> None) \<and>
      content_of flds ''32A'' = Some ''230701USD1000,00'') \<and>
   (\<exists>r. SWIFT_parse sample_env (JStr mt103_sample) = Inr r \<and>
      get r ''amount'' = JNum (Finite 100000) \<and> get r ''currency'' = JStr ''USD'' \<and>
      get r ''valueDate'' = JStr ''2023-07-01'') \<and>
   amount_pattern ''230701EUR10000.50'' \<and>
   (\<exists>ad. parseAmountField ''230701EUR10000.50'' = Inr ad \<and> ad_currency ad = ''EUR'' \<and>
      ad_amount ad = Finite (20001 / 2)) \<and>
   \<not> amount_pattern ''invalid'' \<and>
   parseAmountField ''invalid'' = Inl (Error ''Invalid amount field format: invalid'') \<and>
   header_match bad_amount_sample = Some ''103'' \<and>
   (\<exists>flds. parseFields bad_amount_sample ''MT103'' = Inr flds \<and>
      (\<forall>t \<in> set (getRequiredFields ''MT103''). map_of flds t \<noteq> None) \<and>
      content_of flds ''32A'' = Some ''X'') \<and>
   \<not> amount_pattern ''X'' \<and>
   SWIFT_parse sample_env (JStr bad_amount_sample) = Inl (Error ''Invalid amount field format: X'')"
proof -
  let ?c = "''230701USD1000,00''"
  let ?f = "[(''20'', Field ''20'' ''transaction_reference'' ''123456789''),
      (''32A'', Field ''32A'' ''value_date_currency_amount'' ''230701USD1000,00''),
      (''50K'', Field ''50K'' ''ordering_customer'' ''/12345678''),
      (''59'', Field ''59'' ''beneficiary_customer'' ''/98765432\<newline>-'')]"
  let ?g = "[(''20'', Field ''20'' ''transaction_reference'' ''R''),
      (''32A'', Field ''32A'' ''value_date_currency_amount'' ''X''),
      (''50K'', Field ''50K'' ''ordering_customer'' ''A''),
      (''59'', Field ''59'' ''beneficiary_customer'' ''B'')]"
  have st: "filter (\<lambda>x. x \<noteq> CHR '','') (drop 9 ?c) = ''100000''" by simp
  have dg: "list_all is_digit (filter (\<lambda>x. x \<noteq> CHR '','') (drop 9 ?c))"
    by (simp add: is_digit_def)
  have dv: "digits_val ''100000'' = 100000" by (simp add: digits_val_def digit_val_def)
  have fq: "parseFields mt103_sample (''MT'' @ ''103'') = Inr ?f" using sample_fields by simp
  have rq: "\<forall>t \<in> set (getRequiredFields (''MT'' @ ''103'')). map_of ?f t \<noteq> None"
    by (simp add: getRequiredFields_def)
  have ct: "content_of ?f ''32A'' = Some ?c" by (simp add: content_of_def)
  from parseAmountField_spec [where c = ?c and s = mt103_sample and n = "''103''" and flds = ?f
      and env = sample_env]
  have t1: "amount_pattern ?c \<longrightarrow>
      (\<exists>ad. parseAmountField ?c = Inr ad \<and>
         ad_currency ad = take 3 (drop 6 ?c) \<and>
         (list_all is_digit (filter (\<lambda>x. x \<noteq> CHR '','') (drop 9 ?c)) \<and>
          filter (\<lambda>x. x \<noteq> CHR '','') (drop 9 ?c) \<noteq> [] \<longrightarrow>
            ad_amount ad =
              to_double (of_nat (digits_val (filter (\<lambda>x. x \<noteq> CHR '','') (drop 9 ?c))))) \<and>
         (calendar_date (take 6 ?c) \<longrightarrow>
            ad_valueDate ad =
              ''20'' @ take 2 ?c @ ''-'' @ take 2 (drop 2 ?c) @ ''-'' @ take 2 (drop 4 ?c)))"
    and t2: "header_match mt103_sample = Some ''103'' \<and> (''103'' = ''103'' \<or> ''103'' = ''202'') \<and>
      parseFields mt103_sample (''MT'' @ ''103'') = Inr ?f \<and>
      (\<forall>t \<in> set (getRequiredFields (''MT'' @ ''103'')). map_of ?f t \<noteq> None) \<and>
      content_of ?f ''32A'' = Some ?c \<longrightarrow>
      (\<forall>ad. parseAmountField ?c = Inr ad \<longrightarrow>
         (\<exists>r. SWIFT_parse sample_env (JStr mt103_sample) = Inr r \<and>
            get r ''amount'' = JNum (ad_amount ad) \<and> get r ''currency'' = JStr (ad_currency ad) \<and>
            get r ''valueDate'' = JStr (ad_valueDate ad)))"
    by blast+
  from t1 sample_32A_pattern dg sample_32A_date
  obtain ad where ad: "parseAmountField ?c = Inr ad" "ad_currency ad = take 3 (drop 6 ?c)"
    "ad_amount ad = to_double (of_nat (digits_val (filter (\<lambda>x. x \<noteq> CHR '','') (drop 9 ?c))))"
    "ad_valueDate ad = ''20'' @ take 2 ?c @ ''-'' @ take 2 (drop 2 ?c) @ ''-'' @ take 2 (drop 4 ?c)"
    unfolding st by auto
  have am: "ad_amount ad = Finite 100000"
    unfolding ad(3) st dv using to_double_nat [of 100000] by simp
  have w1: "\<exists>ad. parseAmountField ?c = Inr ad \<and> ad_currency ad = ''USD'' \<and>
      ad_amount ad = Finite 100000 \<and> ad_valueDate ad = ''2023-07-01''"
    using ad(1,2,4) am by simp
  from t2 sample_header fq rq ct ad(1)
  obtain r where r: "SWIFT_parse sample_env (JStr mt103_sample) = Inr r"
    "get r ''amount'' = JNum (ad_amount ad)" "get r ''currency'' = JStr (ad_currency ad)"
    "get r ''valueDate'' = JStr (ad_valueDate ad)"
    by blast
  have w2: "\<exists>r. SWIFT_parse sample_env (JStr mt103_sample) = Inr r \<and>
      get r ''amount'' = JNum (Finite 100000) \<and> get r ''currency'' = JStr ''USD'' \<and>
      get r ''valueDate'' = JStr ''2023-07-01''"
    using r ad(2,4) am by simp
  have w3: "\<exists>flds. parseFields mt103_sample ''MT103'' = Inr flds \<and>
      (\<forall>t \<in> set (getRequiredFields ''MT103''). map_of flds t \<noteq> None) \<and>
      content_of flds ''32A'' = Some ?c"
    using fq rq ct by (intro exI [of _ ?f]) simp
  let ?e = "''230701EUR10000.50''"
  have se: "filter (\<lambda>x. x \<noteq> CHR '','') (drop 9 ?e) = ''10000'' @ ''.'' @ ''50''" by simp
  have de: "list_all is_digit ''10000''" "list_all is_digit ''50''" by (simp_all add: is_digit_def)
  from parseAmountField_spec [where c = ?e and s = mt103_sample and n = "''103''" and flds = ?f
      and env = sample_env]
  have t3: "amount_pattern ?e \<longrightarrow>
      (\<exists>ad. parseAmountField ?e = Inr ad \<and>
         ad_currency ad = take 3 (drop 6 ?e) \<and>
         (\<forall>ip fp. filter (\<lambda>x. x \<noteq> CHR '','') (drop 9 ?e) = ip @ ''.'' @ fp \<and>
              list_all is_digit ip \<and> list_all is_digit fp \<and> (ip \<noteq> [] \<or> fp \<noteq> []) \<longrightarrow>
            ad_amount ad = to_double (of_nat (digits_val (ip @ fp)) / 10 ^ length fp)))"
    by blast
  with decimal_32A_pattern obtain ae where ae: "parseAmountField ?e = Inr ae"
    "ad_currency ae = take 3 (drop 6 ?e)"
    "\<forall>ip fp. filter (\<lambda>x. x \<noteq> CHR '','') (drop 9 ?e) = ip @ ''.'' @ fp \<and>
              list_all is_digit ip \<and> list_all is_digit fp \<and> (ip \<noteq> [] \<or> fp \<noteq> []) \<longrightarrow>
            ad_amount ae = to_double (of_nat (digits_val (ip @ fp)) / 10 ^ length fp)"
    by blast
  from ae(3) se de
  have "ad_amount ae = to_double (of_nat (digits_val (''10000'' @ ''50'')) / 10 ^ length ''50'')"
    by blast
  then have ame: "ad_amount ae = Finite (20001 / 2)" by (simp only: decimal_value)
  have w4: "\<exists>ad. parseAmountField ?e = Inr ad \<and> ad_currency ad = ''EUR'' \<and>
      ad_amount ad = Finite (20001 / 2)"
    using ae(1,2) ame by simp
  have ni: "\<not> amount_pattern ''invalid''" by (simp add: amount_pattern_def)
  from parseAmountField_spec [where c = "''invalid''" and s = mt103_sample and n = "''103''"
      and flds = ?f and env = sample_env] ni
  have w5: "parseAmountField ''invalid'' = Inl (Error ''Invalid amount field format: invalid'')"
    by simp
  have nx: "\<not> amount_pattern ''X''" by (simp add: amount_pattern_def)
  have fb: "parseFields bad_amount_sample (''MT'' @ ''103'') = Inr ?g" using bad_amount_fields by simp
  have rb: "\<forall>t \<in> set (getRequiredFields (''MT'' @ ''103'')). map_of ?g t \<noteq> None"
    by (simp add: getRequiredFields_def)
  have cb: "content_of ?g ''32A'' = Some ''X''" by (simp add: content_of_def)
  from parseAmountField_spec [where c = "''X''" and s = bad_amount_sample and n = "''103''"
      and flds = ?g and env = sample_env]
  have "header_match bad_amount_sample = Some ''103'' \<and> (''103'' = ''103'' \<or> ''103'' = ''202'') \<and>
      parseFields bad_amount_sample (''MT'' @ ''103'') = Inr ?g \<and>
      (\<forall>t \<in> set (getRequiredFields (''MT'' @ ''103'')). map_of ?g t \<noteq> None) \<and>
      content_of ?g ''32A'' = Some ''X'' \<longrightarrow>
      (\<not> amount_pattern ''X'' \<longrightarrow>
         SWIFT_parse sample_env (JStr bad_amount_sample) =
           Inl (Error (''Invalid amount field format: '' @ ''X'')))"
    by blast
  with bad_amount_header fb rb cb nx
  have w6: "SWIFT_parse sample_env (JStr bad_amount_sample) =
      Inl (Error ''Invalid amount field format: X'')"
    by simp
  have w7: "\<exists>flds. parseFields bad_amount_sample ''MT103'' = Inr flds \<and>
      (\<forall>t \<in> set (getRequiredFields ''MT103''). map_of flds t \<noteq> None) \<and>
      content_of flds ''32A'' = Some ''X''"
    using fb rb cb by (intro exI [of _ ?g]) simp
  show ?thesis
    by (intro conjI sample_32A_pattern sample_32A_date dg w1 sample_header w3 w2
        decimal_32A_pattern w4 ni w5 bad_amount_header w7 nx w6)
qed

end
